(* ===== verification/Prelude.thy ===== *)
theory Prelude
  imports Main "HOL-Library.Word" "HOL-Library.Monad_Syntax"
begin

text \<open>
  What every theory of the development shares.

  \<^item> The C scalar types as words: \<open>seL4_Word\<close>, \<open>seL4_CPtr\<close>, \<open>uintptr_t\<close>,
    \<open>size_t\<close> and \<open>unsigned long\<close> are 64 bits wide on the AArch64 target, so they are
    \<open>word64\<close> and their arithmetic wraps. A C \<open>int\<close> that only carries small codes is an \<open>int\<close>.
  \<^item> The outcome convention. A C function that can go wrong returns an option: \<open>None\<close> is a
    run that does not return normally, that is a failed \<open>assert\<close>, a \<open>ZF_LOGF\<close> abort, an
    access outside an array or through a null pointer. A theorem that a function gives
    \<open>Some\<close> is therefore also a theorem that no such thing happens. An error code that the C
    function returns is an ordinary value inside \<open>Some\<close>.
    The names of the source are kept; a variable that would clash with a constant of HOL is
    renamed (\<open>cur\<close> for \<open>curr\<close>, \<open>sz\<close> for \<open>size\<close>).
  \<^item> The machine: the memory mapped into the address space of SOS, as bytes, and the seL4
    kernel, whose answers are a parameter. The kernel is deterministic, so what it answers is a
    function of the invocations made so far: \<open>klog\<close> lists them, latest first, and \<open>kresp\<close> is
    that function. Every component's state extends this record.
\<close>

unbundle bit_operations_syntax

section \<open>Definitions\<close>

subsection \<open>Scalar types and constants\<close>

type_synonym word64 = "64 word"
type_synonym word32 = "32 word"
type_synonym word16 = "16 word"
type_synonym byte = "8 word"
type_synonym cptr = "64 word"
type_synonym pid_t = int

abbreviation (input) seL4_CapNull :: cptr where "seL4_CapNull \<equiv> 0"
abbreviation (input) seL4_NoError :: int where "seL4_NoError \<equiv> 0"
abbreviation (input) seL4_FailedLookup :: int where "seL4_FailedLookup \<equiv> 6"
abbreviation (input) seL4_DeleteFirst :: int where "seL4_DeleteFirst \<equiv> 8"
abbreviation (input) seL4_AllRights :: int where "seL4_AllRights \<equiv> 7"
abbreviation (input) seL4_UntypedObject :: nat where "seL4_UntypedObject \<equiv> 0"
abbreviation (input) seL4_TCBObject :: nat where "seL4_TCBObject \<equiv> 1"
abbreviation (input) seL4_EndpointObject :: nat where "seL4_EndpointObject \<equiv> 2"
abbreviation (input) seL4_NotificationObject :: nat where "seL4_NotificationObject \<equiv> 3"
abbreviation (input) seL4_CapTableObject :: nat where "seL4_CapTableObject \<equiv> 4"
abbreviation (input) seL4_ARM_PageUpperDirectoryObject :: nat where "seL4_ARM_PageUpperDirectoryObject \<equiv> 6"
abbreviation (input) seL4_ARM_PageGlobalDirectoryObject :: nat where "seL4_ARM_PageGlobalDirectoryObject \<equiv> 7"
abbreviation (input) seL4_ARM_SmallPageObject :: nat where "seL4_ARM_SmallPageObject \<equiv> 8"
abbreviation (input) seL4_ARM_LargePageObject :: nat where "seL4_ARM_LargePageObject \<equiv> 9"
abbreviation (input) seL4_ARM_PageTableObject :: nat where "seL4_ARM_PageTableObject \<equiv> 10"
abbreviation (input) seL4_ARM_PageDirectoryObject :: nat where "seL4_ARM_PageDirectoryObject \<equiv> 11"
abbreviation (input) seL4_WordBits :: nat where "seL4_WordBits \<equiv> 64"
abbreviation (input) seL4_PageBits :: nat where "seL4_PageBits \<equiv> 12"
abbreviation (input) seL4_EndpointBits :: nat where "seL4_EndpointBits \<equiv> 4"
abbreviation (input) PAGE_SIZE_4K :: word64 where "PAGE_SIZE_4K \<equiv> 4096"
abbreviation (input) PAGE_BITS_4K :: nat where "PAGE_BITS_4K \<equiv> 12"

text \<open>The macros of \<open>utils/arith.h\<close> and \<open>utils/page.h\<close> at their 64-bit type.\<close>

definition BIT :: "nat \<Rightarrow> word64" where
  "BIT n = push_bit n 1"

definition ROUND_UP :: "word64 \<Rightarrow> word64 \<Rightarrow> word64" where
  "ROUND_UP n b = n + (if n mod b = 0 then 0 else b - n mod b)"

definition ROUND_DOWN :: "word64 \<Rightarrow> word64 \<Rightarrow> word64" where
  "ROUND_DOWN n b = n - n mod b"

definition DIV_ROUND_UP :: "word64 \<Rightarrow> word64 \<Rightarrow> word64" where
  "DIV_ROUND_UP n d = n div d + (if n mod d = 0 then 0 else 1)"

definition ISINRANGE :: "word64 \<Rightarrow> word64 \<Rightarrow> word64 \<Rightarrow> bool" where
  "ISINRANGE a x b = (x = (let m = (if x > a then x else a) in if m < b then m else b))"

definition PAGE_ALIGN_4K :: "word64 \<Rightarrow> word64" where
  "PAGE_ALIGN_4K a = a AND NOT (PAGE_SIZE_4K - 1)"

definition BYTES_TO_4K_PAGES :: "word64 \<Rightarrow> word64" where
  "BYTES_TO_4K_PAGES b = b div PAGE_SIZE_4K + (if b mod PAGE_SIZE_4K > 0 then 1 else 0)"

subsection \<open>Outcomes\<close>

definition c_assert :: "bool \<Rightarrow> unit option" where
  "c_assert b = (if b then Some () else None)"

definition rd :: "'a list \<Rightarrow> nat \<Rightarrow> 'a option" where
  "rd xs i = (if i < length xs then Some (xs ! i) else None)"

definition wr :: "'a list \<Rightarrow> nat \<Rightarrow> 'a \<Rightarrow> 'a list option" where
  "wr xs i v = (if i < length xs then Some (xs[i := v]) else None)"

text \<open>A loop over indices whose body may fail.\<close>

primrec for_each :: "('i \<Rightarrow> 's \<Rightarrow> 's option) \<Rightarrow> 'i list \<Rightarrow> 's \<Rightarrow> 's option" where
  "for_each f [] s = Some s"
| "for_each f (i # is) s = do { s \<leftarrow> f i s; for_each f is s }"

subsection \<open>The seL4 kernel as a parameter\<close>

datatype (plugins only: code size) kcall =
    Untyped_Retype cptr nat nat cptr cptr nat word64 nat
  | CNode_Copy cptr cptr cptr cptr int
  | CNode_Mint cptr cptr cptr cptr int word64
  | CNode_Move cptr cptr cptr cptr
  | CNode_Mutate cptr cptr cptr cptr word64
  | CNode_Delete cptr cptr nat
  | CNode_Revoke cptr cptr
  | CNode_SaveCaller cptr cptr
  | IRQControl_GetTrigger cptr int int cptr cptr
  | IRQHandler_SetNotification cptr cptr
  | IRQHandler_Ack cptr
  | IRQHandler_Clear cptr
  | ARM_Page_Map cptr cptr word64 int int
  | ARM_Page_Unmap cptr
  | ARM_PageTable_Map cptr cptr word64 int
  | ARM_PageDirectory_Map cptr cptr word64 int
  | ARM_PageUpperDirectory_Map cptr cptr word64 int
  | MappingFailedLookupLevel
  | ARM_ASIDPool_Assign cptr cptr
  | ARM_Unify_Instruction cptr word64 word64
  | ARM_CleanInvalidate_Data cptr word64 word64
  | ARM_Clean_Data cptr word64 word64
  | ARM_Invalidate_Data cptr word64 word64
  | TCB_Configure cptr cptr cptr cptr word64 cptr
  | TCB_SetPriority cptr cptr int
  | TCB_WriteRegisters cptr word64 word64
  | TCB_Suspend cptr
  | TCB_BindNotification cptr cptr
  | TCB_SetSpace cptr cptr cptr word64 cptr
  | Send_Reply cptr nat
  | C_malloc word64
  | Read_cntfrq
  | Read_cntvct
  | Pico_socket_open
  | Pico_socket_bind word64
  | Pico_socket_connect word64
  | Pico_socket_sendto word64 word64 int
  | Pico_socket_recvfrom word64
  | Lib_call string "int list"

record machine =
  klog :: "kcall list"
  kresp :: "kcall list \<Rightarrow> int"
  mem :: "word64 \<Rightarrow> byte"

definition kinvoke :: "kcall \<Rightarrow> 'a machine_scheme \<Rightarrow> int \<times> 'a machine_scheme" where
  "kinvoke c s = (kresp s (c # klog s), s\<lparr>klog := c # klog s\<rparr>)"

text \<open>
  A call of a library that is not modelled, or an access to a device register, is answered like
  an invocation: its name and its scalar arguments are logged and the environment gives the
  result.
\<close>

definition lib_call :: "string \<Rightarrow> int list \<Rightarrow> 'a machine_scheme \<Rightarrow> int \<times> 'a machine_scheme" where
  "lib_call f args s = kinvoke (Lib_call f args) s"

text \<open>
  \<open>malloc\<close> and \<open>calloc\<close> of the C library, where the code tests their result, are answered the
  same way: the answer is the address, or 0 for \<open>NULL\<close>.
\<close>

definition malloc :: "word64 \<Rightarrow> 'a machine_scheme \<Rightarrow> word64 \<times> 'a machine_scheme" where
  "malloc n s = (let (r, s) = kinvoke (C_malloc n) s in (word_of_int r, s))"

subsection \<open>Memory as bytes, with little-endian 64-bit accesses\<close>

primrec load_bytes :: "nat \<Rightarrow> (word64 \<Rightarrow> byte) \<Rightarrow> word64 \<Rightarrow> word64" where
  "load_bytes 0 m a = 0"
| "load_bytes (Suc n) m a = ucast (m a) OR push_bit 8 (load_bytes n m (a + 1))"

definition load64 :: "(word64 \<Rightarrow> byte) \<Rightarrow> word64 \<Rightarrow> word64" where
  "load64 m a = load_bytes 8 m a"

definition store64 :: "(word64 \<Rightarrow> byte) \<Rightarrow> word64 \<Rightarrow> word64 \<Rightarrow> (word64 \<Rightarrow> byte)" where
  "store64 m a v = (\<lambda>x. if x - a < 8 then ucast (drop_bit (8 * unat (x - a)) v) else m x)"

definition memset :: "(word64 \<Rightarrow> byte) \<Rightarrow> word64 \<Rightarrow> byte \<Rightarrow> word64 \<Rightarrow> (word64 \<Rightarrow> byte)" where
  "memset m a c n = (\<lambda>x. if x - a < n then c else m x)"

definition memcpy :: "(word64 \<Rightarrow> byte) \<Rightarrow> word64 \<Rightarrow> word64 \<Rightarrow> word64 \<Rightarrow> (word64 \<Rightarrow> byte)" where
  "memcpy m dst src n = (\<lambda>x. if x - dst < n then m (src + (x - dst)) else m x)"

section \<open>Lemmas\<close>

subsection \<open>Outcomes\<close>

named_theorems outcome \<open>rules that run the option outcomes\<close>

lemma c_assert_Some [outcome, simp]: "c_assert b = Some u \<longleftrightarrow> b"
  by (simp add: c_assert_def)

lemma c_assert_None [outcome, simp]: "c_assert b = None \<longleftrightarrow> \<not> b"
  by (simp add: c_assert_def)

lemma c_assert_True [simp]: "c_assert True = Some ()"
  by (simp add: c_assert_def)

lemma c_assert_False [simp]: "c_assert False = None"
  by (simp add: c_assert_def)

lemma rd_Some [outcome]: "rd xs i = Some x \<longleftrightarrow> i < length xs \<and> x = xs ! i"
  by (auto simp: rd_def)

lemma rd_None [outcome]: "rd xs i = None \<longleftrightarrow> length xs \<le> i"
  by (auto simp: rd_def)

lemma rd_in [simp]: "i < length xs \<Longrightarrow> rd xs i = Some (xs ! i)"
  by (simp add: rd_def)

lemma rd_out [simp]: "length xs \<le> i \<Longrightarrow> rd xs i = None"
  by (simp add: rd_def)

lemma wr_Some [outcome]: "wr xs i v = Some ys \<longleftrightarrow> i < length xs \<and> ys = xs[i := v]"
  by (auto simp: wr_def)

lemma wr_in [simp]: "i < length xs \<Longrightarrow> wr xs i v = Some (xs[i := v])"
  by (simp add: wr_def)

lemma wr_out [simp]: "length xs \<le> i \<Longrightarrow> wr xs i v = None"
  by (simp add: wr_def)

lemmas outcome_bind = Option.bind_eq_Some_conv Option.bind_eq_None_conv

text \<open>
  \<open>ends P x\<close>: if the run \<open>x\<close> ends, its result satisfies \<open>P\<close>. The rules \<open>paths\<close> follow the
  structure of an operation and leave one goal for every path through it, with the equations
  of the calls on the path as hypotheses.
\<close>

definition ends :: "('r \<Rightarrow> bool) \<Rightarrow> 'r option \<Rightarrow> bool" where
  "ends P x \<longleftrightarrow> (\<forall>r. x = Some r \<longrightarrow> P r)"

named_theorems paths \<open>rules that split an operation into its paths\<close>

lemma endsD: "ends P x \<Longrightarrow> x = Some r \<Longrightarrow> P r"
  by (simp add: ends_def)

lemma ends_Some [paths]: "P r \<Longrightarrow> ends P (Some r)"
  by (simp add: ends_def)

lemma ends_None [paths]: "ends P None"
  by (simp add: ends_def)

lemma ends_bind [paths]: "(\<And>r. x = Some r \<Longrightarrow> ends P (f r)) \<Longrightarrow> ends P (x \<bind> f)"
  by (auto simp: ends_def bind_eq_Some_conv)

lemma ends_if [paths]: "(b \<Longrightarrow> ends P x) \<Longrightarrow> (\<not> b \<Longrightarrow> ends P y) \<Longrightarrow> ends P (if b then x else y)"
  by simp

lemma ends_prod [paths]: "(\<And>a b. z = (a, b) \<Longrightarrow> ends P (f a b)) \<Longrightarrow> ends P (case z of (a, b) \<Rightarrow> f a b)"
  by (cases z) simp

lemma ends_prod_app [paths]: "(\<And>a b. z = (a, b) \<Longrightarrow> ends P (f a b s)) \<Longrightarrow> ends P ((case z of (a, b) \<Rightarrow> f a b) s)"
  by (cases z) simp

lemma ends_let [paths]: "(\<And>x. v = x \<Longrightarrow> ends P (f x)) \<Longrightarrow> ends P (let x = v in f x)"
  by simp

lemma ends_option [paths]:
  "(z = None \<Longrightarrow> ends P x) \<Longrightarrow> (\<And>a. z = Some a \<Longrightarrow> ends P (f a)) \<Longrightarrow> ends P (case z of None \<Rightarrow> x | Some a \<Rightarrow> f a)"
  by (cases z) simp_all

lemma ends_list [paths]:
  "(z = [] \<Longrightarrow> ends P x) \<Longrightarrow> (\<And>a as. z = a # as \<Longrightarrow> ends P (f a as)) \<Longrightarrow>
   ends P (case z of [] \<Rightarrow> x | a # as \<Rightarrow> f a as)"
  by (cases z) simp_all

subsection \<open>The kernel log\<close>

lemma kinvoke_frame [simp]:
  "mem (snd (kinvoke c s)) = mem s"
  "kresp (snd (kinvoke c s)) = kresp s"
  "klog (snd (kinvoke c s)) = c # klog s"
  "machine.more (snd (kinvoke c s)) = machine.more s"
  by (simp_all add: kinvoke_def)

subsection \<open>Words and naturals\<close>

lemma unat_less_2p64 [simp]: "unat (a :: word64) < 18446744073709551616"
  using unsigned_less [of a, where ?'a = nat] by simp

lemma unat_of_nat64: "n < 18446744073709551616 \<Longrightarrow> unat (word_of_nat n :: word64) = n"
  by (simp add: unat_of_nat)

lemma unat_add64: "unat a + unat b < 18446744073709551616 \<Longrightarrow> unat (a + b :: word64) = unat a + unat b"
  by (simp add: unat_word_ariths)

lemma unat_mult64: "unat a * unat b < 18446744073709551616 \<Longrightarrow> unat (a * b :: word64) = unat a * unat b"
  by (simp add: unat_word_ariths)

lemma take_bit_small64: "(a :: word64) < 2 ^ n \<Longrightarrow> n < 64 \<Longrightarrow> take_bit n a = a"
proof -
  assume a: "a < 2 ^ n" and n: "n < 64"
  have "(2 :: nat) ^ n < 2 ^ 64" using n by (intro power_strict_increasing) simp_all
  then have "unat (word_of_nat (2 ^ n) :: word64) = 2 ^ n" by (intro unat_of_nat64) simp
  then have "unat (2 ^ n :: word64) = 2 ^ n" by simp
  then have "unat a < 2 ^ n" using a by (simp add: word_less_nat_alt)
  then show ?thesis by (simp add: word_unat_eq_iff unsigned_take_bit_eq take_bit_nat_eq_self)
qed

subsection \<open>Aligned addresses\<close>

definition aligned :: "nat \<Rightarrow> word64 \<Rightarrow> bool" where
  "aligned n a \<longleftrightarrow> 2 ^ n dvd unat a"

lemma aligned_0 [simp]: "aligned n 0"
  by (simp add: aligned_def)

lemma pow2_dvd_2p64: "n \<le> 64 \<Longrightarrow> (2 :: nat) ^ n dvd 18446744073709551616"
  using le_imp_power_dvd [of n 64 "2 :: nat"] by simp

lemma aligned_add: "n \<le> 64 \<Longrightarrow> aligned n a \<Longrightarrow> aligned n b \<Longrightarrow> aligned n (a + b)"
  unfolding aligned_def by (simp add: unat_word_ariths dvd_mod pow2_dvd_2p64)

lemma aligned_diff: "n \<le> 64 \<Longrightarrow> aligned n a \<Longrightarrow> aligned n b \<Longrightarrow> aligned n (a - b)"
  unfolding aligned_def
  by (simp add: unat_sub_if_size word_size dvd_diff_nat dvd_add pow2_dvd_2p64)

lemma aligned_weaken: "aligned n a \<Longrightarrow> m \<le> n \<Longrightarrow> aligned m a"
  unfolding aligned_def by (meson dvd_trans le_imp_power_dvd)

lemma aligned_mult_left: "n \<le> 64 \<Longrightarrow> aligned n a \<Longrightarrow> aligned n (a * b)"
  unfolding aligned_def by (simp add: unat_word_ariths dvd_mod pow2_dvd_2p64)

lemma aligned_offset_disjoint:
  assumes "aligned n a" "aligned n b" "a \<noteq> b" "unat i < 2 ^ n" "n < 64"
  shows "2 ^ n \<le> unat (a + i - b)"
proof -
  define d where "d = a - b"
  have "aligned n d" using assms(1,2,5) by (simp add: d_def aligned_diff)
  then obtain k where k: "unat d = 2 ^ n * k" unfolding aligned_def by blast
  have "d \<noteq> 0" using assms(3) by (simp add: d_def)
  then have "k \<noteq> 0" using k by (metis mult_0_right unat_eq_zero)
  have p64: "(2::nat) ^ n * 2 ^ (64 - n) = 18446744073709551616"
    using assms(5) by (simp flip: power_add)
  have "2 ^ n * k < 2 ^ n * 2 ^ (64 - n)" using k p64 unat_less_2p64 [of d] by simp
  then have "k < 2 ^ (64 - n)" by simp
  then have "2 ^ n * Suc k \<le> 2 ^ n * 2 ^ (64 - n)" by (intro mult_le_mono2) simp
  then have "unat d + unat i < 18446744073709551616" using k assms(4) p64 by simp
  then have "unat (d + i) = unat d + unat i" by (rule unat_add64)
  moreover have "2 ^ n \<le> unat d" using k \<open>k \<noteq> 0\<close> by simp
  ultimately show ?thesis by (simp add: d_def algebra_simps)
qed

subsection \<open>64-bit loads and stores\<close>

lemma bit_load_bytes_Suc:
  "bit (load_bytes (Suc n) m a) k \<longleftrightarrow>
     (if k < 8 then bit (m a) k else k < 64 \<and> bit (load_bytes n m (a + 1)) (k - 8))"
proof -
  have "\<not> k < 8 \<Longrightarrow> \<not> bit (m a) k"
    using bit_imp_le_length [of "m a" k] by auto
  moreover have "bit (m a) k \<Longrightarrow> k < 64"
    using bit_imp_le_length [of "m a" k] by simp
  ultimately show ?thesis
    by (simp add: bit_or_iff bit_push_bit_iff bit_ucast_iff not_less)
qed

lemma bit_load_bytes:
  "n \<le> 8 \<Longrightarrow> bit (load_bytes n m a) k \<longleftrightarrow>
     k < 8 * n \<and> bit (m (a + of_nat (k div 8))) (k mod 8)"
proof (induction n arbitrary: a k)
  case 0
  then show ?case by simp
next
  case (Suc n)
  show ?case
  proof (cases "k < 8")
    case True
    then show ?thesis by (simp only: bit_load_bytes_Suc) simp
  next
    case False
    then have k: "k div 8 = Suc ((k - 8) div 8)" "k mod 8 = (k - 8) mod 8"
      by (simp_all add: le_div_geq le_mod_geq)
    have ad: "a + 1 + word_of_nat ((k - 8) div 8) = a + word_of_nat (k div 8)"
      by (simp add: k(1) ac_simps)
    have lt: "(k < 64 \<and> k - 8 < 8 * n) = (k < 8 * Suc n)"
      using False Suc.prems by arith
    have "bit (load_bytes n m (a + 1)) (k - 8) = (k - 8 < 8 * n \<and> bit (m (a + word_of_nat (k div 8))) (k mod 8))"
      using Suc.IH [of "a + 1" "k - 8"] Suc.prems unfolding ad k(2) by simp
    then show ?thesis
      unfolding bit_load_bytes_Suc lt [symmetric] using False by (simp only: if_False conj_assoc)
  qed
qed

lemma load64_cong: "(\<And>i. i < 8 \<Longrightarrow> m (a + of_nat i) = m' (a + of_nat i)) \<Longrightarrow> load64 m a = load64 m' a"
  by (rule bit_word_eqI) (auto simp: load64_def bit_load_bytes)

lemma load64_store64_same [simp]: "load64 (store64 m a v) a = v"
proof (rule bit_word_eqI)
  fix k :: nat
  assume k: "k < LENGTH(64)"
  have "unat (word_of_nat (k div 8) :: word64) = k div 8"
    using k by (simp add: unat_of_nat64)
  moreover have "(word_of_nat (k div 8) :: word64) < 8"
    using k calculation by (simp add: word_less_nat_alt)
  ultimately show "bit (load64 (store64 m a v) a) k = bit v k"
    using k by (auto simp: load64_def bit_load_bytes store64_def bit_ucast_iff bit_drop_bit_eq)
qed

lemma load64_store64_other:
  assumes "aligned 3 a" "aligned 3 b" "a \<noteq> b"
  shows "load64 (store64 m a v) b = load64 m b"
proof (rule load64_cong)
  fix i :: nat
  assume i: "i < 8"
  have "unat (word_of_nat i :: word64) = i" using i by (simp add: unat_of_nat64)
  then have "2 ^ 3 \<le> unat (b + of_nat i - a)"
    using assms i by (intro aligned_offset_disjoint) auto
  then show "store64 m a v (b + of_nat i) = m (b + of_nat i)"
    by (simp add: store64_def word_less_nat_alt)
qed

lemma load64_zero: "(\<And>i. i < 8 \<Longrightarrow> m (a + of_nat i) = 0) \<Longrightarrow> load64 m a = 0"
  by (rule bit_word_eqI) (auto simp: load64_def bit_load_bytes)

end
