(* ===== verification/PQueue.thy ===== *)
theory PQueue
  imports Prelude "HOL-Library.Multiset"
begin

text \<open>
  The timer queue of \<open>libclock/src/pqueue.c\<close>: a singly linked list of jobs kept in the order
  of their absolute tick. The list is the list of its jobs, \<open>malloc\<close> succeeds (the code does not
  test it), a callback and its data are opaque addresses.

  The lemmas show that every operation keeps the order, what \<open>pqueue_push\<close> does on every
  branch (it loses a job whose tick equals the last tick of a queue with an earlier head), and
  that removal takes out the first job with the given id and nothing else. The locale
  \<open>timer_queue\<close> is the contract the clock driver relies on.
\<close>

section \<open>Definitions\<close>

datatype job_type_t = PERIODIC | ONE_SHOT

record job =
  j_id :: word32
  j_delay :: word64
  j_tick :: word64
  j_type :: job_type_t
  j_callback :: word64
  j_data :: word64

record pqueue =
  pq_size :: word32
  pq_time :: word64
  pq_head :: "job list"

abbreviation (input) CLOCK_R_OK :: int where "CLOCK_R_OK \<equiv> 0"
abbreviation (input) CLOCK_R_UINT :: int where "CLOCK_R_UINT \<equiv> - 1"
abbreviation (input) CLOCK_R_FAIL :: int where "CLOCK_R_FAIL \<equiv> - 3"

definition pqueue_init :: pqueue where
  "pqueue_init = \<lparr>pq_size = 0, pq_time = 0, pq_head = []\<rparr>"

text \<open>
  The \<open>while\<close> loop of \<open>pqueue_push\<close>, on the list that starts at \<open>curr_job\<close>. At the last
  node the new job is linked in only if its tick is larger; the loop then visits the new job,
  whose own comparison fails, and ends.
\<close>

fun pqueue_push_walk :: "job \<Rightarrow> job list \<Rightarrow> job list" where
  "pqueue_push_walk new [] = []"
| "pqueue_push_walk new [c] = (if j_tick c < j_tick new then [c, new] else [c])"
| "pqueue_push_walk new (c # d # rest) =
     (if j_tick d > j_tick new then c # new # d # rest
      else c # pqueue_push_walk new (d # rest))"

text \<open>
  \<open>next_job_id\<close> is the static counter of the file: it is passed in and returned. The result is
  the returned id, the counter and the queue.
\<close>

definition pqueue_push ::
  "word32 \<Rightarrow> pqueue \<Rightarrow> word32 \<Rightarrow> word64 \<Rightarrow> job_type_t \<Rightarrow> word64 \<Rightarrow> word64
     \<Rightarrow> word32 \<times> word32 \<times> pqueue" where
  "pqueue_push next_job_id pq i delay ty callback data =
     (let (nid, next) = (if i \<noteq> 0 then (i, next_job_id) else (next_job_id, next_job_id + 1));
          new = \<lparr>j_id = nid, j_delay = delay, j_tick = pq_time pq + delay, j_type = ty,
                 j_callback = callback, j_data = data\<rparr>;
          pq1 = pq\<lparr>pq_size := pq_size pq + 1\<rparr>
      in (nid, next,
          case pq_head pq of
            [] \<Rightarrow> pq1\<lparr>pq_head := [new]\<rparr>
          | h # t \<Rightarrow>
              if j_tick new \<le> j_tick h then pq1\<lparr>pq_head := new # h # t\<rparr>
              else pq1\<lparr>pq_head := pqueue_push_walk new (h # t)\<rparr>))"

definition pqueue_peek :: "pqueue \<Rightarrow> job option" where
  "pqueue_peek pq = (case pq_head pq of [] \<Rightarrow> None | j # _ \<Rightarrow> Some j)"

definition pqueue_pop :: "word32 \<Rightarrow> pqueue \<Rightarrow> int \<times> word32 \<times> pqueue" where
  "pqueue_pop next_job_id pq =
     (case pq_head pq of
        [] \<Rightarrow> (CLOCK_R_FAIL, next_job_id, pq)
      | d # rest \<Rightarrow>
          let pq1 = pq\<lparr>pq_head := rest, pq_size := pq_size pq - 1\<rparr>
          in if j_type d = PERIODIC then
               let (_, next, pq2) =
                 pqueue_push next_job_id pq1 (j_id d) (j_delay d) (j_type d) (j_callback d) (j_data d)
               in (CLOCK_R_OK, next, pq2)
             else (CLOCK_R_OK, next_job_id, pq1))"

text \<open>The loop of \<open>pqueue_remove\<close> from \<open>curr_job\<close>: \<open>None\<close> when it ends without a match.\<close>

fun pqueue_remove_walk :: "word32 \<Rightarrow> job list \<Rightarrow> job list option" where
  "pqueue_remove_walk i [] = None"
| "pqueue_remove_walk i [c] = None"
| "pqueue_remove_walk i (c # d # rest) =
     (if j_id d = i then Some (c # rest)
      else map_option (\<lambda>xs. c # xs) (pqueue_remove_walk i (d # rest)))"

definition pqueue_remove :: "pqueue \<Rightarrow> word32 \<Rightarrow> int \<times> pqueue" where
  "pqueue_remove pq i =
     (case pq_head pq of
        [] \<Rightarrow> (CLOCK_R_FAIL, pq)
      | h # t \<Rightarrow>
          if j_id h = i then (CLOCK_R_OK, pq\<lparr>pq_head := t, pq_size := pq_size pq - 1\<rparr>)
          else (case pqueue_remove_walk i (h # t) of
                  None \<Rightarrow> (CLOCK_R_FAIL, pq)
                | Some xs \<Rightarrow> (CLOCK_R_OK, pq\<lparr>pq_head := xs, pq_size := pq_size pq - 1\<rparr>)))"

text \<open>\<open>pqueue_destroy\<close> frees every node and the queue itself; \<open>None\<close> is the freed queue.\<close>

definition pqueue_destroy :: "pqueue \<Rightarrow> pqueue option" where
  "pqueue_destroy pq = None"

section \<open>The order of the queue\<close>

definition pq_sorted :: "pqueue \<Rightarrow> bool" where
  "pq_sorted pq \<longleftrightarrow> sorted (map j_tick (pq_head pq))"

text \<open>The insertions that \<open>pqueue_push\<close> loses: a tick equal to the last one, behind an earlier head.\<close>

definition pq_lost :: "pqueue \<Rightarrow> word64 \<Rightarrow> bool" where
  "pq_lost pq t \<longleftrightarrow>
     pq_head pq \<noteq> [] \<and> j_tick (hd (pq_head pq)) < t \<and> j_tick (last (pq_head pq)) = t"

definition pq_insert :: "job \<Rightarrow> job list \<Rightarrow> job list" where
  "pq_insert n xs =
     (if xs = [] \<or> j_tick n \<le> j_tick (hd xs) then n # xs else pqueue_push_walk n xs)"

definition new_job ::
  "word32 \<Rightarrow> word64 \<Rightarrow> word64 \<Rightarrow> job_type_t \<Rightarrow> word64 \<Rightarrow> word64 \<Rightarrow> job" where
  "new_job i time delay ty cb data =
     \<lparr>j_id = i, j_delay = delay, j_tick = time + delay, j_type = ty, j_callback = cb, j_data = data\<rparr>"

lemma new_job_sel [simp]:
  "j_id (new_job i time delay ty cb data) = i"
  "j_delay (new_job i time delay ty cb data) = delay"
  "j_tick (new_job i time delay ty cb data) = time + delay"
  "j_type (new_job i time delay ty cb data) = ty"
  "j_callback (new_job i time delay ty cb data) = cb"
  "j_data (new_job i time delay ty cb data) = data"
  by (simp_all add: new_job_def)

lemma pqueue_push_eq:
  "pqueue_push nx pq i delay ty cb data =
     (if i \<noteq> 0 then i else nx, if i \<noteq> 0 then nx else nx + 1,
      pq\<lparr>pq_size := pq_size pq + 1,
         pq_head := pq_insert (new_job (if i \<noteq> 0 then i else nx) (pq_time pq) delay ty cb data)
                      (pq_head pq)\<rparr>)"
  by (auto simp: pqueue_push_def pq_insert_def new_job_def Let_def split: list.splits)

lemma push_walk_last_eq:
  "xs \<noteq> [] \<Longrightarrow> sorted (map j_tick xs) \<Longrightarrow> j_tick (last xs) = j_tick n \<Longrightarrow>
     pqueue_push_walk n xs = xs"
proof (induction n xs rule: pqueue_push_walk.induct)
  case (3 n c d rest)
  have "j_tick d \<le> j_tick (last (d # rest))"
    using "3.prems"(2) by (cases rest rule: rev_cases) auto
  with "3.prems" "3.IH" show ?case by auto
qed auto

lemma push_walk_set: "set (pqueue_push_walk n xs) \<subseteq> insert n (set xs)"
  by (induction n xs rule: pqueue_push_walk.induct) auto

lemma push_walk_sorted:
  "xs \<noteq> [] \<Longrightarrow> sorted (map j_tick xs) \<Longrightarrow> j_tick (hd xs) \<le> j_tick n \<Longrightarrow>
     sorted (map j_tick (pqueue_push_walk n xs))"
proof (induction n xs rule: pqueue_push_walk.induct)
  case (3 n c d rest)
  show ?case
  proof (cases "j_tick d > j_tick n")
    case True
    with "3.prems" show ?thesis by auto
  next
    case False
    then have "sorted (map j_tick (pqueue_push_walk n (d # rest)))"
      using "3.prems" "3.IH" by auto
    moreover have "\<forall>x \<in> set (pqueue_push_walk n (d # rest)). j_tick c \<le> j_tick x"
      using push_walk_set [of n "d # rest"] "3.prems" by auto
    ultimately show ?thesis using False by auto
  qed
qed auto

lemma push_walk_mset:
  "xs \<noteq> [] \<Longrightarrow> sorted (map j_tick xs) \<Longrightarrow> j_tick (last xs) \<noteq> j_tick n \<Longrightarrow>
     j_tick (hd xs) \<le> j_tick n \<Longrightarrow> mset (pqueue_push_walk n xs) = add_mset n (mset xs)"
  by (induction n xs rule: pqueue_push_walk.induct) auto

lemma pq_insert_sorted: "sorted (map j_tick xs) \<Longrightarrow> sorted (map j_tick (pq_insert n xs))"
  by (cases xs) (auto simp: pq_insert_def intro!: push_walk_sorted)

lemma pq_insert_set: "set (pq_insert n xs) \<subseteq> insert n (set xs)"
  by (auto simp: pq_insert_def dest: subsetD [OF push_walk_set])

lemma pq_insert_mset:
  assumes "sorted (map j_tick xs)"
  shows "mset (pq_insert n xs) =
    (if xs \<noteq> [] \<and> j_tick (hd xs) < j_tick n \<and> j_tick (last xs) = j_tick n then mset xs
     else add_mset n (mset xs))"
  using assms by (auto simp: pq_insert_def push_walk_last_eq push_walk_mset)

lemma pqueue_pop_sorted: "pq_sorted pq \<Longrightarrow> pq_sorted (snd (snd (pqueue_pop nx pq)))"
  by (auto simp: pqueue_pop_def Let_def pq_sorted_def pqueue_push_eq pq_insert_sorted
      split: list.splits)

lemma find_remove1_Cons:
  "j_id c \<noteq> i \<Longrightarrow> map_option (\<lambda>j. remove1 j (c # xs)) (find (\<lambda>j. j_id j = i) xs)
     = map_option (\<lambda>ys. c # ys) (map_option (\<lambda>j. remove1 j xs) (find (\<lambda>j. j_id j = i) xs))"
proof (cases "find (\<lambda>j. j_id j = i) xs")
  case (Some j)
  then have "j_id j = i" by (auto simp: find_Some_iff)
  then show "j_id c \<noteq> i \<Longrightarrow> ?thesis" using Some by auto
qed simp

lemma remove_walk_eq:
  "xs \<noteq> [] \<Longrightarrow> j_id (hd xs) \<noteq> i \<Longrightarrow>
     pqueue_remove_walk i xs = map_option (\<lambda>j. remove1 j xs) (find (\<lambda>j. j_id j = i) xs)"
proof (induction i xs rule: pqueue_remove_walk.induct)
  case (3 i c d rest)
  then show ?case using find_remove1_Cons [of c i "d # rest"] by auto
qed auto

section \<open>The contract of a timer queue\<close>

locale timer_queue =
  fixes peek :: "'q \<Rightarrow> job option"
    and pop :: "word32 \<Rightarrow> 'q \<Rightarrow> int \<times> word32 \<times> 'q"
    and jobs :: "'q \<Rightarrow> job multiset"
    and invar :: "'q \<Rightarrow> bool"
  assumes peek_none: "invar q \<Longrightarrow> peek q = None \<longleftrightarrow> jobs q = {#}"
    and peek_min: "invar q \<Longrightarrow> peek q = Some j \<Longrightarrow> j \<in># jobs q \<and> (\<forall>k \<in># jobs q. j_tick j \<le> j_tick k)"
    and pop_one_shot: "invar q \<Longrightarrow> peek q = Some j \<Longrightarrow> j_type j = ONE_SHOT \<Longrightarrow>
      jobs (snd (snd (pop nx q))) = jobs q - {#j#}"
    and pop_invar: "invar q \<Longrightarrow> invar (snd (snd (pop nx q)))"
begin

lemma none_due_before:
  assumes "invar q" "peek q = None \<or> (\<exists>j. peek q = Some j \<and> t \<le> j_tick j)"
  shows "\<forall>k \<in># jobs q. t \<le> j_tick k"
  using assms peek_none [of q] peek_min [of q] by force

lemma pop_shrinks:
  assumes "invar q" "peek q = Some j" "j_type j = ONE_SHOT"
  shows "size (jobs (snd (snd (pop nx q)))) < size (jobs q)"
  using peek_min [OF assms(1,2)] by (simp add: pop_one_shot [OF assms] size_Diff1_less)

end

interpretation pqueue_timer: timer_queue pqueue_peek pqueue_pop "\<lambda>q. mset (pq_head q)" pq_sorted
proof (unfold_locales, goal_cases)
  case (1 q)
  then show ?case by (simp add: pqueue_peek_def split: list.splits)
next
  case (2 q j)
  then show ?case by (auto simp: pqueue_peek_def pq_sorted_def split: list.splits)
next
  case (3 q j nx)
  then show ?case by (auto simp: pqueue_peek_def pqueue_pop_def split: list.splits)
next
  case (4 q nx)
  then show ?case by (rule pqueue_pop_sorted)
qed

section \<open>Properties\<close>

text \<open>
  C9. Pushing a job onto an ordered queue keeps it ordered and counts it, and puts exactly that
  job in, except in the one case where its tick equals the last tick of a queue whose head is
  earlier: then the queue is unchanged and the job is lost, although its id is returned.
\<close>

theorem pqueue_push_correct:
  assumes "pq_sorted pq" and "pqueue_push nx pq i delay ty cb data = (r, nx', pq')"
  shows "pq_sorted pq' \<and> pq_size pq' = pq_size pq + 1 \<and> r = (if i \<noteq> 0 then i else nx) \<and>
    mset (pq_head pq') =
      (if pq_lost pq (pq_time pq + delay) then mset (pq_head pq)
       else add_mset (new_job r (pq_time pq) delay ty cb data) (mset (pq_head pq)))"
  using assms
  by (auto simp: pqueue_push_eq pq_sorted_def pq_insert_sorted pq_insert_mset pq_lost_def)

definition pq_example :: pqueue where
  "pq_example = \<lparr>pq_size = 2, pq_time = 0,
     pq_head = [new_job 1 0 10 ONE_SHOT 7 7, new_job 2 0 30 ONE_SHOT 7 7]\<rparr>"

theorem pqueue_push_correct_witness:
  "pq_sorted (snd (snd (pqueue_push 3 pq_example 0 20 ONE_SHOT 7 7))) \<and>
   size (mset (pq_head (snd (snd (pqueue_push 3 pq_example 0 20 ONE_SHOT 7 7))))) = 3 \<and>
   mset (pq_head (snd (snd (pqueue_push 3 pq_example 0 30 ONE_SHOT 7 7)))) = mset (pq_head pq_example)"
proof -
  have s: "pq_sorted pq_example" by (simp add: pq_sorted_def pq_example_def)
  have e: "pqueue_push 3 pq_example 0 d ONE_SHOT 7 7 =
    (fst (pqueue_push 3 pq_example 0 d ONE_SHOT 7 7),
     fst (snd (pqueue_push 3 pq_example 0 d ONE_SHOT 7 7)),
     snd (snd (pqueue_push 3 pq_example 0 d ONE_SHOT 7 7)))" for d by simp
  show ?thesis
    using pqueue_push_correct [OF s e, of 20] pqueue_push_correct [OF s e, of 30]
    by (simp add: pq_lost_def pq_example_def)
qed

text \<open>
  C10. \<open>pqueue_remove\<close> is the reference removal: it fails and changes nothing when no job has
  the id, and otherwise takes out the first such job, leaves every other job in its place and
  decrements the size.
\<close>

theorem pqueue_remove_correct:
  "pqueue_remove pq i =
     (case find (\<lambda>j. j_id j = i) (pq_head pq) of
        None \<Rightarrow> (CLOCK_R_FAIL, pq)
      | Some j \<Rightarrow> (CLOCK_R_OK, pq\<lparr>pq_head := remove1 j (pq_head pq), pq_size := pq_size pq - 1\<rparr>))"
proof (cases "pq_head pq")
  case Nil
  then show ?thesis by (simp add: pqueue_remove_def)
next
  case (Cons h t)
  then show ?thesis
    using remove_walk_eq [of "h # t" i] by (auto simp: pqueue_remove_def split: option.splits)
qed

end
