(* ===== verification/Bitfield.thy ===== *)
theory Bitfield
  imports Prelude
begin

text \<open>
  The bit fields of \<open>libsel4cspace/include/cspace/bitfield.h\<close>: an array of words indexed by bit.
  A bit outside the array is an access outside the array, hence \<open>None\<close>.

  The lemmas show that the three accessors are a boolean array, that the search returns the
  least clear bit, and that on a field with no clear bit it reads one word past the array
  before it tests its bound. The locale \<open>bit_set\<close> is the contract the slot allocator uses.
\<close>

section \<open>Definitions\<close>

abbreviation (input) WORD_BITS :: nat where "WORD_BITS \<equiv> 64"

definition WORD_INDEX :: "nat \<Rightarrow> nat" where "WORD_INDEX b = b div WORD_BITS"
definition BIT_INDEX :: "nat \<Rightarrow> nat" where "BIT_INDEX b = b mod WORD_BITS"

definition bf_set_bit :: "word64 list \<Rightarrow> nat \<Rightarrow> word64 list option" where
  "bf_set_bit bits b = do {
     w \<leftarrow> rd bits (WORD_INDEX b);
     wr bits (WORD_INDEX b) (w OR BIT (BIT_INDEX b)) }"

definition bf_clr_bit :: "word64 list \<Rightarrow> nat \<Rightarrow> word64 list option" where
  "bf_clr_bit bits b = do {
     w \<leftarrow> rd bits (WORD_INDEX b);
     wr bits (WORD_INDEX b) (w AND NOT (BIT (BIT_INDEX b))) }"

definition bf_get_bit :: "word64 list \<Rightarrow> nat \<Rightarrow> bool option" where
  "bf_get_bit bits b = do {
     w \<leftarrow> rd bits (WORD_INDEX b);
     Some (w AND BIT (BIT_INDEX b) \<noteq> 0) }"

text \<open>\<open>CTZL\<close>, the count of trailing zeros of a word that is not zero.\<close>

definition CTZL :: "word64 \<Rightarrow> nat" where
  "CTZL v = length (takeWhile (\<lambda>i. \<not> bit v i) [0..<64])"

text \<open>The first loop of \<open>bf_first_free\<close>, from index \<open>i\<close>.\<close>

function bf_first_free_loop :: "nat \<Rightarrow> word64 list \<Rightarrow> nat \<Rightarrow> nat option" where
  "bf_first_free_loop words bits i =
     (if i < words then
        do { v \<leftarrow> rd bits i;
             if v = - 1 then bf_first_free_loop words bits (i + 1) else Some i }
      else Some i)"
  by pat_completeness auto
termination by (relation "measure (\<lambda>(words, bits, i). words - i)") auto

definition bf_first_free :: "nat \<Rightarrow> word64 list \<Rightarrow> nat option" where
  "bf_first_free words bits = do {
     i \<leftarrow> bf_first_free_loop words bits 0;
     v \<leftarrow> rd bits i;
     c_assert (NOT v \<noteq> 0);
     Some (if i < words then i * WORD_BITS + CTZL (NOT v) else i * WORD_BITS) }"

section \<open>A bit field is a boolean array\<close>

declare bf_first_free_loop.simps [simp del]

definition bf_bit :: "word64 list \<Rightarrow> nat \<Rightarrow> bool" where
  "bf_bit bits b \<longleftrightarrow> b < 64 * length bits \<and> bit (bits ! (b div 64)) (b mod 64)"

lemma bit_BIT [simp]: "bit (BIT n) k \<longleftrightarrow> k = n \<and> n < 64"
  by (auto simp: BIT_def bit_exp_iff simp flip: exp_eq_0_imp_not_bit)

lemma and_BIT_nonzero: "n < 64 \<Longrightarrow> (w AND BIT n \<noteq> 0) = bit w n"
  by (auto simp: bit_eq_iff [of "w AND BIT n" 0] bit_and_iff)

lemma index_less: "b < 64 * n \<Longrightarrow> b div 64 < (n :: nat)"
  by (simp add: less_mult_imp_div_less mult.commute)

lemma index_same: "(b :: nat) div 64 = c div 64 \<Longrightarrow> b mod 64 = c mod 64 \<longleftrightarrow> b = c"
  by (metis div_mult_mod_eq)

lemma bf_get_bit_eq: "b < 64 * length bits \<Longrightarrow> bf_get_bit bits b = Some (bf_bit bits b)"
  by (simp add: bf_get_bit_def bf_bit_def WORD_INDEX_def BIT_INDEX_def index_less and_BIT_nonzero)

lemma bf_set_bit_ok:
  assumes "b < 64 * length bits"
  obtains bits' where "bf_set_bit bits b = Some bits'" "length bits' = length bits"
    "\<And>c. bf_bit bits' c \<longleftrightarrow> c = b \<or> bf_bit bits c"
proof
  let ?w = "bits[b div 64 := bits ! (b div 64) OR BIT (b mod 64)]"
  show "bf_set_bit bits b = Some ?w"
    using assms by (simp add: bf_set_bit_def WORD_INDEX_def BIT_INDEX_def index_less)
  show "length ?w = length bits" by simp
  show "bf_bit ?w c \<longleftrightarrow> c = b \<or> bf_bit bits c" for c
    using assms index_same [of c b]
    by (auto simp: bf_bit_def index_less nth_list_update bit_or_iff)
qed

lemma bf_clr_bit_ok:
  assumes "b < 64 * length bits"
  obtains bits' where "bf_clr_bit bits b = Some bits'" "length bits' = length bits"
    "\<And>c. bf_bit bits' c \<longleftrightarrow> c \<noteq> b \<and> bf_bit bits c"
proof
  let ?w = "bits[b div 64 := bits ! (b div 64) AND NOT (BIT (b mod 64))]"
  show "bf_clr_bit bits b = Some ?w"
    using assms by (simp add: bf_clr_bit_def WORD_INDEX_def BIT_INDEX_def index_less)
  show "length ?w = length bits" by simp
  show "bf_bit ?w c \<longleftrightarrow> c \<noteq> b \<and> bf_bit bits c" for c
    using assms index_same [of c b]
    by (auto simp: bf_bit_def index_less nth_list_update bit_and_iff bit_not_iff)
qed

lemma bf_out_of_bounds:
  "64 * length bits \<le> b \<Longrightarrow> bf_set_bit bits b = None"
  "64 * length bits \<le> b \<Longrightarrow> bf_clr_bit bits b = None"
  "64 * length bits \<le> b \<Longrightarrow> bf_get_bit bits b = None"
  by (simp_all add: bf_set_bit_def bf_clr_bit_def bf_get_bit_def WORD_INDEX_def less_eq_div_iff_mult_less_eq)

lemma bf_bit_zero [simp]: "\<not> bf_bit (replicate n 0) b"
  by (auto simp: bf_bit_def index_less)

lemma bf_bit_zero2 [simp]: "\<not> bf_bit [0, 0] b"
  using bf_bit_zero [of 2 b] by (simp add: numeral_2_eq_2)

lemma takeWhile_upt_prefix:
  assumes "bit v n" "\<forall>i<n. \<not> bit v i" "n < N"
  shows "length (takeWhile (\<lambda>i. \<not> bit v i) [0..<N]) = n"
proof -
  have "[0..<N] = [0..<n] @ n # [Suc n..<N]"
    using assms(3) by (metis le0 less_imp_le_nat upt_add_eq_append upt_conv_Cons le_add_diff_inverse)
  moreover have "takeWhile (\<lambda>i. \<not> bit v i) ([0..<n] @ n # [Suc n..<N]) = [0..<n]"
    using assms(1,2) by (subst takeWhile_append2) auto
  ultimately show ?thesis by simp
qed

lemma CTZL_least:
  assumes "v \<noteq> 0"
  shows "CTZL v < 64 \<and> bit v (CTZL v) \<and> (\<forall>i < CTZL v. \<not> bit v i)"
proof -
  obtain n0 where "bit v n0" using assms by (auto simp: bit_eq_iff)
  define n where "n = (LEAST n. bit v n)"
  have n: "bit v n" "\<forall>i<n. \<not> bit v i"
    unfolding n_def using \<open>bit v n0\<close> by (auto intro: LeastI dest: not_less_Least)
  then have "n < 64" using bit_imp_le_length [of v n] by simp
  then have "CTZL v = n" unfolding CTZL_def using n takeWhile_upt_prefix by blast
  then show ?thesis using n \<open>n < 64\<close> by simp
qed

lemma CTZL_NOT_mask: "n < 64 \<Longrightarrow> CTZL (NOT (mask n)) = n"
  unfolding CTZL_def by (rule takeWhile_upt_prefix) (auto simp: bit_not_iff bit_mask_iff)

lemma CTZL_values [simp]: "CTZL (- 1) = 0" "CTZL (- 2) = 1" "CTZL (- 4) = 2" "CTZL (- 8) = 3" "CTZL (- 16) = 4"
  using CTZL_NOT_mask [of 0] CTZL_NOT_mask [of 1] CTZL_NOT_mask [of 2] CTZL_NOT_mask [of 3] CTZL_NOT_mask [of 4]
  by (simp_all add: mask_eq_exp_minus_1)

lemma first_free_loop_ok:
  assumes "i \<le> n" "n = length bits"
  obtains j where "bf_first_free_loop n bits i = Some j" "i \<le> j" "j \<le> n"
    "\<forall>k. i \<le> k \<and> k < j \<longrightarrow> bits ! k = - 1" "j < n \<Longrightarrow> bits ! j \<noteq> - 1"
proof -
  have "\<exists>j. bf_first_free_loop n bits i = Some j \<and> i \<le> j \<and> j \<le> n \<and>
      (\<forall>k. i \<le> k \<and> k < j \<longrightarrow> bits ! k = - 1) \<and> (j < n \<longrightarrow> bits ! j \<noteq> - 1)"
    using assms
  proof (induction n bits i rule: bf_first_free_loop.induct)
    case (1 n bits i)
    show ?case
    proof (cases "i < n \<and> bits ! i = - 1")
      case True
      then obtain j where "bf_first_free_loop n bits (i + 1) = Some j" "i + 1 \<le> j" "j \<le> n"
        "\<forall>k. i + 1 \<le> k \<and> k < j \<longrightarrow> bits ! k = - 1" "j < n \<longrightarrow> bits ! j \<noteq> - 1"
        using 1 by (auto simp: rd_def)
      moreover have "\<forall>k. i \<le> k \<and> k < j \<longrightarrow> bits ! k = - 1"
        using calculation(4) True by (metis Suc_eq_plus1 le_antisym not_less_eq_eq)
      ultimately show ?thesis
        using True "1.prems" bf_first_free_loop.simps [of n bits i] by (intro exI [of _ j]) simp
    next
      case False
      then show ?thesis
        using "1.prems" bf_first_free_loop.simps [of n bits i] by (intro exI [of _ i]) auto
    qed
  qed
  then show ?thesis using that by blast
qed

lemma bf_first_free_full:
  assumes "\<forall>b < 64 * length bits. bf_bit bits b"
  shows "bf_first_free (length bits) bits = None"
proof -
  obtain j where j: "bf_first_free_loop (length bits) bits 0 = Some j" "j \<le> length bits"
    "j < length bits \<Longrightarrow> bits ! j \<noteq> - 1"
    by (rule first_free_loop_ok [of 0 "length bits" bits]) auto
  have "j = length bits"
  proof (rule ccontr)
    assume "j \<noteq> length bits"
    then have jl: "j < length bits" using j(2) by simp
    then have "bits ! j \<noteq> - 1" by (rule j(3))
    then obtain k where "k < 64" "\<not> bit (bits ! j) k" by (auto simp: bit_eq_iff)
    moreover have "64 * j + k < 64 * length bits" using jl \<open>k < 64\<close> by simp
    ultimately show False using assms [rule_format, of "64 * j + k"] by (simp add: bf_bit_def)
  qed
  then show ?thesis using j(1) by (simp add: bf_first_free_def)
qed

lemma bf_first_free_found:
  assumes "\<not> bf_bit bits b" "b < 64 * length bits"
  obtains f where "bf_first_free (length bits) bits = Some f" "f \<le> b" "\<not> bf_bit bits f"
    "\<forall>c < f. bf_bit bits c"
proof -
  obtain j where j: "bf_first_free_loop (length bits) bits 0 = Some j" "j \<le> length bits"
    "\<forall>k < j. bits ! k = - 1" "j < length bits \<Longrightarrow> bits ! j \<noteq> - 1"
    by (rule first_free_loop_ok [of 0 "length bits" bits]) auto
  have full: "bf_bit bits c" if "c < 64 * j" for c
    using that j(2,3) index_less [of c j] by (auto simp: bf_bit_def)
  have "j < length bits" using full [of b] assms j(2) by (metis le_neq_implies_less)
  then have nz: "NOT (bits ! j) \<noteq> 0" using j(4) by (metis bit.compl_zero bit.double_compl)
  define f where "f = j * 64 + CTZL (NOT (bits ! j))"
  have c: "CTZL (NOT (bits ! j)) < 64" "\<not> bit (bits ! j) (CTZL (NOT (bits ! j)))"
    "\<forall>i < CTZL (NOT (bits ! j)). bit (bits ! j) i"
    using CTZL_least [OF nz] by (auto simp: bit_not_iff)
  have least: "\<forall>c < f. bf_bit bits c"
  proof (intro allI impI)
    fix x assume x: "x < f"
    show "bf_bit bits x"
    proof (cases "x < 64 * j")
      case False
      then have d: "x div 64 = j"
        using x c(1) by (intro div_nat_eqI) (auto simp: f_def)
      then have "x mod 64 = x - 64 * j" by (simp flip: minus_mult_div_eq_mod)
      then show ?thesis
        using d x c(1,3) False \<open>j < length bits\<close> by (auto simp: bf_bit_def f_def)
    qed (rule full)
  qed
  have "\<not> bf_bit bits f" using c by (simp add: bf_bit_def f_def)
  moreover have "f \<le> b" using least assms(1) by (meson not_less)
  moreover have "bf_first_free (length bits) bits = Some f"
    using j(1) nz \<open>j < length bits\<close> by (simp add: bf_first_free_def f_def)
  ultimately show ?thesis using that least by blast
qed

section \<open>The contract of a bit field\<close>

locale bit_set =
  fixes first_free :: "'f \<Rightarrow> nat option"
    and set_bit :: "'f \<Rightarrow> nat \<Rightarrow> 'f option"
    and member :: "'f \<Rightarrow> nat \<Rightarrow> bool"
    and cap :: "'f \<Rightarrow> nat"
  assumes first_free_least: "b < cap f \<Longrightarrow> \<not> member f b \<Longrightarrow>
      \<exists>i. first_free f = Some i \<and> i \<le> b \<and> \<not> member f i \<and> (\<forall>c < i. member f c)"
    and set_bit_member: "b < cap f \<Longrightarrow>
      \<exists>g. set_bit f b = Some g \<and> cap g = cap f \<and> (\<forall>c. member g c \<longleftrightarrow> c = b \<or> member f c)"
begin

lemma take_first:
  assumes "b < cap f" "\<not> member f b"
  shows "\<exists>i g. first_free f = Some i \<and> set_bit f i = Some g \<and> i \<le> b \<and> \<not> member f i \<and>
    cap g = cap f \<and> (\<forall>c. member g c \<longleftrightarrow> c = i \<or> member f c) \<and> (\<forall>c < i. member f c)"
proof -
  obtain i where i: "first_free f = Some i" "i \<le> b" "\<not> member f i" "\<forall>c < i. member f c"
    using first_free_least [OF assms] by blast
  then show ?thesis using set_bit_member [of i f] assms(1) by force
qed

end

interpretation bf: bit_set "\<lambda>bits. bf_first_free (length bits) bits" bf_set_bit bf_bit
  "\<lambda>bits. 64 * length bits"
proof (unfold_locales, goal_cases)
  case (1 b f)
  then show ?case by (meson bf_first_free_found)
next
  case (2 b f)
  then show ?case by (metis bf_set_bit_ok)
qed

section \<open>Properties\<close>

text \<open>
  The search returns the least clear bit of a field; on a field with every bit set it
  reads the word after the array, since the word is loaded before the bound is tested.
\<close>

theorem bf_first_free_correct:
  "bf_first_free (length bits) bits =
     (if \<exists>b < 64 * length bits. \<not> bf_bit bits b then Some (LEAST b. \<not> bf_bit bits b) else None)"
proof (cases "\<exists>b < 64 * length bits. \<not> bf_bit bits b")
  case False
  then show ?thesis by (simp add: bf_first_free_full)
next
  case True
  then obtain b where b: "\<not> bf_bit bits b" "b < 64 * length bits" by blast
  obtain f where f: "bf_first_free (length bits) bits = Some f" "\<not> bf_bit bits f" "\<forall>c < f. bf_bit bits c"
    by (rule bf_first_free_found [OF b]) (rule that; assumption)
  have "(LEAST b. \<not> bf_bit bits b) = f" using f(2,3) by (intro Least_equality) (auto simp: not_less [symmetric])
  then show ?thesis using f(1) True by (simp only: if_True)
qed

end
