(* ===== verification/Cspace.thy ===== *)
theory Cspace
  imports Bitfield
begin

text \<open>
  The capability space library, \<open>libsel4cspace/src/cspace.c\<close> and \<open>cspace.h\<close>.

  A \<open>cspace_t\<close> is a value that the operations take and return. Its allocation functions
  (\<open>map_frame\<close>, \<open>alloc_4k_ut\<close>, \<open>free_4k_ut\<close>) are the record \<open>cspace_alloc_t\<close>, an argument of
  the operations over the state \<open>'s\<close> that they change; the bootstrap cspace's own functions are
  in the theory \<open>Mapping\<close>. \<open>has_alloc\<close> says whether the struct has them or null pointers. A
  bookkeeping node lives in a frame that only the cspace uses, so the array of node pointers is
  the list of the nodes, \<open>None\<close> the null pointer. The empty list is the null \<open>top_bf\<close> or
  \<open>bot_lvl_nodes\<close>.
\<close>

section \<open>Definitions\<close>

abbreviation (input) MAPPING_SLOTS :: nat where "MAPPING_SLOTS \<equiv> 3"
abbreviation (input) WATERMARK_SLOTS :: nat where "WATERMARK_SLOTS \<equiv> 4"
abbreviation (input) CNODE_SIZE_BITS :: nat where "CNODE_SIZE_BITS \<equiv> 12"
abbreviation (input) seL4_SlotBits :: nat where "seL4_SlotBits \<equiv> 5"
abbreviation (input) CSPACE_NOERROR :: int where "CSPACE_NOERROR \<equiv> 0"
abbreviation (input) CSPACE_ERROR :: int where "CSPACE_ERROR \<equiv> - 1"

definition CNODE_SLOT_BITS :: "nat \<Rightarrow> nat" where
  "CNODE_SLOT_BITS x = x - seL4_SlotBits"

definition CNODE_SLOTS :: "nat \<Rightarrow> nat" where
  "CNODE_SLOTS x = 2 ^ CNODE_SLOT_BITS x"

definition BITFIELD_SIZE :: "nat \<Rightarrow> nat" where
  "BITFIELD_SIZE x = CNODE_SLOTS x div seL4_WordBits"

text \<open>A \<open>bot_lvl_t\<close> has two words of bits and a pointer, a node has three words before its array.\<close>

definition sizeof_bot_lvl_t :: nat where
  "sizeof_bot_lvl_t = 8 * BITFIELD_SIZE CNODE_SIZE_BITS + 8"

definition BOT_LVL_PER_NODE :: nat where
  "BOT_LVL_PER_NODE = (4096 - 8 * 3) div sizeof_bot_lvl_t"

definition NODE_INDEX :: "cptr \<Rightarrow> nat" where
  "NODE_INDEX p = unat p div CNODE_SLOTS CNODE_SIZE_BITS div BOT_LVL_PER_NODE"

definition CNODE_INDEX :: "cptr \<Rightarrow> nat" where
  "CNODE_INDEX p = unat p div CNODE_SLOTS CNODE_SIZE_BITS mod BOT_LVL_PER_NODE"

definition TOP_LVL_INDEX :: "cptr \<Rightarrow> nat" where
  "TOP_LVL_INDEX p = unat (drop_bit (CNODE_SLOT_BITS CNODE_SIZE_BITS) p)"

definition BOT_LVL_INDEX :: "cptr \<Rightarrow> nat" where
  "BOT_LVL_INDEX p = unat (take_bit (CNODE_SLOT_BITS CNODE_SIZE_BITS) p)"

record bot_lvl_t =
  bl_bf :: "word64 list"
  bl_untyped :: word64

record bot_lvl_node_t =
  n_cnodes :: nat
  bn_untyped :: word64
  bn_frame :: cptr
  cnodes :: "bot_lvl_t list"

record cspace_t =
  root_cnode :: cptr
  two_level :: bool
  top_lvl_size_bits :: nat
  top_bf :: "word64 list"
  bot_lvl_nodes :: "bot_lvl_node_t option list"
  n_bot_lvl_nodes :: nat
  cs_untyped :: word64
  has_bootstrap :: bool
  has_alloc :: bool
  watermark :: "cptr list"

text \<open>
  \<open>map_frame_fn\<close> returns the address of the mapping (0 for \<open>NULL\<close>) and the updated \<open>used\<close>;
  \<open>alloc_4k_ut_fn\<close> the handle and the capability. The \<open>cookie\<close> of the bootstrap cspace is the
  cspace itself.
\<close>

record 's cspace_alloc_t =
  map_frame_fn :: "cspace_t \<Rightarrow> cptr \<Rightarrow> cptr list \<Rightarrow> word64 \<Rightarrow> 's \<Rightarrow> (word64 \<times> word64 \<times> 's) option"
  alloc_4k_ut_fn :: "'s \<Rightarrow> (word64 \<times> cptr \<times> 's) option"
  free_4k_ut_fn :: "word64 \<Rightarrow> 's \<Rightarrow> 's option"

type_synonym 'a m = "'a machine_scheme"

subsection \<open>Invocation wrappers\<close>

definition cspace_copy :: "cspace_t \<Rightarrow> cptr \<Rightarrow> cspace_t \<Rightarrow> cptr \<Rightarrow> int \<Rightarrow> 'a m \<Rightarrow> int \<times> 'a m" where
  "cspace_copy dest dest_cptr src src_cptr rights =
     kinvoke (CNode_Copy (root_cnode dest) dest_cptr (root_cnode src) src_cptr rights)"

definition cspace_delete :: "cspace_t \<Rightarrow> cptr \<Rightarrow> 'a m \<Rightarrow> int \<times> 'a m" where
  "cspace_delete c p = kinvoke (CNode_Delete (root_cnode c) p seL4_WordBits)"

definition cspace_mint ::
  "cspace_t \<Rightarrow> cptr \<Rightarrow> cspace_t \<Rightarrow> cptr \<Rightarrow> int \<Rightarrow> word64 \<Rightarrow> 'a m \<Rightarrow> int \<times> 'a m" where
  "cspace_mint dest dest_cptr src src_cptr rights badge =
     kinvoke (CNode_Mint (root_cnode dest) dest_cptr (root_cnode src) src_cptr rights badge)"

definition cspace_move :: "cspace_t \<Rightarrow> cptr \<Rightarrow> cspace_t \<Rightarrow> cptr \<Rightarrow> 'a m \<Rightarrow> int \<times> 'a m" where
  "cspace_move dest dest_cptr src src_cptr =
     kinvoke (CNode_Move (root_cnode dest) dest_cptr (root_cnode src) src_cptr)"

definition cspace_mutate :: "cspace_t \<Rightarrow> cptr \<Rightarrow> cspace_t \<Rightarrow> cptr \<Rightarrow> word64 \<Rightarrow> 'a m \<Rightarrow> int \<times> 'a m" where
  "cspace_mutate dest dest_cptr src src_cap badge =
     kinvoke (CNode_Mutate (root_cnode dest) dest_cptr (root_cnode src) src_cap badge)"

definition cspace_revoke :: "cspace_t \<Rightarrow> cptr \<Rightarrow> 'a m \<Rightarrow> int \<times> 'a m" where
  "cspace_revoke c p = kinvoke (CNode_Revoke (root_cnode c) p)"

definition cspace_save_reply_cap :: "cspace_t \<Rightarrow> cptr \<Rightarrow> 'a m \<Rightarrow> int \<times> 'a m" where
  "cspace_save_reply_cap c p = kinvoke (CNode_SaveCaller (root_cnode c) p)"

definition cspace_irq_control_get :: "cspace_t \<Rightarrow> cptr \<Rightarrow> cptr \<Rightarrow> int \<Rightarrow> int \<Rightarrow> 'a m \<Rightarrow> int \<times> 'a m" where
  "cspace_irq_control_get dest p irq_cap irq level =
     kinvoke (IRQControl_GetTrigger irq_cap irq level (root_cnode dest) p)"

definition cspace_untyped_retype ::
  "cspace_t \<Rightarrow> cptr \<Rightarrow> cptr \<Rightarrow> nat \<Rightarrow> nat \<Rightarrow> 'a m \<Rightarrow> int \<times> 'a m" where
  "cspace_untyped_retype c ut target ty size_bits =
     (if two_level c then
        kinvoke (Untyped_Retype ut ty size_bits (root_cnode c)
          (drop_bit (CNODE_SLOT_BITS CNODE_SIZE_BITS) target)
          (seL4_WordBits - CNODE_SLOT_BITS CNODE_SIZE_BITS)
          (target mod word_of_nat (CNODE_SLOTS CNODE_SIZE_BITS)) 1)
      else kinvoke (Untyped_Retype ut ty size_bits (root_cnode c) 0 0 target 1))"

subsection \<open>Levels and book keeping\<close>

definition alloc_4k_untyped ::
  "'s cspace_alloc_t \<Rightarrow> cspace_t \<Rightarrow> 's \<Rightarrow> (word64 \<times> cptr \<times> 's) option" where
  "alloc_4k_untyped A c s = do { c_assert (has_alloc c); alloc_4k_ut_fn A s }"

definition free_4k_untyped :: "'s cspace_alloc_t \<Rightarrow> cspace_t \<Rightarrow> word64 \<Rightarrow> 's \<Rightarrow> 's option" where
  "free_4k_untyped A c ut s = do { c_assert (has_alloc c); free_4k_ut_fn A ut s }"

definition cs_map_frame ::
  "'s cspace_alloc_t \<Rightarrow> cspace_t \<Rightarrow> cptr \<Rightarrow> cptr list \<Rightarrow> word64 \<Rightarrow> 's \<Rightarrow> (word64 \<times> word64 \<times> 's) option" where
  "cs_map_frame A c frame free_slots used s = do {
     c_assert (has_alloc c);
     map_frame_fn A c frame free_slots used s }"

definition retype_helper ::
  "'a m cspace_alloc_t \<Rightarrow> cspace_t \<Rightarrow> nat \<Rightarrow> cptr \<Rightarrow> 'a m \<Rightarrow> (word64 \<times> 'a m) option" where
  "retype_helper A c ty p s = do {
     (untyped, ut_cptr, s) \<leftarrow> alloc_4k_untyped A c s;
     if untyped = 0 then Some (0, s)
     else
       let size = (if ty = seL4_CapTableObject then CNODE_SLOT_BITS seL4_PageBits else seL4_PageBits);
           (err, s) = cspace_untyped_retype c ut_cptr p ty size s
       in if err \<noteq> seL4_NoError then do { s \<leftarrow> free_4k_untyped A c untyped s; Some (0, s) }
          else Some (untyped, s) }"

definition get_node :: "cspace_t \<Rightarrow> nat \<Rightarrow> bot_lvl_node_t option" where
  "get_node c i = do { p \<leftarrow> rd (bot_lvl_nodes c) i; p }"

definition set_node :: "cspace_t \<Rightarrow> nat \<Rightarrow> bot_lvl_node_t option \<Rightarrow> cspace_t option" where
  "set_node c i p = do { xs \<leftarrow> wr (bot_lvl_nodes c) i p; Some (c\<lparr>bot_lvl_nodes := xs\<rparr>) }"

definition zero_node :: bot_lvl_node_t where
  "zero_node = \<lparr>n_cnodes = 0, bn_untyped = 0, bn_frame = 0,
     cnodes = replicate BOT_LVL_PER_NODE
       \<lparr>bl_bf = replicate (BITFIELD_SIZE CNODE_SIZE_BITS) 0, bl_untyped = 0\<rparr>\<rparr>"

definition init_bot_lvl_node :: "cspace_t \<Rightarrow> nat \<Rightarrow> word64 \<Rightarrow> cptr \<Rightarrow> cspace_t option" where
  "init_bot_lvl_node c node untyped frame =
     set_node (c\<lparr>n_bot_lvl_nodes := n_bot_lvl_nodes c + 1\<rparr>) node
       (Some (zero_node\<lparr>n_cnodes := 0, bn_untyped := untyped, bn_frame := frame\<rparr>))"

text \<open>
  The two halves of \<open>ensure_levels\<close>: the bookkeeping node, then the second-level cnode. The
  results are the returned boolean, \<open>used\<close>, the cspace and the state.
\<close>

definition ensure_node ::
  "'a m cspace_alloc_t \<Rightarrow> cspace_t \<Rightarrow> nat \<Rightarrow> word64 \<Rightarrow> 'a m
     \<Rightarrow> (bool \<times> word64 \<times> cspace_t \<times> 'a m) option" where
  "ensure_node A c node used s = do {
     frame \<leftarrow> rd (watermark c) MAPPING_SLOTS;
     let used = used OR BIT MAPPING_SLOTS;
     (untyped, s) \<leftarrow> retype_helper A c seL4_ARM_SmallPageObject frame s;
     if untyped = 0 then Some (False, used, c, s)
     else do {
       (vaddr, used, s) \<leftarrow> cs_map_frame A c frame (take MAPPING_SLOTS (watermark c)) used s;
       if vaddr = 0 then do {
         c \<leftarrow> set_node c node None;
         let (_, s) = cspace_delete c frame s;
         s \<leftarrow> free_4k_untyped A c untyped s;
         Some (False, used AND NOT (BIT MAPPING_SLOTS), c, s) }
       else do {
         c \<leftarrow> init_bot_lvl_node c node untyped frame;
         Some (True, used, c, s) } } }"

definition ensure_cnode ::
  "'a m cspace_alloc_t \<Rightarrow> cspace_t \<Rightarrow> cptr \<Rightarrow> 'a m \<Rightarrow> (bool \<times> cspace_t \<times> 'a m) option" where
  "ensure_cnode A c p s = do {
     let node = NODE_INDEX p;
     let cnode = CNODE_INDEX p;
     nd \<leftarrow> get_node c node;
     if n_cnodes nd \<le> cnode then do {
       bl \<leftarrow> rd (cnodes nd) cnode;
       (untyped, ut_cptr, s) \<leftarrow> alloc_4k_untyped A c s;
       let nd = nd\<lparr>cnodes := (cnodes nd)[cnode := bl\<lparr>bl_untyped := untyped\<rparr>]\<rparr>;
       if untyped = 0 then do { c \<leftarrow> set_node c node (Some nd); Some (False, c, s) }
       else do {
         let (err, s) = kinvoke (Untyped_Retype ut_cptr seL4_CapTableObject
               (CNODE_SLOT_BITS CNODE_SIZE_BITS) (root_cnode c) 0 0 (word_of_nat (TOP_LVL_INDEX p)) 1) s;
         if err \<noteq> 0 then do {
           c \<leftarrow> set_node c node (Some nd);
           s \<leftarrow> free_4k_untyped A c untyped s;
           Some (False, c, s) }
         else do {
           c \<leftarrow> set_node c node (Some (nd\<lparr>n_cnodes := n_cnodes nd + 1\<rparr>));
           Some (True, c, s) } } }
     else Some (True, c, s) }"

definition ensure_levels ::
  "'a m cspace_alloc_t \<Rightarrow> cspace_t \<Rightarrow> cptr \<Rightarrow> word64 \<Rightarrow> 'a m
     \<Rightarrow> (bool \<times> word64 \<times> cspace_t \<times> 'a m) option" where
  "ensure_levels A c p used s =
     (if \<not> two_level c then Some (True, used, c, s)
      else
        let node = NODE_INDEX p;
            cspace_size = BIT (CNODE_SLOT_BITS (top_lvl_size_bits c) + CNODE_SLOT_BITS CNODE_SIZE_BITS)
        in if node \<ge> unat (DIV_ROUND_UP cspace_size (word_of_nat BOT_LVL_PER_NODE)) then
             Some (False, used, c, s)
           else do {
             (ok, used, c, s) \<leftarrow>
               (if n_bot_lvl_nodes c \<le> node then ensure_node A c node used s
                else Some (True, used, c, s));
             if \<not> ok then Some (False, used, c, s)
             else do {
               (ok, c, s) \<leftarrow> ensure_cnode A c p s;
               Some (ok, used, c, s) } })"

subsection \<open>Slots\<close>

text \<open>
  \<open>refill_watermark\<close> calls back into the slot allocator, which is its first argument. The
  \<open>break\<close> leaves the loop after the first set bit of \<open>used\<close>.
\<close>

definition refill_watermark ::
  "(cspace_t \<Rightarrow> 's \<Rightarrow> (cptr \<times> cspace_t \<times> 's) option) \<Rightarrow> cspace_t \<Rightarrow> word64 \<Rightarrow> 's
     \<Rightarrow> (cspace_t \<times> 's) option" where
  "refill_watermark alloc_slot c used s =
     (case find (\<lambda>i. used AND BIT i \<noteq> 0) [0..<WATERMARK_SLOTS] of
        None \<Rightarrow> Some (c, s)
      | Some i \<Rightarrow> do {
          (p, c, s) \<leftarrow> alloc_slot c s;
          w \<leftarrow> wr (watermark c) i p;
          Some (c\<lparr>watermark := w\<rparr>, s) })"

text \<open>The bottom-level half of \<open>cspace_alloc_slot\<close>: take the first free slot of the cnode.\<close>

definition alloc_bot_slot :: "cspace_t \<Rightarrow> nat \<Rightarrow> cptr \<Rightarrow> (nat \<times> cspace_t) option" where
  "alloc_bot_slot c top_index p = do {
     nd \<leftarrow> get_node c (NODE_INDEX p);
     bl \<leftarrow> rd (cnodes nd) (CNODE_INDEX p);
     bot_index \<leftarrow> bf_first_free (BITFIELD_SIZE CNODE_SIZE_BITS) (bl_bf bl);
     bf \<leftarrow> bf_set_bit (bl_bf bl) bot_index;
     c \<leftarrow> set_node c (NODE_INDEX p)
           (Some (nd\<lparr>cnodes := (cnodes nd)[CNODE_INDEX p := bl\<lparr>bl_bf := bf\<rparr>]\<rparr>));
     next \<leftarrow> bf_first_free (BITFIELD_SIZE CNODE_SIZE_BITS) bf;
     c \<leftarrow> (if next \<ge> CNODE_SLOTS CNODE_SIZE_BITS - 1
           then do { t \<leftarrow> bf_set_bit (top_bf c) top_index; Some (c\<lparr>top_bf := t\<rparr>) }
           else Some c);
     Some (bot_index, c) }"

definition levels_missing :: "cspace_t \<Rightarrow> cptr \<Rightarrow> bool option" where
  "levels_missing c p =
     (if n_bot_lvl_nodes c \<le> NODE_INDEX p then Some True
      else do { nd \<leftarrow> get_node c (NODE_INDEX p); Some (n_cnodes nd \<le> CNODE_INDEX p) })"

lemma refill_watermark_mono [partial_function_mono]:
  assumes "\<And>c s. mono_option (\<lambda>f. B f c s)"
  shows "mono_option (\<lambda>f. refill_watermark (B f) c used s)"
  unfolding refill_watermark_def
  by (cases "find (\<lambda>i. used AND BIT i \<noteq> 0) [0..<WATERMARK_SLOTS]")
    (auto intro!: partial_function_mono assms split: prod.split)

partial_function (option) cspace_alloc_slot ::
  "'a m cspace_alloc_t \<Rightarrow> cspace_t \<Rightarrow> 'a m \<Rightarrow> (cptr \<times> cspace_t \<times> 'a m) option" where
  "cspace_alloc_slot A c s = do {
     top_index \<leftarrow> bf_first_free (BITFIELD_SIZE (top_lvl_size_bits c)) (top_bf c);
     if two_level c \<and> top_index > CNODE_SLOTS (top_lvl_size_bits c) \<or>
        top_index \<ge> CNODE_SLOTS (top_lvl_size_bits c)
     then Some (seL4_CapNull, c, s)
     else if two_level c then do {
       let p = push_bit (CNODE_SLOT_BITS CNODE_SIZE_BITS) (word_of_nat top_index);
       missing \<leftarrow> levels_missing c p;
       (ok, used, c, s) \<leftarrow> (if missing then ensure_levels A c p 0 s else Some (True, 0, c, s));
       if \<not> ok then Some (seL4_CapNull, c, s)
       else do {
         (bot_index, c) \<leftarrow> alloc_bot_slot c top_index p;
         (c, s) \<leftarrow> refill_watermark (cspace_alloc_slot A) c used s;
         Some (p + word_of_nat bot_index, c, s) } }
     else do {
       t \<leftarrow> bf_set_bit (top_bf c) top_index;
       Some (word_of_nat top_index, c\<lparr>top_bf := t\<rparr>, s) } }"

declare cspace_alloc_slot.simps [code]

definition cspace_free_slot :: "cspace_t \<Rightarrow> cptr \<Rightarrow> cspace_t option" where
  "cspace_free_slot c p =
     (if p = seL4_CapNull then Some c
      else if \<not> two_level c then
        if unat p > CNODE_SLOTS (top_lvl_size_bits c) then Some c
        else do { t \<leftarrow> bf_clr_bit (top_bf c) (unat p); Some (c\<lparr>top_bf := t\<rparr>) }
      else do {
        t \<leftarrow> bf_clr_bit (top_bf c) (TOP_LVL_INDEX p);
        let c = c\<lparr>top_bf := t\<rparr>;
        if n_bot_lvl_nodes c > NODE_INDEX p then do {
          nd \<leftarrow> get_node c (NODE_INDEX p);
          if n_cnodes nd > CNODE_INDEX p then do {
            bl \<leftarrow> rd (cnodes nd) (CNODE_INDEX p);
            bf \<leftarrow> bf_clr_bit (bl_bf bl) (BOT_LVL_INDEX p);
            set_node c (NODE_INDEX p)
              (Some (nd\<lparr>cnodes := (cnodes nd)[CNODE_INDEX p := bl\<lparr>bl_bf := bf\<rparr>]\<rparr>)) }
          else Some c }
        else Some c })"

subsection \<open>Creation and destruction\<close>

text \<open>
  The loops of \<open>cspace_destroy\<close> over the lists of their indices: \<open>A\<close> is the allocator of the
  cspace that is destroyed, \<open>B\<close> that of its bootstrap cspace \<open>b\<close>, which is returned.
\<close>

primrec destroy_cnodes ::
  "'s cspace_alloc_t \<Rightarrow> cspace_t \<Rightarrow> bot_lvl_node_t \<Rightarrow> nat \<Rightarrow> nat list \<Rightarrow> nat \<Rightarrow> 's \<Rightarrow> (nat \<times> 's) option" where
  "destroy_cnodes A c nd i [] lst s = Some (lst, s)"
| "destroy_cnodes A c nd i (j # js) lst s = do {
     bl \<leftarrow> rd (cnodes nd) j;
     s \<leftarrow> free_4k_untyped A c (bl_untyped bl) s;
     destroy_cnodes A c nd i js (i * BOT_LVL_PER_NODE + j) s }"

primrec destroy_nodes ::
  "'a m cspace_alloc_t \<Rightarrow> cspace_t \<Rightarrow> nat list \<Rightarrow> nat \<Rightarrow> 'a m \<Rightarrow> (nat \<times> 'a m) option" where
  "destroy_nodes A c [] lst s = Some (lst, s)"
| "destroy_nodes A c (i # is) lst s = do {
     nd \<leftarrow> get_node c i;
     (lst, s) \<leftarrow> destroy_cnodes A c nd i [0..<n_cnodes nd] lst s;
     s \<leftarrow> free_4k_untyped A c (bn_untyped nd) s;
     let (_, s) = cspace_delete c (bn_frame nd) s;
     destroy_nodes A c is lst s }"

primrec delete_cnodes :: "cspace_t \<Rightarrow> nat list \<Rightarrow> 'a m \<Rightarrow> 'a m" where
  "delete_cnodes c [] s = s"
| "delete_cnodes c (i # is) s =
     (let (_, s) = kinvoke (CNode_Delete (root_cnode c) (word_of_nat i)
            (seL4_WordBits - (CNODE_SIZE_BITS - seL4_SlotBits))) s
      in delete_cnodes c is s)"

definition cspace_destroy ::
  "'a m cspace_alloc_t \<Rightarrow> 'a m cspace_alloc_t \<Rightarrow> cspace_t \<Rightarrow> cspace_t \<Rightarrow> 'a m \<Rightarrow> (cspace_t \<times> 'a m) option" where
  "cspace_destroy A B c b s = do {
     c_assert (has_bootstrap c);
     (lst, s) \<leftarrow> destroy_nodes A c [0..<n_bot_lvl_nodes c] 0 s;
     let s = (if two_level c then delete_cnodes c [0..<lst + 1] s else s);
     (b, s) \<leftarrow>
       (if root_cnode c \<noteq> seL4_CapNull then do {
          let (_, s) = cspace_delete b (root_cnode c) s;
          b \<leftarrow> cspace_free_slot b (root_cnode c);
          Some (b, s) }
        else Some (b, s));
     s \<leftarrow> (if cs_untyped c \<noteq> 0 then free_4k_untyped B b (cs_untyped c) s else Some s);
     Some (b, s) }"

text \<open>\<open>seL4_CNode_CapData_new\<close>: the guard above a six-bit guard size.\<close>

definition seL4_CNode_CapData_new :: "word64 \<Rightarrow> word64 \<Rightarrow> word64" where
  "seL4_CNode_CapData_new guard guardSize = push_bit 6 guard OR (guardSize AND 63)"

definition zero_cspace :: cspace_t where
  "zero_cspace = \<lparr>root_cnode = 0, two_level = False, top_lvl_size_bits = 0, top_bf = [],
     bot_lvl_nodes = [], n_bot_lvl_nodes = 0, cs_untyped = 0, has_bootstrap = False,
     has_alloc = False, watermark = replicate WATERMARK_SLOTS 0\<rparr>"

text \<open>
  \<open>cspace_create\<close> in the order of its parts: the top-level cnode, the first bookkeeping node, the
  first slots. \<open>c\<close> is the bootstrap cspace with allocator \<open>B\<close>, \<open>t\<close> the target with allocator
  \<open>A\<close>; every part returns the error code, the target, the bootstrap cspace and the state.
\<close>

definition create_fail ::
  "'a m cspace_alloc_t \<Rightarrow> 'a m cspace_alloc_t \<Rightarrow> cspace_t \<Rightarrow> cspace_t \<Rightarrow> 'a m
     \<Rightarrow> (int \<times> cspace_t \<times> cspace_t \<times> 'a m) option" where
  "create_fail A B t c s = do {
     (c, s) \<leftarrow> cspace_destroy A B t c s;
     Some (CSPACE_ERROR, t, c, s) }"

definition create_root ::
  "'a m cspace_alloc_t \<Rightarrow> 'a m cspace_alloc_t \<Rightarrow> cspace_t \<Rightarrow> cspace_t \<Rightarrow> 'a m
     \<Rightarrow> (int \<times> cspace_t \<times> cspace_t \<times> 'a m) option" where
  "create_root A B t c s = do {
     (tmp, c, s) \<leftarrow> cspace_alloc_slot B c s;
     if tmp = seL4_CapNull then create_fail A B t c s
     else do {
       (untyped, s) \<leftarrow> retype_helper B c seL4_CapTableObject tmp s;
       let t = t\<lparr>cs_untyped := untyped\<rparr>;
       if untyped = 0 then create_fail A B t c s
       else do {
         let depth = seL4_WordBits - CNODE_SLOT_BITS CNODE_SIZE_BITS * (if two_level t then 2 else 1);
         let guard = seL4_CNode_CapData_new 0 (word_of_nat depth);
         (root, c, s) \<leftarrow> cspace_alloc_slot B c s;
         let t = t\<lparr>root_cnode := root\<rparr>;
         if root_cnode c = seL4_CapNull then do {
           c \<leftarrow> cspace_free_slot c tmp;
           create_fail A B t c s }
         else do {
           let (err, s) = cspace_mint c (root_cnode t) c tmp seL4_AllRights guard s;
           if err \<noteq> 0 then create_fail A B t c s
           else do {
             let (_, s) = cspace_delete c tmp s;
             c \<leftarrow> cspace_free_slot c tmp;
             Some (CSPACE_NOERROR, t, c, s) } } } } }"

definition create_first_node ::
  "'a m cspace_alloc_t \<Rightarrow> 'a m cspace_alloc_t \<Rightarrow> cspace_t \<Rightarrow> cspace_t \<Rightarrow> 'a m
     \<Rightarrow> (int \<times> cptr \<times> cspace_t \<times> cspace_t \<times> 'a m) option" where
  "create_first_node A B t c s = do {
     (bot_lvl_node, c, s) \<leftarrow> cspace_alloc_slot B c s;
     if bot_lvl_node = seL4_CapNull then do {
       (e, t, c, s) \<leftarrow> create_fail A B t c s;
       Some (e, 0, t, c, s) }
     else do {
       (untyped, s) \<leftarrow> retype_helper B c seL4_ARM_SmallPageObject bot_lvl_node s;
       (vaddr, c, s) \<leftarrow>
         (if untyped \<noteq> 0 then do {
            (vaddr, used, s) \<leftarrow> cs_map_frame B c bot_lvl_node (take MAPPING_SLOTS (watermark c)) 0 s;
            (c, s) \<leftarrow> refill_watermark (cspace_alloc_slot B) c used s;
            Some (vaddr, c, s) }
          else Some (0, c, s));
       if vaddr = 0 \<or> untyped = 0 then do {
         (e, t, c, s) \<leftarrow> create_fail A B t c s;
         let (_, s) = cspace_delete c bot_lvl_node s;
         c \<leftarrow> cspace_free_slot c bot_lvl_node;
         Some (e, 0, t, c, s) }
       else do {
         t \<leftarrow> init_bot_lvl_node t 0 untyped bot_lvl_node;
         Some (CSPACE_NOERROR, bot_lvl_node, t, c, s) } } }"

definition create_first_slots ::
  "'a m cspace_alloc_t \<Rightarrow> cptr \<Rightarrow> cspace_t \<Rightarrow> cspace_t \<Rightarrow> 'a m
     \<Rightarrow> (int \<times> cspace_t \<times> cspace_t \<times> 'a m) option" where
  "create_first_slots A bot_lvl_node t c s = do {
     (null, t, s) \<leftarrow> cspace_alloc_slot A t s;
     c_assert (null = seL4_CapNull);
     if two_level t then do {
       (t, s) \<leftarrow> refill_watermark (cspace_alloc_slot A) t (mask WATERMARK_SLOTS) s;
       (slot, t, s) \<leftarrow> cspace_alloc_slot A t s;
       c_assert (slot \<noteq> seL4_CapNull);
       let (err, s) = cspace_move t slot c bot_lvl_node s;
       c_assert (err = seL4_NoError);
       nd \<leftarrow> get_node t 0;
       t \<leftarrow> set_node t 0 (Some (nd\<lparr>bn_frame := slot\<rparr>));
       c \<leftarrow> cspace_free_slot c bot_lvl_node;
       Some (CSPACE_NOERROR, t, c, s) }
     else Some (CSPACE_NOERROR, t, c, s) }"

definition BOT_LVL_NODES :: "nat \<Rightarrow> nat" where
  "BOT_LVL_NODES x = unat (BYTES_TO_4K_PAGES (word_of_nat (sizeof_bot_lvl_t * CNODE_SLOTS x)))"

definition cspace_create ::
  "'a m cspace_alloc_t \<Rightarrow> 'a m cspace_alloc_t \<Rightarrow> bool \<Rightarrow> cspace_t \<Rightarrow> bool \<Rightarrow> 'a m
     \<Rightarrow> (int \<times> cspace_t \<times> cspace_t \<times> 'a m) option" where
  "cspace_create A B alloc_given c two s = do {
     let t = zero_cspace\<lparr>two_level := two, has_bootstrap := True, has_alloc := alloc_given,
               top_lvl_size_bits := CNODE_SIZE_BITS\<rparr>;
     let (p, s) = malloc (word_of_nat (8 * BITFIELD_SIZE CNODE_SIZE_BITS)) s;
     if p = 0 then Some (CSPACE_ERROR, t, c, s)
     else do {
       let t = t\<lparr>top_bf := replicate (BITFIELD_SIZE CNODE_SIZE_BITS) 0\<rparr>;
       let nodes = BOT_LVL_NODES CNODE_SIZE_BITS * 4096;
       let (p, s) = (if two then malloc (word_of_nat nodes) s else (1, s));
       if p = 0 then create_fail A B t c s
       else do {
         let t = (if two then t\<lparr>bot_lvl_nodes := replicate (nodes div 8) None\<rparr> else t);
         (err, t, c, s) \<leftarrow> create_root A B t c s;
         if err \<noteq> CSPACE_NOERROR then Some (err, t, c, s)
         else do {
           (err, bot_lvl_node, t, c, s) \<leftarrow>
             (if two then create_first_node A B t c s else Some (CSPACE_NOERROR, 0, t, c, s));
           if err \<noteq> CSPACE_NOERROR then Some (err, t, c, s)
           else create_first_slots A bot_lvl_node t c s } } } }"

definition cspace_create_two_level ::
  "'a m cspace_alloc_t \<Rightarrow> 'a m cspace_alloc_t \<Rightarrow> cspace_t \<Rightarrow> 'a m
     \<Rightarrow> (int \<times> cspace_t \<times> cspace_t \<times> 'a m) option" where
  "cspace_create_two_level A B c s = cspace_create A B True c True s"

text \<open>The empty allocator of a one-level cspace: every use of it is a failed assertion.\<close>

definition no_alloc :: "'s cspace_alloc_t" where
  "no_alloc = \<lparr>map_frame_fn = (\<lambda>_ _ _ _ _. None), alloc_4k_ut_fn = (\<lambda>_. None),
     free_4k_ut_fn = (\<lambda>_ _. None)\<rparr>"

definition cspace_create_one_level ::
  "'a m cspace_alloc_t \<Rightarrow> cspace_t \<Rightarrow> 'a m \<Rightarrow> (int \<times> cspace_t \<times> cspace_t \<times> 'a m) option" where
  "cspace_create_one_level B c s = cspace_create no_alloc B False c False s"

end
