(* ===== verification/Ut.thy ===== *)
theory Ut
  imports Cspace
begin

text \<open>
  The table of untyped objects, \<open>sos/src/ut/ut.c\<close>: its lists and the 4K operations. The
  splitting of untypeds needs frames to be mapped and is in the theory \<open>Ut_Alloc\<close>.

  The state of SOS up to the memory management is the record \<open>ut_state\<close>, which extends the
  machine by the bootstrap cspace (the global that every caller passes as \<open>cspace\<close>), by the
  static data of \<open>ut.c\<close>, \<open>bootstrap.c\<close> and \<open>mapping.c\<close>, and by the store of the
  \<open>ut_t\<close> nodes, addressed by pointers. The address 0 is the null pointer.
\<close>

section \<open>Definitions\<close>

record ut_t =
  ut_cap :: cptr
  ut_next :: word64
  ut_valid :: bool

record ut_region_t =
  ur_start :: word64
  ur_end :: word64

record ut_table_t =
  first_paddr :: word64
  untypeds :: word64
  free_untypeds :: "word64 list"
  n_4k_untyped :: word64
  free_structures :: word64

record ut_state = machine +
  cspace :: cspace_t
  ut_mem :: "word64 \<Rightarrow> ut_t"
  ut_table :: ut_table_t
  next_free_vaddr :: word64
  boot_vspace :: cptr
  device_virt :: word64

type_synonym 'a ut = "'a ut_state_scheme"

abbreviation (input) sizeof_ut_t :: word64 where "sizeof_ut_t \<equiv> 16"
abbreviation (input) N_UNTYPED_LISTS :: nat where "N_UNTYPED_LISTS \<equiv> 9"

definition SIZE_BITS_TO_INDEX :: "nat \<Rightarrow> nat" where
  "SIZE_BITS_TO_INDEX x = x - seL4_EndpointBits"

definition get_ut :: "'a ut \<Rightarrow> word64 \<Rightarrow> ut_t option" where
  "get_ut s p = (if p = 0 then None else Some (ut_mem s p))"

definition set_ut :: "'a ut \<Rightarrow> word64 \<Rightarrow> ut_t \<Rightarrow> 'a ut" where
  "set_ut s p u = s\<lparr>ut_mem := (ut_mem s)(p := u)\<rparr>"

text \<open>
  \<open>push\<close> and \<open>pop\<close> take the address of the head; here they take its value and return the new
  one. The \<open>next\<close> field has 48 bits.
\<close>

definition ut_push :: "word64 \<Rightarrow> word64 \<Rightarrow> 'a ut \<Rightarrow> (word64 \<times> 'a ut) option" where
  "ut_push head new s = do {
     u \<leftarrow> get_ut s new;
     Some (new, set_ut s new (u\<lparr>ut_next := take_bit 48 head\<rparr>)) }"

definition ut_pop :: "word64 \<Rightarrow> 'a ut \<Rightarrow> (word64 \<times> word64) option" where
  "ut_pop head s = do {
     u \<leftarrow> get_ut s head;
     Some (head, ut_next u) }"

definition push_untyped :: "nat \<Rightarrow> word64 \<Rightarrow> 'a ut \<Rightarrow> 'a ut option" where
  "push_untyped k new s = do {
     h \<leftarrow> rd (free_untypeds (ut_table s)) k;
     (h, s) \<leftarrow> ut_push h new s;
     Some (s\<lparr>ut_table := (ut_table s)\<lparr>free_untypeds := (free_untypeds (ut_table s))[k := h]\<rparr>\<rparr>) }"

definition pop_untyped :: "nat \<Rightarrow> 'a ut \<Rightarrow> (word64 \<times> 'a ut) option" where
  "pop_untyped k s = do {
     h \<leftarrow> rd (free_untypeds (ut_table s)) k;
     (n, h) \<leftarrow> ut_pop h s;
     Some (n, s\<lparr>ut_table := (ut_table s)\<lparr>free_untypeds := (free_untypeds (ut_table s))[k := h]\<rparr>\<rparr>) }"

definition push_structure :: "word64 \<Rightarrow> 'a ut \<Rightarrow> 'a ut option" where
  "push_structure new s = do {
     (h, s) \<leftarrow> ut_push (free_structures (ut_table s)) new s;
     Some (s\<lparr>ut_table := (ut_table s)\<lparr>free_structures := h\<rparr>\<rparr>) }"

definition pop_structure :: "'a ut \<Rightarrow> (word64 \<times> 'a ut) option" where
  "pop_structure s = do {
     (n, h) \<leftarrow> ut_pop (free_structures (ut_table s)) s;
     Some (n, s\<lparr>ut_table := (ut_table s)\<lparr>free_structures := h\<rparr>\<rparr>) }"

definition ut_to_paddr :: "'a ut \<Rightarrow> word64 \<Rightarrow> word64" where
  "ut_to_paddr s ut = (ut - untypeds (ut_table s)) div sizeof_ut_t * PAGE_SIZE_4K + first_paddr (ut_table s)"

definition paddr_to_ut :: "'a ut \<Rightarrow> word64 \<Rightarrow> word64" where
  "paddr_to_ut s paddr =
     untypeds (ut_table s) + (paddr - first_paddr (ut_table s)) div PAGE_SIZE_4K * sizeof_ut_t"

definition ut_pages_for_region :: "ut_region_t \<Rightarrow> word64" where
  "ut_pages_for_region region =
     BYTES_TO_4K_PAGES ((ur_end region - ur_start region) div PAGE_SIZE_4K * sizeof_ut_t)"

definition ut_init :: "word64 \<Rightarrow> ut_region_t \<Rightarrow> 'a ut \<Rightarrow> 'a ut" where
  "ut_init memory region s = s\<lparr>ut_table := (ut_table s)\<lparr>untypeds := memory,
     free_untypeds := replicate N_UNTYPED_LISTS 0, first_paddr := ur_start region\<rparr>\<rparr>"

definition ut_size :: "'a ut \<Rightarrow> word64" where
  "ut_size s = n_4k_untyped (ut_table s) * PAGE_SIZE_4K"

text \<open>The loop of \<open>ut_add_untyped_range\<close> from iteration \<open>i\<close>, with \<open>n\<close> iterations to go.\<close>

primrec ut_add_untyped_loop :: "nat \<Rightarrow> nat \<Rightarrow> word64 \<Rightarrow> cptr \<Rightarrow> bool \<Rightarrow> 'a ut \<Rightarrow> 'a ut option" where
  "ut_add_untyped_loop 0 i paddr cap device s = Some s"
| "ut_add_untyped_loop (Suc n) i paddr cap device s = do {
     let node = paddr_to_ut s (paddr + word_of_nat i * PAGE_SIZE_4K);
     u \<leftarrow> get_ut s node;
     let s = set_ut s node (u\<lparr>ut_cap := cap, ut_valid := True\<rparr>);
     s \<leftarrow> (if \<not> device then do {
             s \<leftarrow> push_untyped (SIZE_BITS_TO_INDEX seL4_PageBits) node s;
             Some (s\<lparr>ut_table := (ut_table s)\<lparr>n_4k_untyped := n_4k_untyped (ut_table s) + 1\<rparr>\<rparr>) }
           else Some s);
     ut_add_untyped_loop n (i + 1) paddr (cap + 1) device s }"

definition ut_add_untyped_range :: "word64 \<Rightarrow> cptr \<Rightarrow> nat \<Rightarrow> bool \<Rightarrow> 'a ut \<Rightarrow> 'a ut option" where
  "ut_add_untyped_range paddr cap n device s = ut_add_untyped_loop n 0 paddr cap device s"

text \<open>The results of \<open>ut_alloc_4k_untyped\<close>: the node, its physical address, the state.\<close>

definition ut_alloc_4k_untyped :: "'a ut \<Rightarrow> (word64 \<times> word64 \<times> 'a ut) option" where
  "ut_alloc_4k_untyped s = do {
     h \<leftarrow> rd (free_untypeds (ut_table s)) (SIZE_BITS_TO_INDEX seL4_PageBits);
     if h = 0 then Some (0, 0, s)
     else do {
       (n, s) \<leftarrow> pop_untyped (SIZE_BITS_TO_INDEX seL4_PageBits) s;
       Some (n, ut_to_paddr s n, s) } }"

definition ut_free :: "word64 \<Rightarrow> nat \<Rightarrow> 'a ut \<Rightarrow> 'a ut option" where
  "ut_free node size_bits s =
     (if size_bits < seL4_EndpointBits \<or> size_bits > seL4_PageBits then Some s
      else push_untyped (SIZE_BITS_TO_INDEX size_bits) node s)"

definition ut_alloc_4k_device :: "word64 \<Rightarrow> 'a ut \<Rightarrow> word64 option" where
  "ut_alloc_4k_device paddr s = do {
     u \<leftarrow> get_ut s (paddr_to_ut s paddr);
     Some (if \<not> ut_valid u then 0 else paddr_to_ut s paddr) }"

section \<open>The free lists as lists\<close>

fun ut_chain :: "(word64 \<Rightarrow> ut_t) \<Rightarrow> word64 \<Rightarrow> word64 list \<Rightarrow> bool" where
  "ut_chain m p [] \<longleftrightarrow> p = 0"
| "ut_chain m p (x # xs) \<longleftrightarrow> p = x \<and> x \<noteq> 0 \<and> x < 2 ^ 48 \<and> ut_chain m (ut_next (m x)) xs"

text \<open>
  \<open>ut_abs s Ls fs\<close>: the nine free lists of \<open>s\<close> hold the nodes \<open>Ls\<close> and its spare structures are
  \<open>fs\<close>; no node is on two lists or twice on one.
\<close>

definition ut_abs :: "'a ut \<Rightarrow> word64 list list \<Rightarrow> word64 list \<Rightarrow> bool" where
  "ut_abs s Ls fs \<longleftrightarrow> length Ls = N_UNTYPED_LISTS \<and> length (free_untypeds (ut_table s)) = N_UNTYPED_LISTS \<and>
     (\<forall>k < N_UNTYPED_LISTS. ut_chain (ut_mem s) (free_untypeds (ut_table s) ! k) (Ls ! k)) \<and>
     ut_chain (ut_mem s) (free_structures (ut_table s)) fs \<and> distinct (concat Ls @ fs)"

lemma ut_abs_chain:
  "ut_abs s Ls fs \<Longrightarrow> k < 9 \<Longrightarrow> ut_chain (ut_mem s) (free_untypeds (ut_table s) ! k) (Ls ! k)"
  "ut_abs s Ls fs \<Longrightarrow> length (free_untypeds (ut_table s)) = 9"
  by (simp_all add: ut_abs_def)

lemma concat_cons_set: "k < length Ls \<Longrightarrow> set (concat (Ls[k := p # Ls ! k])) = insert p (set (concat Ls))"
  by (subst (2) id_take_nth_drop [of k Ls]) (auto simp: upd_conv_take_nth_drop)

lemma ut_chain_other: "p \<notin> set xs \<Longrightarrow> ut_chain (m(p := u)) q xs = ut_chain m q xs"
  by (induction xs arbitrary: q) auto

lemma ut_chain_same_next:
  "ut_next u = ut_next (m p) \<Longrightarrow> ut_chain (m(p := u)) q xs = ut_chain m q xs"
  by (induction xs arbitrary: q) auto

lemma ut_chain_head: "ut_chain m p xs \<Longrightarrow> p = 0 \<longleftrightarrow> xs = []"
  by (cases xs) auto

lemma take_bit_48_head: "ut_chain m p xs \<Longrightarrow> take_bit 48 p = p"
  by (cases xs) (simp_all add: take_bit_small64)

lemma distinct_concat_update:
  assumes "distinct (concat Ls @ fs)" "k < length Ls" "p \<notin> set (concat Ls) \<union> set fs"
  shows "distinct (concat (Ls[k := p # Ls ! k]) @ fs)"
proof -
  have L: "Ls = take k Ls @ Ls ! k # drop (Suc k) Ls" using assms(2) by (simp add: id_take_nth_drop)
  have "Ls[k := p # Ls ! k] = take k Ls @ (p # Ls ! k) # drop (Suc k) Ls"
    using assms(2) by (simp add: upd_conv_take_nth_drop)
  moreover have "distinct (concat (take k Ls @ Ls ! k # drop (Suc k) Ls) @ fs)"
    "p \<notin> set (concat (take k Ls @ Ls ! k # drop (Suc k) Ls)) \<union> set fs"
    using assms L by metis+
  ultimately show ?thesis by auto
qed

lemma distinct_concat_drop:
  assumes "distinct (concat Ls @ fs)" "k < length Ls" "Ls ! k = p # xs"
  shows "distinct (concat (Ls[k := xs]) @ fs)" "p \<notin> set (concat (Ls[k := xs]) @ fs)"
    "insert p (set (concat (Ls[k := xs]))) = set (concat Ls)"
proof -
  have L: "Ls = take k Ls @ (p # xs) # drop (Suc k) Ls" using assms(2,3) by (metis id_take_nth_drop)
  have U: "Ls[k := xs] = take k Ls @ xs # drop (Suc k) Ls"
    using assms(2) by (simp add: upd_conv_take_nth_drop)
  have D: "distinct (concat (take k Ls @ (p # xs) # drop (Suc k) Ls) @ fs)" using assms(1) L by metis
  show "distinct (concat (Ls[k := xs]) @ fs)" "p \<notin> set (concat (Ls[k := xs]) @ fs)"
    unfolding U using D by auto
  have "set (concat Ls) = set (concat (take k Ls @ (p # xs) # drop (Suc k) Ls))" using L by metis
  then show "insert p (set (concat (Ls[k := xs]))) = set (concat Ls)" unfolding U by auto
qed

text \<open>What a push or a pop leaves alone.\<close>

definition ut_frame :: "'a ut \<Rightarrow> 'a ut \<Rightarrow> bool" where
  "ut_frame s s' \<longleftrightarrow> klog s' = klog s \<and> kresp s' = kresp s \<and> mem s' = mem s \<and> cspace s' = cspace s \<and>
     next_free_vaddr s' = next_free_vaddr s \<and> boot_vspace s' = boot_vspace s \<and>
     device_virt s' = device_virt s \<and> ut_state.more s' = ut_state.more s \<and>
     (\<forall>p. ut_cap (ut_mem s' p) = ut_cap (ut_mem s p) \<and> ut_valid (ut_mem s' p) = ut_valid (ut_mem s p)) \<and>
     first_paddr (ut_table s') = first_paddr (ut_table s) \<and> untypeds (ut_table s') = untypeds (ut_table s) \<and>
     n_4k_untyped (ut_table s') = n_4k_untyped (ut_table s)"

lemma ut_frame_refl [simp]: "ut_frame s s"
  by (simp add: ut_frame_def)

lemma ut_frame_trans: "ut_frame s t \<Longrightarrow> ut_frame t u \<Longrightarrow> ut_frame s u"
  by (simp add: ut_frame_def)

lemma ut_frame_sel:
  assumes "ut_frame s s'"
  shows "cspace s' = cspace s" "klog s' = klog s" "kresp s' = kresp s" "mem s' = mem s"
    "next_free_vaddr s' = next_free_vaddr s" "boot_vspace s' = boot_vspace s" "device_virt s' = device_virt s"
    "ut_cap (ut_mem s' p) = ut_cap (ut_mem s p)" "ut_valid (ut_mem s' p) = ut_valid (ut_mem s p)"
    "ut_to_paddr s' p = ut_to_paddr s p" "paddr_to_ut s' p = paddr_to_ut s p"
  using assms by (simp_all add: ut_frame_def ut_to_paddr_def paddr_to_ut_def)

lemma push_untyped_abs:
  assumes a: "ut_abs s Ls fs" and k: "k < 9" and p: "p \<noteq> 0" "p < 2 ^ 48" "p \<notin> set (concat Ls) \<union> set fs"
  obtains s' where "push_untyped k p s = Some s'" "ut_abs s' (Ls[k := p # Ls ! k]) fs" "ut_frame s s'"
proof -
  let ?m = "(ut_mem s)(p := (ut_mem s p)\<lparr>ut_next := take_bit 48 (free_untypeds (ut_table s) ! k)\<rparr>)"
  let ?t = "(ut_table s)\<lparr>free_untypeds := (free_untypeds (ut_table s))[k := p]\<rparr>"
  have len: "length Ls = 9" "length (free_untypeds (ut_table s)) = 9"
    and chain: "\<And>j. j < 9 \<Longrightarrow> ut_chain (ut_mem s) (free_untypeds (ut_table s) ! j) (Ls ! j)"
    and fsc: "ut_chain (ut_mem s) (free_structures (ut_table s)) fs" and d: "distinct (concat Ls @ fs)"
    using a by (auto simp: ut_abs_def)
  have nin: "p \<notin> set (Ls ! j)" if "j < 9" for j
    using p(3) that len(1) by (auto dest: nth_mem)
  have chain': "ut_chain ?m (free_untypeds ?t ! j) (Ls[k := p # Ls ! k] ! j)" if "j < 9" for j
    using that k len p chain [OF that] chain [OF k] nin [OF that] nin [OF k] take_bit_48_head [OF chain [OF k]]
    by (auto simp: nth_list_update ut_chain_other)
  have "push_untyped k p s = Some (s\<lparr>ut_mem := ?m, ut_table := ?t\<rparr>)"
    using k len p(1) by (simp add: push_untyped_def ut_push_def get_ut_def set_ut_def)
  moreover have "ut_abs (s\<lparr>ut_mem := ?m, ut_table := ?t\<rparr>) (Ls[k := p # Ls ! k]) fs"
    unfolding ut_abs_def using len chain' fsc p(3) distinct_concat_update [OF d _ p(3)] k
    by (simp add: ut_chain_other)
  moreover have "ut_frame s (s\<lparr>ut_mem := ?m, ut_table := ?t\<rparr>)"
    by (simp add: ut_frame_def)
  ultimately show ?thesis using that by blast
qed

lemma pop_untyped_abs:
  assumes a: "ut_abs s Ls fs" and k: "k < 9" and L: "Ls ! k = p # xs"
  obtains s' where "pop_untyped k s = Some (p, s')" "ut_abs s' (Ls[k := xs]) fs" "ut_frame s s'" "ut_mem s' = ut_mem s"
proof -
  let ?t = "(ut_table s)\<lparr>free_untypeds := (free_untypeds (ut_table s))[k := ut_next (ut_mem s p)]\<rparr>"
  have len: "length Ls = 9" "length (free_untypeds (ut_table s)) = 9"
    and chain: "\<And>j. j < 9 \<Longrightarrow> ut_chain (ut_mem s) (free_untypeds (ut_table s) ! j) (Ls ! j)"
    and fsc: "ut_chain (ut_mem s) (free_structures (ut_table s)) fs" and d: "distinct (concat Ls @ fs)"
    using a by (auto simp: ut_abs_def)
  have hd: "free_untypeds (ut_table s) ! k = p" "p \<noteq> 0" using chain [OF k] L by auto
  have chain': "ut_chain (ut_mem s) (free_untypeds ?t ! j) (Ls[k := xs] ! j)" if "j < 9" for j
    using that k len chain [OF that] chain [OF k] L by (auto simp: nth_list_update)
  have "pop_untyped k s = Some (p, s\<lparr>ut_table := ?t\<rparr>)"
    using k len hd by (simp add: pop_untyped_def ut_pop_def get_ut_def)
  moreover have "ut_abs (s\<lparr>ut_table := ?t\<rparr>) (Ls[k := xs]) fs"
    unfolding ut_abs_def using len chain' fsc distinct_concat_drop(1) [OF d _ L] k by simp
  moreover have "ut_frame s (s\<lparr>ut_table := ?t\<rparr>)"
    by (simp add: ut_frame_def)
  ultimately show ?thesis using that by simp
qed

lemma push_structure_abs:
  assumes a: "ut_abs s Ls fs" and p: "p \<noteq> 0" "p < 2 ^ 48" "p \<notin> set (concat Ls) \<union> set fs"
  obtains s' where "push_structure p s = Some s'" "ut_abs s' Ls (p # fs)" "ut_frame s s'"
proof -
  let ?m = "(ut_mem s)(p := (ut_mem s p)\<lparr>ut_next := take_bit 48 (free_structures (ut_table s))\<rparr>)"
  let ?t = "(ut_table s)\<lparr>free_structures := p\<rparr>"
  have fsc: "ut_chain (ut_mem s) (free_structures (ut_table s)) fs" using a by (simp add: ut_abs_def)
  have nin: "p \<notin> set (Ls ! j)" if "j < 9" for j
    using p(3) that a by (auto simp: ut_abs_def dest: nth_mem)
  have "push_structure p s = Some (s\<lparr>ut_mem := ?m, ut_table := ?t\<rparr>)"
    using p(1) by (simp add: push_structure_def ut_push_def get_ut_def set_ut_def)
  moreover have "ut_abs (s\<lparr>ut_mem := ?m, ut_table := ?t\<rparr>) Ls (p # fs)"
    using a p nin take_bit_48_head [OF fsc] by (auto simp: ut_abs_def ut_chain_other)
  moreover have "ut_frame s (s\<lparr>ut_mem := ?m, ut_table := ?t\<rparr>)"
    by (simp add: ut_frame_def)
  ultimately show ?thesis using that by blast
qed

lemma pop_structure_abs:
  assumes a: "ut_abs s Ls (p # fs)"
  obtains s' where "pop_structure s = Some (p, s')" "ut_abs s' Ls fs" "ut_frame s s'" "ut_mem s' = ut_mem s"
proof -
  let ?t = "(ut_table s)\<lparr>free_structures := ut_next (ut_mem s p)\<rparr>"
  have "pop_structure s = Some (p, s\<lparr>ut_table := ?t\<rparr>)"
    using a by (simp add: pop_structure_def ut_pop_def get_ut_def ut_abs_def)
  moreover have "ut_abs (s\<lparr>ut_table := ?t\<rparr>) Ls fs" using a by (auto simp: ut_abs_def)
  moreover have "ut_frame s (s\<lparr>ut_table := ?t\<rparr>)"
    by (simp add: ut_frame_def)
  ultimately show ?thesis using that by simp
qed

lemma alloc_4k_abs:
  assumes a: "ut_abs s Ls fs"
  shows "case Ls ! 8 of [] \<Rightarrow> ut_alloc_4k_untyped s = Some (0, 0, s)
    | p # xs \<Rightarrow> p \<noteq> 0 \<and> (\<exists>s'. ut_alloc_4k_untyped s = Some (p, ut_to_paddr s p, s') \<and>
        ut_abs s' (Ls[8 := xs]) fs \<and> ut_frame s s' \<and> ut_mem s' = ut_mem s)"
proof (cases "Ls ! 8")
  case Nil
  then have "free_untypeds (ut_table s) ! 8 = 0" "length (free_untypeds (ut_table s)) = 9"
    using ut_abs_chain(1) [OF a, of 8] ut_abs_chain(2) [OF a] by simp_all
  then show ?thesis using Nil by (simp add: ut_alloc_4k_untyped_def SIZE_BITS_TO_INDEX_def)
next
  case (Cons p xs)
  then have h: "free_untypeds (ut_table s) ! 8 = p" "p \<noteq> 0" "length (free_untypeds (ut_table s)) = 9"
    using ut_abs_chain(1) [OF a, of 8] ut_abs_chain(2) [OF a] by simp_all
  obtain s' where s': "pop_untyped 8 s = Some (p, s')" "ut_abs s' (Ls[8 := xs]) fs" "ut_frame s s'" "ut_mem s' = ut_mem s"
    using pop_untyped_abs [OF a _ Cons] by auto
  then have "ut_alloc_4k_untyped s = Some (p, ut_to_paddr s p, s')"
    using h by (simp add: ut_alloc_4k_untyped_def SIZE_BITS_TO_INDEX_def ut_frame_sel(10) [OF s'(3)])
  then show ?thesis using Cons s' h(2) by simp
qed

lemma ut_abs_set_cap:
  assumes "ut_abs s Ls fs"
  shows "ut_abs (set_ut s p ((ut_mem s p)\<lparr>ut_cap := c, ut_valid := v\<rparr>)) Ls fs"
  using assms by (simp add: ut_abs_def set_ut_def ut_chain_same_next)

lemma add_untyped_loop_abs:
  assumes "ut_abs s Ls fs"
    and "\<And>j. i \<le> j \<Longrightarrow> j < i + n \<Longrightarrow> node j = paddr_to_ut s (paddr + word_of_nat j * PAGE_SIZE_4K) \<and>
      node j \<noteq> 0 \<and> node j < 2 ^ 48 \<and> node j \<notin> set (concat Ls) \<union> set fs"
    and "inj_on node {i..<i + n}"
  shows "\<exists>s'. ut_add_untyped_loop n i paddr cap False s = Some s' \<and>
    ut_abs s' (Ls[8 := rev (map node [i..<i + n]) @ Ls ! 8]) fs \<and>
    (\<forall>j < n. ut_cap (ut_mem s' (node (i + j))) = cap + word_of_nat j) \<and>
    (\<forall>p. p \<notin> node ` {i..<i + n} \<longrightarrow> ut_cap (ut_mem s' p) = ut_cap (ut_mem s p)) \<and>
    n_4k_untyped (ut_table s') = n_4k_untyped (ut_table s) + word_of_nat n"
  using assms
proof (induction n arbitrary: i cap s Ls)
  case 0
  then show ?case by (intro exI [of _ s]) simp
next
  case (Suc n)
  let ?s0 = "set_ut s (node i) ((ut_mem s (node i))\<lparr>ut_cap := cap, ut_valid := True\<rparr>)"
  have ni: "node i = paddr_to_ut s (paddr + word_of_nat i * PAGE_SIZE_4K)" "node i \<noteq> 0" "node i < 2 ^ 48"
    "node i \<notin> set (concat Ls) \<union> set fs" using Suc.prems(2) [of i] by auto
  have len: "length Ls = 9" using Suc.prems(1) by (simp add: ut_abs_def)
  obtain s1 where s1: "push_untyped 8 (node i) ?s0 = Some s1" "ut_abs s1 (Ls[8 := node i # Ls ! 8]) fs" "ut_frame ?s0 s1"
    using push_untyped_abs [OF ut_abs_set_cap [OF Suc.prems(1)] _ ni(2-4), of 8 "node i" True cap] by auto
  define s2 where "s2 = s1\<lparr>ut_table := (ut_table s1)\<lparr>n_4k_untyped := n_4k_untyped (ut_table s1) + 1\<rparr>\<rparr>"
  have a2: "ut_abs s2 (Ls[8 := node i # Ls ! 8]) fs" using s1(2) by (simp add: ut_abs_def s2_def)
  have pu: "paddr_to_ut s2 q = paddr_to_ut s q" for q
    using ut_frame_sel(11) [OF s1(3), of q] by (simp add: s2_def paddr_to_ut_def set_ut_def)
  have cap2: "ut_cap (ut_mem s2 q) = (if q = node i then cap else ut_cap (ut_mem s q))" for q
    using ut_frame_sel(8) [OF s1(3), of q] by (simp add: s2_def set_ut_def)
  have n2: "n_4k_untyped (ut_table s2) = n_4k_untyped (ut_table s) + 1"
    using s1(3) by (simp add: s2_def ut_frame_def set_ut_def)
  have fresh: "node j = paddr_to_ut s2 (paddr + word_of_nat j * PAGE_SIZE_4K) \<and> node j \<noteq> 0 \<and> node j < 2 ^ 48 \<and>
      node j \<notin> set (concat (Ls[8 := node i # Ls ! 8])) \<union> set fs" if "Suc i \<le> j" "j < Suc i + n" for j
  proof -
    have "node j \<noteq> node i" using Suc.prems(3) that by (auto dest!: inj_onD [of node _ j i])
    moreover have "node j = paddr_to_ut s (paddr + word_of_nat j * PAGE_SIZE_4K) \<and> node j \<noteq> 0 \<and>
        node j < 2 ^ 48 \<and> node j \<notin> set (concat Ls) \<union> set fs"
      using that by (intro Suc.prems(2)) auto
    ultimately show ?thesis using pu len concat_cons_set [of 8 Ls "node i"] by auto
  qed
  have inj: "inj_on node {Suc i..<Suc i + n}"
    by (rule inj_on_subset [OF Suc.prems(3)]) auto
  obtain s' where s': "ut_add_untyped_loop n (Suc i) paddr (cap + 1) False s2 = Some s'"
    "ut_abs s' ((Ls[8 := node i # Ls ! 8])[8 := rev (map node [Suc i..<Suc i + n]) @ (Ls[8 := node i # Ls ! 8]) ! 8]) fs"
    "\<And>j. j < n \<Longrightarrow> ut_cap (ut_mem s' (node (Suc i + j))) = cap + 1 + word_of_nat j"
    "\<And>p. p \<notin> node ` {Suc i..<Suc i + n} \<Longrightarrow> ut_cap (ut_mem s' p) = ut_cap (ut_mem s2 p)"
    "n_4k_untyped (ut_table s') = n_4k_untyped (ut_table s2) + word_of_nat n"
    using Suc.IH [OF a2 fresh inj, of "cap + 1"] by blast
  have "ut_add_untyped_loop (Suc n) i paddr cap False s = Some s'"
    using s1(1) s'(1) ni(1,2) by (simp add: get_ut_def SIZE_BITS_TO_INDEX_def s2_def [symmetric])
  moreover have "rev (map node [i..<i + Suc n]) @ Ls ! 8 = rev (map node [Suc i..<Suc i + n]) @ node i # Ls ! 8"
    by (simp add: upt_conv_Cons del: upt_Suc)
  then have "ut_abs s' (Ls[8 := rev (map node [i..<i + Suc n]) @ Ls ! 8]) fs"
    using s'(2) len by simp
  moreover have "ut_cap (ut_mem s' (node (i + j))) = cap + word_of_nat j" if "j < Suc n" for j
  proof (cases j)
    case 0
    have "node i \<notin> node ` {Suc i..<Suc i + n}"
      using Suc.prems(3) by (auto dest!: inj_onD [of node _ i])
    then show ?thesis using 0 s'(4) [of "node i"] cap2 by simp
  next
    case (Suc k)
    then show ?thesis using s'(3) [of k] that by (simp add: add.commute add.left_commute)
  qed
  moreover have "ut_cap (ut_mem s' p) = ut_cap (ut_mem s p)" if "p \<notin> node ` {i..<i + Suc n}" for p
  proof -
    have "p \<noteq> node i" "p \<notin> node ` {Suc i..<Suc i + n}" using that by force+
    then show ?thesis using s'(4) [of p] cap2 [of p] by simp
  qed
  moreover have "n_4k_untyped (ut_table s') = n_4k_untyped (ut_table s) + word_of_nat (Suc n)"
    using s'(5) n2 by simp
  ultimately show ?case by blast
qed


section \<open>Example\<close>

definition ut_example :: ut_state where
  "ut_example = \<lparr>klog = [], kresp = (\<lambda>_. 0), mem = (\<lambda>_. 0), cspace = zero_cspace,
     ut_mem = (\<lambda>_. \<lparr>ut_cap = 0, ut_next = 0, ut_valid = False\<rparr>),
     ut_table = \<lparr>first_paddr = 0, untypeds = 4096, free_untypeds = replicate 9 0, n_4k_untyped = 0,
       free_structures = 0\<rparr>,
     next_free_vaddr = 65536, boot_vspace = 3, device_virt = 0\<rparr>"

lemma ut_example_abs: "ut_abs ut_example (replicate 9 []) []"
  by (simp add: ut_abs_def ut_example_def)

section \<open>Properties\<close>

text \<open>
  C7. \<open>ut_add_untyped_range\<close> puts the nodes of the region's pages on the 4K list, the last page
  first, in front of what the list held; the capabilities are consecutive, every other node
  keeps its capability, the other lists are unchanged and the count grows by \<open>n\<close>. The nodes
  must be distinct, not null and on no list. This is for a range of memory, not of a device.
\<close>

theorem ut_add_untyped_range_correct:
  assumes "ut_abs s Ls fs"
    and "node = (\<lambda>i. paddr_to_ut s (paddr + word_of_nat i * PAGE_SIZE_4K))" "inj_on node {0..<n}"
    and "\<forall>i < n. node i \<noteq> 0 \<and> node i < 2 ^ 48 \<and> node i \<notin> set (concat Ls) \<union> set fs"
  shows "\<exists>s'. ut_add_untyped_range paddr cap n False s = Some s' \<and>
    ut_abs s' (Ls[8 := rev (map node [0..<n]) @ Ls ! 8]) fs \<and>
    (\<forall>i < n. ut_cap (ut_mem s' (node i)) = cap + word_of_nat i) \<and>
    (\<forall>p. p \<notin> node ` {0..<n} \<longrightarrow> ut_cap (ut_mem s' p) = ut_cap (ut_mem s p)) \<and>
    n_4k_untyped (ut_table s') = n_4k_untyped (ut_table s) + word_of_nat n"
  using add_untyped_loop_abs [of s Ls fs 0 n node paddr cap] assms by (simp add: ut_add_untyped_range_def)

theorem ut_add_untyped_range_correct_witness:
  "\<exists>s'. ut_add_untyped_range 4096 7 2 False ut_example = Some s' \<and>
     ut_abs s' ((replicate 9 [])[8 := [4128, 4112]]) [] \<and> ut_cap (ut_mem s' 4128) = 8"
proof -
  define node where "node = (\<lambda>i. paddr_to_ut ut_example (4096 + word_of_nat i * PAGE_SIZE_4K))"
  have n: "node 0 = 4112" "node 1 = 4128" by (simp_all add: node_def paddr_to_ut_def ut_example_def)
  have i: "i < 2 \<longleftrightarrow> i = 0 \<or> i = 1" for i :: nat by auto
  have u: "[0..<2] = [0, 1 :: nat]" "{0..<2} = {0, 1 :: nat}" by auto (simp add: upt_rec)
  have "\<exists>s'. ut_add_untyped_range 4096 7 2 False ut_example = Some s' \<and>
    ut_abs s' ((replicate 9 [])[8 := rev (map node [0..<2]) @ replicate 9 [] ! 8]) [] \<and>
    (\<forall>i < 2. ut_cap (ut_mem s' (node i)) = 7 + word_of_nat i) \<and>
    (\<forall>p. p \<notin> node ` {0..<2} \<longrightarrow> ut_cap (ut_mem s' p) = ut_cap (ut_mem ut_example p)) \<and>
    n_4k_untyped (ut_table s') = n_4k_untyped (ut_table ut_example) + word_of_nat 2"
    using n by (intro ut_add_untyped_range_correct [OF ut_example_abs node_def]) (auto simp: u i inj_on_def)
  then show ?thesis using n by (auto simp: u i)
qed

text \<open>
  C8. The allocator of 4K untypeds is a stack: a node that is freed is the next one handed out,
  with its physical address, and the lists are as before; with an empty list the allocation
  returns the null pointer and changes nothing.
\<close>

theorem ut_4k_free_alloc:
  assumes "ut_abs s Ls fs" "p \<noteq> 0" "p < 2 ^ 48" "p \<notin> set (concat Ls) \<union> set fs"
  shows "(\<exists>s1 s2. ut_free p seL4_PageBits s = Some s1 \<and>
      ut_alloc_4k_untyped s1 = Some (p, ut_to_paddr s p, s2) \<and> ut_abs s2 Ls fs) \<and>
    (Ls ! 8 = [] \<longrightarrow> ut_alloc_4k_untyped s = Some (0, 0, s))"
proof -
  have len: "length Ls = 9" using assms(1) by (simp add: ut_abs_def)
  obtain s1 where s1: "push_untyped 8 p s = Some s1" "ut_abs s1 (Ls[8 := p # Ls ! 8]) fs" "ut_frame s s1"
    using push_untyped_abs [OF assms(1) _ assms(2-4), of 8] by auto
  have "\<exists>s2. ut_alloc_4k_untyped s1 = Some (p, ut_to_paddr s1 p, s2) \<and> ut_abs s2 Ls fs"
    using alloc_4k_abs [OF s1(2)] len by auto
  moreover have "ut_free p seL4_PageBits s = Some s1" using s1(1) by (simp add: ut_free_def SIZE_BITS_TO_INDEX_def)
  moreover have "ut_to_paddr s1 p = ut_to_paddr s p" by (rule ut_frame_sel(10) [OF s1(3)])
  ultimately show ?thesis using alloc_4k_abs [OF assms(1)] by auto
qed

theorem ut_4k_free_alloc_witness:
  "(\<exists>s1 s2. ut_free 4112 12 ut_example = Some s1 \<and> ut_alloc_4k_untyped s1 = Some (4112, 4096, s2)) \<and>
   ut_alloc_4k_untyped ut_example = Some (0, 0, ut_example)"
  using ut_4k_free_alloc [OF ut_example_abs, of 4112] by (auto simp: ut_to_paddr_def ut_example_def)

text \<open>
  The table's index arithmetic is a bijection on page addresses: the node of a page-aligned
  offset from the start of the region has that page's physical address.
\<close>

theorem ut_paddr_round_trip:
  assumes "aligned 12 (paddr - first_paddr (ut_table s))"
  shows "ut_to_paddr s (paddr_to_ut s paddr) = paddr"
proof -
  let ?d = "paddr - first_paddr (ut_table s)"
  obtain k where k: "unat ?d = 4096 * k" using assms by (auto simp: aligned_def)
  have b: "k * 16 < 18446744073709551616" using k unat_less_2p64 [of ?d] by simp
  have "unat (?d div PAGE_SIZE_4K) = k" using k by (simp add: unat_div)
  then have "unat (?d div PAGE_SIZE_4K * sizeof_ut_t) = k * 16" using b by (simp add: unat_mult64)
  then have "unat (?d div PAGE_SIZE_4K * sizeof_ut_t div sizeof_ut_t) = k" by (simp add: unat_div)
  then have "unat (?d div PAGE_SIZE_4K * sizeof_ut_t div sizeof_ut_t * PAGE_SIZE_4K) = unat ?d"
    using k unat_less_2p64 [of ?d] by (simp add: unat_mult64)
  then have "?d div PAGE_SIZE_4K * sizeof_ut_t div sizeof_ut_t * PAGE_SIZE_4K = ?d" by (simp add: word_unat_eq_iff)
  then show ?thesis by (simp add: ut_to_paddr_def paddr_to_ut_def)
qed

theorem ut_paddr_round_trip_witness: "ut_to_paddr ut_example (paddr_to_ut ut_example 8192) = 8192"
  by (rule ut_paddr_round_trip) (simp add: ut_example_def aligned_def)

end
