(* ===== verification/Mapping.thy ===== *)
theory Mapping
  imports Ut
begin

text \<open>
  Mapping frames, \<open>sos/src/mapping.c\<close>, the allocation callbacks of the bootstrap cspace in
  \<open>sos/src/bootstrap.c\<close>, and the bootstrap cspace seen by its users.

  \<open>map_frame_impl\<close> has two callers. The cspace's own callback passes the watermark slots and
  gets back which of them were used; every other caller passes null pointers and slots come
  from \<open>cspace_alloc_slot\<close>, which may itself call the callback. The loop is therefore defined
  over the function that provides the slots. \<open>sos_map_frame\<close> is with the page tables.
\<close>

section \<open>Definitions\<close>

abbreviation (input) SEL4_MAPPING_LOOKUP_NO_PT :: int where "SEL4_MAPPING_LOOKUP_NO_PT \<equiv> 21"
abbreviation (input) SEL4_MAPPING_LOOKUP_NO_PD :: int where "SEL4_MAPPING_LOOKUP_NO_PD \<equiv> 30"
abbreviation (input) SEL4_MAPPING_LOOKUP_NO_PUD :: int where "SEL4_MAPPING_LOOKUP_NO_PUD \<equiv> 39"
abbreviation (input) seL4_ARM_Default_VMAttributes :: int where "seL4_ARM_Default_VMAttributes \<equiv> 3"
abbreviation (input) seL4_CapInitThreadTCB :: cptr where "seL4_CapInitThreadTCB \<equiv> 1"
abbreviation (input) seL4_CapInitThreadCNode :: cptr where "seL4_CapInitThreadCNode \<equiv> 2"
abbreviation (input) seL4_CapInitThreadVSpace :: cptr where "seL4_CapInitThreadVSpace \<equiv> 3"

definition retype_map_pt :: "cspace_t \<Rightarrow> cptr \<Rightarrow> word64 \<Rightarrow> cptr \<Rightarrow> cptr \<Rightarrow> 'a m \<Rightarrow> int \<times> 'a m" where
  "retype_map_pt c vspace vaddr ut slot s =
     (let (err, s) = cspace_untyped_retype c ut slot seL4_ARM_PageTableObject seL4_PageBits s
      in if err \<noteq> 0 then (err, s)
         else kinvoke (ARM_PageTable_Map slot vspace vaddr seL4_ARM_Default_VMAttributes) s)"

definition retype_map_pd :: "cspace_t \<Rightarrow> cptr \<Rightarrow> word64 \<Rightarrow> cptr \<Rightarrow> cptr \<Rightarrow> 'a m \<Rightarrow> int \<times> 'a m" where
  "retype_map_pd c vspace vaddr ut slot s =
     (let (err, s) = cspace_untyped_retype c ut slot seL4_ARM_PageDirectoryObject seL4_PageBits s
      in if err \<noteq> 0 then (err, s)
         else kinvoke (ARM_PageDirectory_Map slot vspace vaddr seL4_ARM_Default_VMAttributes) s)"

definition retype_map_pud :: "cspace_t \<Rightarrow> cptr \<Rightarrow> word64 \<Rightarrow> cptr \<Rightarrow> cptr \<Rightarrow> 'a m \<Rightarrow> int \<times> 'a m" where
  "retype_map_pud c vspace vaddr ut slot s =
     (let (err, s) = cspace_untyped_retype c ut slot seL4_ARM_PageUpperDirectoryObject seL4_PageBits s
      in if err \<noteq> 0 then (err, s)
         else kinvoke (ARM_PageUpperDirectory_Map slot vspace vaddr seL4_ARM_Default_VMAttributes) s)"

text \<open>The \<open>switch\<close> on the missing level; an unknown level leaves \<open>err\<close> as it was.\<close>

definition map_level :: "int \<Rightarrow> cspace_t \<Rightarrow> cptr \<Rightarrow> word64 \<Rightarrow> cptr \<Rightarrow> cptr \<Rightarrow> int \<Rightarrow> 'a m \<Rightarrow> int \<times> 'a m" where
  "map_level failed c vspace vaddr ut slot err s =
     (if failed = SEL4_MAPPING_LOOKUP_NO_PT then retype_map_pt c vspace vaddr ut slot s
      else if failed = SEL4_MAPPING_LOOKUP_NO_PD then retype_map_pd c vspace vaddr ut slot s
      else if failed = SEL4_MAPPING_LOOKUP_NO_PUD then retype_map_pud c vspace vaddr ut slot s
      else (err, s))"

text \<open>
  The \<open>for\<close> loop over the remaining indices: \<open>slot_for i\<close> provides the slot of iteration \<open>i\<close> and
  threads the \<open>used\<close> bits. The results are the error, \<open>used\<close> and the state.
\<close>

primrec map_frame_loop ::
  "(nat \<Rightarrow> word64 \<Rightarrow> 'a ut \<Rightarrow> (cptr \<times> word64 \<times> 'a ut) option) \<Rightarrow> cspace_t \<Rightarrow> cptr \<Rightarrow> cptr \<Rightarrow> word64
     \<Rightarrow> int \<Rightarrow> int \<Rightarrow> nat list \<Rightarrow> int \<Rightarrow> word64 \<Rightarrow> 'a ut \<Rightarrow> (int \<times> word64 \<times> 'a ut) option" where
  "map_frame_loop slot_for c frame_cap vspace vaddr rights attr [] err used s = Some (err, used, s)"
| "map_frame_loop slot_for c frame_cap vspace vaddr rights attr (i # is) err used s =
     (if err \<noteq> seL4_FailedLookup then Some (err, used, s)
      else do {
        let (failed, s) = kinvoke MappingFailedLookupLevel s;
        (ut, _, s) \<leftarrow> ut_alloc_4k_untyped s;
        if ut = 0 then Some (- 1, used, s)
        else do {
          (slot, used, s) \<leftarrow> slot_for i used s;
          if slot = seL4_CapNull then Some (- 1, used, s)
          else do {
            u \<leftarrow> get_ut s ut;
            let (err, s) = map_level failed c vspace vaddr (ut_cap u) slot err s;
            let (err, s) =
              (if err = 0 then kinvoke (ARM_Page_Map frame_cap vspace vaddr rights attr) s else (err, s));
            map_frame_loop slot_for c frame_cap vspace vaddr rights attr is err used s } } })"

definition map_frame_impl ::
  "(nat \<Rightarrow> word64 \<Rightarrow> 'a ut \<Rightarrow> (cptr \<times> word64 \<times> 'a ut) option) \<Rightarrow> cspace_t \<Rightarrow> cptr \<Rightarrow> cptr \<Rightarrow> word64
     \<Rightarrow> int \<Rightarrow> int \<Rightarrow> word64 \<Rightarrow> 'a ut \<Rightarrow> (int \<times> word64 \<times> 'a ut) option" where
  "map_frame_impl slot_for c frame_cap vspace vaddr rights attr used s = do {
     let (err, s) = kinvoke (ARM_Page_Map frame_cap vspace vaddr rights attr) s;
     map_frame_loop slot_for c frame_cap vspace vaddr rights attr [0..<MAPPING_SLOTS] err used s }"

definition given_slot :: "cptr list \<Rightarrow> nat \<Rightarrow> word64 \<Rightarrow> 'a ut \<Rightarrow> (cptr \<times> word64 \<times> 'a ut) option" where
  "given_slot free_slots i used s = do {
     slot \<leftarrow> rd free_slots i;
     Some (slot, used OR BIT i, s) }"

definition map_frame_cspace ::
  "cspace_t \<Rightarrow> cptr \<Rightarrow> cptr \<Rightarrow> word64 \<Rightarrow> int \<Rightarrow> int \<Rightarrow> cptr list \<Rightarrow> word64 \<Rightarrow> 'a ut
     \<Rightarrow> (int \<times> word64 \<times> 'a ut) option" where
  "map_frame_cspace c frame_cap vspace vaddr rights attr free_slots used s =
     map_frame_impl (given_slot free_slots) c frame_cap vspace vaddr rights attr used s"

subsection \<open>The callbacks of the bootstrap cspace\<close>

definition alloc_vaddr :: "int \<Rightarrow> 'a ut \<Rightarrow> word64 \<times> 'a ut" where
  "alloc_vaddr err s =
     (if err = 0 then (next_free_vaddr s, s\<lparr>next_free_vaddr := next_free_vaddr s + PAGE_SIZE_4K\<rparr>)
      else (0, s))"

definition bootstrap_cspace_map_frame ::
  "cspace_t \<Rightarrow> cptr \<Rightarrow> cptr list \<Rightarrow> word64 \<Rightarrow> 'a ut \<Rightarrow> (word64 \<times> word64 \<times> 'a ut) option" where
  "bootstrap_cspace_map_frame cookie cap free_slots used s = do {
     (err, used, s) \<leftarrow> map_frame_cspace cookie cap (boot_vspace s) (next_free_vaddr s) seL4_AllRights
       seL4_ARM_Default_VMAttributes free_slots used s;
     let (v, s) = alloc_vaddr err s;
     Some (v, used, s) }"

definition bootstrap_cspace_alloc_4k_ut :: "'a ut \<Rightarrow> (word64 \<times> cptr \<times> 'a ut) option" where
  "bootstrap_cspace_alloc_4k_ut s = do {
     (untyped, _, s) \<leftarrow> ut_alloc_4k_untyped s;
     u \<leftarrow> get_ut s untyped;
     Some (untyped, ut_cap u, s) }"

definition bootstrap_cspace_free_4k_ut :: "word64 \<Rightarrow> 'a ut \<Rightarrow> 'a ut option" where
  "bootstrap_cspace_free_4k_ut untyped s = ut_free untyped seL4_PageBits s"

definition bootstrap_alloc :: "'a ut cspace_alloc_t" where
  "bootstrap_alloc = \<lparr>map_frame_fn = bootstrap_cspace_map_frame,
     alloc_4k_ut_fn = bootstrap_cspace_alloc_4k_ut, free_4k_ut_fn = bootstrap_cspace_free_4k_ut\<rparr>"

text \<open>The slot operations on the bootstrap cspace of the state.\<close>

definition alloc_slot :: "'a ut \<Rightarrow> (cptr \<times> 'a ut) option" where
  "alloc_slot s = do {
     (p, c, s) \<leftarrow> cspace_alloc_slot bootstrap_alloc (cspace s) s;
     Some (p, s\<lparr>cspace := c\<rparr>) }"

definition free_slot :: "cptr \<Rightarrow> 'a ut \<Rightarrow> 'a ut option" where
  "free_slot p s = do {
     c \<leftarrow> cspace_free_slot (cspace s) p;
     Some (s\<lparr>cspace := c\<rparr>) }"

subsection \<open>Mapping with slots from the cspace\<close>

definition fresh_slot :: "nat \<Rightarrow> word64 \<Rightarrow> 'a ut \<Rightarrow> (cptr \<times> word64 \<times> 'a ut) option" where
  "fresh_slot i used s = do {
     (slot, s) \<leftarrow> alloc_slot s;
     Some (slot, used, s) }"

definition map_frame ::
  "cptr \<Rightarrow> cptr \<Rightarrow> word64 \<Rightarrow> int \<Rightarrow> int \<Rightarrow> 'a ut \<Rightarrow> (int \<times> 'a ut) option" where
  "map_frame frame_cap vspace vaddr rights attr s = do {
     (err, _, s) \<leftarrow> map_frame_impl fresh_slot (cspace s) frame_cap vspace vaddr rights attr 0 s;
     Some (err, s) }"

definition bootstrap_map_frame :: "cptr \<Rightarrow> 'a ut \<Rightarrow> (word64 \<times> 'a ut) option" where
  "bootstrap_map_frame cap s = do {
     (err, s) \<leftarrow> map_frame cap (boot_vspace s) (next_free_vaddr s) seL4_AllRights
       seL4_ARM_Default_VMAttributes s;
     Some (alloc_vaddr err s) }"

text \<open>The body of \<open>sos_map_device\<close> for the page at \<open>cur\<close>: the boolean says whether it went well.\<close>

definition map_device_page :: "word64 \<Rightarrow> 'a ut \<Rightarrow> (bool \<times> 'a ut) option" where
  "map_device_page cur s = do {
     ut \<leftarrow> ut_alloc_4k_device cur s;
     if ut = 0 then Some (False, s)
     else do {
       (frame, s) \<leftarrow> alloc_slot s;
       if frame = seL4_CapNull then Some (False, s)
       else do {
         u \<leftarrow> get_ut s ut;
         let (err, s) = cspace_untyped_retype (cspace s) (ut_cap u) frame seL4_ARM_SmallPageObject seL4_PageBits s;
         if err \<noteq> seL4_NoError then do { s \<leftarrow> free_slot frame s; Some (False, s) }
         else do {
           (err, s) \<leftarrow> map_frame frame seL4_CapInitThreadVSpace (device_virt s) seL4_AllRights 0 s;
           if err \<noteq> seL4_NoError then do {
             let (_, s) = cspace_delete (cspace s) frame s;
             s \<leftarrow> free_slot frame s;
             Some (False, s) }
           else Some (True, s\<lparr>device_virt := device_virt s + PAGE_SIZE_4K\<rparr>) } } } }"

partial_function (option) map_device_loop :: "word64 \<Rightarrow> word64 \<Rightarrow> 'a ut \<Rightarrow> (bool \<times> 'a ut) option" where
  "map_device_loop cur end s =
     (if cur < end then do {
        (ok, s) \<leftarrow> map_device_page cur s;
        if ok then map_device_loop (cur + PAGE_SIZE_4K) end s else Some (False, s) }
      else Some (True, s))"

definition sos_map_device :: "word64 \<Rightarrow> word64 \<Rightarrow> 'a ut \<Rightarrow> (word64 \<times> 'a ut) option" where
  "sos_map_device addr sz s = do {
     let vstart = device_virt s;
     (ok, s) \<leftarrow> map_device_loop addr (addr + sz) s;
     Some (if ok then vstart else 0, s) }"

declare map_device_loop.simps [code]

end
