(* ===== verification/Dma.thy ===== *)
theory Dma
  imports Mapping
begin

text \<open>
  The allocator of DMA memory, \<open>sos/src/dma.c\<close>: one large page at a physical and a virtual
  address, handed out from its start and never given back. The static structure is the record
  \<open>dma_t\<close>, which the operations take and return beside the state.

  The lemmas show that the blocks that are handed out lie in the page, are aligned as requested
  and are disjoint, and that both address translations are inverse to each other.
\<close>

section \<open>Definitions\<close>

abbreviation (input) DMA_ALIGN_BITS :: word64 where "DMA_ALIGN_BITS \<equiv> 7"
abbreviation (input) seL4_LargePageBits :: nat where "seL4_LargePageBits \<equiv> 21"

record dma_t =
  vstart :: word64
  pstart :: word64
  pnext :: word64
  pend :: word64
  dma_cap :: cptr
  dma_vspace :: cptr

record dma_addr_t =
  da_vaddr :: word64
  da_paddr :: word64

text \<open>\<open>ROUND_UP((a), DMA_ALIGN_BITS)\<close> rounds to a multiple of 7, not of 128.\<close>

definition DMA_ALIGN :: "word64 \<Rightarrow> word64" where
  "DMA_ALIGN a = ROUND_UP a DMA_ALIGN_BITS"

definition sos_dma_phys_to_virt :: "dma_t \<Rightarrow> word64 \<Rightarrow> word64" where
  "sos_dma_phys_to_virt d phys = vstart d + (phys - pstart d)"

definition sos_dma_virt_to_phys :: "dma_t \<Rightarrow> word64 \<Rightarrow> word64" where
  "sos_dma_virt_to_phys d vaddr = pstart d + (vaddr - vstart d)"

text \<open>\<open>dma_init\<close> passes a null cspace to \<open>map_frame\<close>, so that a missing paging structure is a crash.\<close>

definition dma_init :: "cptr \<Rightarrow> cptr \<Rightarrow> word64 \<Rightarrow> word64 \<Rightarrow> dma_t \<Rightarrow> 'a ut \<Rightarrow> (int \<times> dma_t \<times> 'a ut) option" where
  "dma_init vspace ut pstart0 vstart0 d s =
     (if ut = seL4_CapNull \<or> vspace = seL4_CapNull \<or> pstart0 = 0 then Some (- 1, d, s)
      else do {
        let d = d\<lparr>vstart := vstart0, pstart := pstart0, pnext := pstart0, pend := pstart0 + BIT seL4_LargePageBits, dma_vspace := vspace\<rparr>;
        (err, _, s) \<leftarrow> map_frame_impl (\<lambda>_ _ _. None) zero_cspace ut vspace (sos_dma_phys_to_virt d pstart0)
                      seL4_AllRights seL4_ARM_Default_VMAttributes 0 s;
        Some (err, d, s) })"

definition sos_dma_cache_invalidate :: "dma_t \<Rightarrow> word64 \<Rightarrow> word64 \<Rightarrow> 'a m \<Rightarrow> int \<times> 'a m" where
  "sos_dma_cache_invalidate d addr sz s = kinvoke (ARM_Invalidate_Data (dma_vspace d) addr (addr + sz)) s"

definition sos_dma_cache_clean :: "dma_t \<Rightarrow> word64 \<Rightarrow> word64 \<Rightarrow> 'a m \<Rightarrow> int \<times> 'a m" where
  "sos_dma_cache_clean d addr sz s = kinvoke (ARM_Clean_Data (dma_vspace d) addr (addr + sz)) s"

definition sos_dma_cache_clean_invalidate :: "dma_t \<Rightarrow> word64 \<Rightarrow> word64 \<Rightarrow> 'a m \<Rightarrow> int \<times> 'a m" where
  "sos_dma_cache_clean_invalidate d addr sz s = kinvoke (ARM_CleanInvalidate_Data (dma_vspace d) addr (addr + sz)) s"

text \<open>The result is zero in both addresses if the memory is used up; an alignment of zero divides by zero.\<close>

definition sos_dma_malloc :: "word64 \<Rightarrow> word64 \<Rightarrow> dma_t \<Rightarrow> 'a m \<Rightarrow> (dma_addr_t \<times> dma_t \<times> 'a m) option" where
  "sos_dma_malloc sz align d s = do {
     let d = d\<lparr>pnext := DMA_ALIGN (pnext d)\<rparr>;
     c_assert (align \<noteq> 0);
     let d = d\<lparr>pnext := ROUND_UP (pnext d) align\<rparr>;
     if pnext d + sz \<ge> pend d then Some (\<lparr>da_vaddr = 0, da_paddr = 0\<rparr>, d, s)
     else do {
       let addr = \<lparr>da_vaddr = sos_dma_phys_to_virt d (pnext d), da_paddr = pnext d\<rparr>;
       let d = d\<lparr>pnext := pnext d + sz\<rparr>;
       let (_, s) = sos_dma_cache_clean_invalidate d (da_vaddr addr) sz s;
       Some (addr, d, s) } }"


section \<open>Blocks are disjoint\<close>

lemma ROUND_UP_spec:
  assumes "b \<noteq> 0" "unat n + unat b < 18446744073709551616"
  shows "unat n \<le> unat (ROUND_UP n b)" "unat (ROUND_UP n b) \<le> unat n + unat b" "unat (ROUND_UP n b) mod unat b = 0"
proof -
  have b: "0 < unat b" using assms(1) by (simp add: unat_gt_0)
  have m: "unat (n mod b) = unat n mod unat b" by (simp add: unat_mod_distrib)
  have lt: "unat n mod unat b < unat b" using b by simp
  have d: "unat (b - n mod b) = unat b - unat n mod unat b"
    by (subst unat_sub) (use lt in \<open>simp_all add: word_le_nat_alt m\<close>)
  have e: "unat (ROUND_UP n b) = unat n + (if unat n mod unat b = 0 then 0 else unat b - unat n mod unat b)"
  proof (cases "unat n mod unat b = 0")
    case True
    then have "n mod b = 0" by (simp add: word_unat_eq_iff m)
    then show ?thesis using True by (simp add: ROUND_UP_def)
  next
    case False
    then have nz: "n mod b \<noteq> 0" by (simp add: word_unat_eq_iff m)
    have "unat (n + (b - n mod b)) = unat n + unat (b - n mod b)"
      by (rule unat_add64) (use assms(2) in \<open>simp add: d\<close>)
    then show ?thesis using nz False by (simp add: ROUND_UP_def d)
  qed
  show "unat n \<le> unat (ROUND_UP n b)" "unat (ROUND_UP n b) \<le> unat n + unat b" by (simp_all add: e)
  have "(unat n + (unat b - unat n mod unat b)) mod unat b = 0"
  proof -
    have "unat n + (unat b - unat n mod unat b) = unat n div unat b * unat b + unat b"
      using lt div_mult_mod_eq [of "unat n" "unat b"] by linarith
    then show ?thesis by simp
  qed
  then show "unat (ROUND_UP n b) mod unat b = 0" by (simp add: e)
qed

lemma sos_dma_malloc_spec:
  assumes al: "al \<noteq> 0" and lim: "unat (pnext d) + unat sz + unat al + 7 < 18446744073709551616"
  shows "\<exists>a d' s'. sos_dma_malloc sz al d s = Some (a, d', s') \<and> vstart d' = vstart d \<and> pstart d' = pstart d \<and> pend d' = pend d \<and>
    unat (pnext d') \<le> unat (pnext d) + unat sz + unat al + 7 \<and> unat (pnext d) \<le> unat (pnext d') \<and>
    (da_paddr a \<noteq> 0 \<longrightarrow> unat (pnext d) \<le> unat (da_paddr a) \<and> unat (da_paddr a) mod unat al = 0 \<and>
       unat (da_paddr a) + unat sz = unat (pnext d') \<and> unat (pnext d') < unat (pend d) \<and>
       da_vaddr a = sos_dma_phys_to_virt d (da_paddr a))"
proof -
  define p1 where "p1 = DMA_ALIGN (pnext d)"
  define p2 where "p2 = ROUND_UP p1 al"
  have 1: "unat (pnext d) \<le> unat p1" "unat p1 \<le> unat (pnext d) + 7"
    using ROUND_UP_spec(1,2) [of 7 "pnext d"] lim by (simp_all add: p1_def DMA_ALIGN_def)
  have 2: "unat p1 \<le> unat p2" "unat p2 \<le> unat p1 + unat al" "unat p2 mod unat al = 0"
    using ROUND_UP_spec [OF al, of p1] 1 lim by (simp_all add: p2_def)
  have 3: "unat (p2 + sz) = unat p2 + unat sz" by (rule unat_add64) (use 1 2 lim in linarith)
  show ?thesis
  proof (cases "p2 + sz \<ge> pend d")
    case True
    then show ?thesis using 1 2 al by (simp add: sos_dma_malloc_def c_assert_def Let_def p1_def [symmetric] p2_def [symmetric])
  next
    case False
    then have "unat p2 + unat sz < unat (pend d)" by (simp add: word_le_nat_alt 3)
    then show ?thesis using False 1 2 3 al
      by (simp add: sos_dma_malloc_def c_assert_def Let_def p1_def [symmetric] p2_def [symmetric]
          sos_dma_cache_clean_invalidate_def kinvoke_def sos_dma_phys_to_virt_def)
  qed
qed

text \<open>A sequence of requests, each a size and an alignment, and the blocks that it yields.\<close>

primrec dma_run :: "(word64 \<times> word64) list \<Rightarrow> dma_t \<Rightarrow> 'a m \<Rightarrow> (dma_addr_t list \<times> dma_t \<times> 'a m) option" where
  "dma_run [] d s = Some ([], d, s)"
| "dma_run (r # rs) d s = do {
     (a, d, s) \<leftarrow> sos_dma_malloc (fst r) (snd r) d s;
     (as, d, s) \<leftarrow> dma_run rs d s;
     Some (a # as, d, s) }"

fun dma_blocks :: "(word64 \<times> word64) list \<Rightarrow> dma_addr_t list \<Rightarrow> (nat \<times> nat) list" where
  "dma_blocks (r # rs) (a # as) =
     (if da_paddr a = 0 then dma_blocks rs as else (unat (da_paddr a), unat (fst r)) # dma_blocks rs as)"
| "dma_blocks _ _ = []"

definition dma_block_ok :: "dma_t \<Rightarrow> (word64 \<times> word64) \<times> dma_addr_t \<Rightarrow> bool" where
  "dma_block_ok d ra \<longleftrightarrow> (let ((sz, al), a) = ra in da_paddr a \<noteq> 0 \<longrightarrow>
     unat (pnext d) \<le> unat (da_paddr a) \<and> unat (da_paddr a) + unat sz < unat (pend d) \<and>
     unat (da_paddr a) mod unat al = 0 \<and> da_vaddr a = sos_dma_phys_to_virt d (da_paddr a) \<and>
     sos_dma_virt_to_phys d (da_vaddr a) = da_paddr a)"

lemma dma_blocks_above: "list_all (dma_block_ok d) (zip rs as) \<Longrightarrow> (x, n) \<in> set (dma_blocks rs as) \<Longrightarrow> unat (pnext d) \<le> x"
  by (induction rs as rule: dma_blocks.induct) (auto simp: dma_block_ok_def split: if_splits)

text \<open>
  C30. For requests for DMA memory with non-zero alignments, whose sizes and alignments together
  do not take the next physical address past the end of the 64-bit range, the blocks that are
  handed out lie one behind the other, so that no two overlap; each lies in the part of the page
  that was free, is aligned as requested, and its virtual and physical addresses belong together.
  A size that wraps around is not refused and breaks this, see \<open>dma_wrap_overlaps\<close> below.
\<close>

theorem dma_blocks_disjoint:
  assumes "list_all (\<lambda>r. snd r \<noteq> 0) rs"
    and "unat (pnext d) + sum_list (map (\<lambda>r. unat (fst r) + unat (snd r) + 7) rs) < 18446744073709551616"
  shows "\<exists>as d' s'. dma_run rs d s = Some (as, d', s') \<and> length as = length rs \<and>
    sorted_wrt (\<lambda>(a, n) (b, _). a + n \<le> b) (dma_blocks rs as) \<and> list_all (dma_block_ok d) (zip rs as)"
  using assms
proof (induction rs arbitrary: d s)
  case (Cons r rs)
  have al: "snd r \<noteq> 0" and lim: "unat (pnext d) + unat (fst r) + unat (snd r) + 7 < 18446744073709551616"
    using Cons.prems by simp_all
  obtain a d1 s1 where m: "sos_dma_malloc (fst r) (snd r) d s = Some (a, d1, s1)" "vstart d1 = vstart d" "pstart d1 = pstart d"
    "pend d1 = pend d" "unat (pnext d1) \<le> unat (pnext d) + unat (fst r) + unat (snd r) + 7" "unat (pnext d) \<le> unat (pnext d1)"
    "da_paddr a \<noteq> 0 \<longrightarrow> unat (pnext d) \<le> unat (da_paddr a) \<and> unat (da_paddr a) mod unat (snd r) = 0 \<and>
       unat (da_paddr a) + unat (fst r) = unat (pnext d1) \<and> unat (pnext d1) < unat (pend d) \<and>
       da_vaddr a = sos_dma_phys_to_virt d (da_paddr a)"
    using sos_dma_malloc_spec [OF al lim, of s] by auto
  obtain as d2 s2 where i: "dma_run rs d1 s1 = Some (as, d2, s2)" "length as = length rs"
    "sorted_wrt (\<lambda>(a, n) (b, _). a + n \<le> b) (dma_blocks rs as)" "list_all (dma_block_ok d1) (zip rs as)"
    using Cons.IH [of d1 s1] Cons.prems m(5) by auto
  have up: "dma_block_ok d1 x \<Longrightarrow> dma_block_ok d x" for x
    using m by (auto simp: dma_block_ok_def sos_dma_phys_to_virt_def sos_dma_virt_to_phys_def Let_def)
  have "list_all (dma_block_ok d) (zip rs as)" using i(4) up by (auto simp: list_all_iff)
  moreover have "dma_block_ok d (r, a)"
    using m(7) by (auto simp: dma_block_ok_def sos_dma_phys_to_virt_def sos_dma_virt_to_phys_def split: prod.splits)
  moreover have "\<forall>(x, n) \<in> set (dma_blocks rs as). unat (pnext d1) \<le> x" using dma_blocks_above [OF i(4)] by auto
  ultimately show ?case using m(1,7) i(1,2,3) by auto
qed simp

definition dma_example :: dma_t where
  "dma_example = \<lparr>vstart = 0x8000400000, pstart = 0x20000000, pnext = 0x20000000, pend = 0x20200000, dma_cap = 0, dma_vspace = 3\<rparr>"

theorem dma_blocks_disjoint_witness:
  "\<exists>as d' s'. dma_run [(100, 16), (0x1000000, 32), (200, 64)] dma_example (\<lparr>klog = [], kresp = \<lambda>_. 0, mem = \<lambda>_. 0\<rparr> :: machine) = Some (as, d', s') \<and>
    length as = length [(100 :: word64, 16 :: word64), (0x1000000, 32), (200, 64)] \<and>
    sorted_wrt (\<lambda>(a, n) (b, _). a + n \<le> b) (dma_blocks [(100, 16), (0x1000000, 32), (200, 64)] as) \<and>
    list_all (dma_block_ok dma_example) (zip [(100, 16), (0x1000000, 32), (200, 64)] as)"
  by (rule dma_blocks_disjoint) (simp_all add: dma_example_def)

text \<open>
  The test of the code, \<open>pnext + size >= pend\<close>, does not notice that the sum wraps around: a
  huge size is granted and moves \<open>pnext\<close> back, and the next block is again the first one.
\<close>

lemma dma_wrap_overlaps:
  "\<exists>a b d s. dma_run [(700, 7), (- 700, 7), (700, 7)] dma_example (\<lparr>klog = [], kresp = \<lambda>_. 0, mem = \<lambda>_. 0\<rparr> :: machine) =
     Some ([a, b, a], d, s) \<and> da_paddr a \<noteq> 0"
  by (simp add: sos_dma_malloc_def DMA_ALIGN_def ROUND_UP_def dma_example_def c_assert_def sos_dma_cache_clean_invalidate_def
      kinvoke_def sos_dma_phys_to_virt_def Let_def)

end
