(* ===== verification/Clock.thy ===== *)
theory Clock
  imports PQueue Mapping
begin

text \<open>
  The timer driver, \<open>libclock/src/clock.c\<close>, and the time stamps of \<open>timestamp.h\<close>. The static
  variables of the driver extend the state; \<open>pq\<close> is \<open>None\<close> before the driver starts and after
  the queue is freed. The device registers are fields, the counter registers of the processor
  are read from the environment. A callback is an address; what the code at that address does to
  the state is the argument \<open>cb\<close> of the interrupt handler.

  The lemmas show that the interrupt handler runs exactly the due jobs, in the order of the
  queue, and ends, for callbacks that leave the queue alone and periods of at least one tick;
  and that a shorter period keeps it in its loop for ever.
\<close>

section \<open>Definitions\<close>

abbreviation (input) TICK_10000_US :: word64 where "TICK_10000_US \<equiv> 10000"
abbreviation (input) MS_IN_S :: word64 where "MS_IN_S \<equiv> 1000"
abbreviation (input) US_IN_S :: word64 where "US_IN_S \<equiv> 1000000"
abbreviation (input) TIMER_MUX :: word64 where "TIMER_MUX \<equiv> 0xc1109990"
abbreviation (input) TIMER_F_IRQ :: int where "TIMER_F_IRQ \<equiv> 92"
abbreviation (input) TIMER_F_EN :: word32 where "TIMER_F_EN \<equiv> push_bit 16 1"
abbreviation (input) TIMER_F_MODE :: word32 where "TIMER_F_MODE \<equiv> push_bit 12 1"
abbreviation (input) TIMEBASE_1_US :: word32 where "TIMEBASE_1_US \<equiv> 0"
abbreviation (input) TIMER_F_INPUT_CLK :: nat where "TIMER_F_INPUT_CLK \<equiv> 0"
abbreviation (input) seL4_CapIRQControl :: cptr where "seL4_CapIRQControl \<equiv> 4"

record clock_state = ut_state +
  timer :: word64
  timer_mux :: word32
  timer_f :: word32
  timer_irq_handler :: cptr
  timer_initialised :: bool
  pq :: "pqueue option"
  next_job_id :: word32
  start_tick :: word64
  last_tick :: word64

type_synonym 'a ck = "'a clock_state_scheme"

definition timestamp_get_freq :: "'a m \<Rightarrow> word64 \<times> 'a m" where
  "timestamp_get_freq s = (let (r, s) = kinvoke Read_cntfrq s in (word_of_int r, s))"

definition timestamp_ticks :: "'a m \<Rightarrow> word64 \<times> 'a m" where
  "timestamp_ticks s = (let (r, s) = kinvoke Read_cntvct s in (word_of_int r, s))"

text \<open>The division is by \<open>freq / 1000\<close>, which is zero for a frequency below one kilohertz.\<close>

definition timestamp_ms :: "word64 \<Rightarrow> 'a m \<Rightarrow> (word64 \<times> 'a m) option" where
  "timestamp_ms freq s = do {
     c_assert (freq \<noteq> 0);
     let (t, s) = timestamp_ticks s;
     c_assert (freq div MS_IN_S \<noteq> 0);
     Some (t div (freq div MS_IN_S), s) }"

definition timestamp_us :: "word64 \<Rightarrow> 'a m \<Rightarrow> (word64 \<times> 'a m) option" where
  "timestamp_us freq s = do {
     c_assert (freq \<noteq> 0);
     let (t, s) = timestamp_ticks s;
     Some ((US_IN_S * t) div freq, s) }"

definition init_irq :: "int \<Rightarrow> int \<Rightarrow> cptr \<Rightarrow> 'a ut \<Rightarrow> (cptr \<times> 'a ut) option" where
  "init_irq irq_number edge_triggered ntfn s = do {
     (irq_handler, s) \<leftarrow> alloc_slot s;
     c_assert (irq_handler \<noteq> seL4_CapNull);
     let (err, s) = cspace_irq_control_get (cspace s) irq_handler seL4_CapIRQControl irq_number edge_triggered s;
     c_assert (err = 0);
     let (err, s) = kinvoke (IRQHandler_SetNotification irq_handler ntfn) s;
     c_assert (err = 0);
     let (_, s) = kinvoke (IRQHandler_Ack irq_handler) s;
     Some (irq_handler, s) }"

definition stop_timer :: "'a ck \<Rightarrow> (int \<times> 'a ck) option" where
  "stop_timer s =
     (if \<not> timer_initialised s then Some (CLOCK_R_UINT, s)
      else do {
        q \<leftarrow> pq s;
        let s = s\<lparr>timer_initialised := False, pq := pqueue_destroy q\<rparr>;
        let (_, s) = kinvoke (IRQHandler_Clear (timer_irq_handler s)) s;
        Some (CLOCK_R_OK, s) })"

definition start_timer :: "cptr \<Rightarrow> word64 \<Rightarrow> 'a ck \<Rightarrow> (int \<times> 'a ck) option" where
  "start_timer ntfn device_vaddr s = do {
     (_, s) \<leftarrow> (if timer_initialised s then stop_timer s else Some (CLOCK_R_OK, s));
     let s = s\<lparr>pq := Some pqueue_init, timer := device_vaddr + (TIMER_MUX AND mask seL4_PageBits)\<rparr>;
     (h, s) \<leftarrow> init_irq TIMER_F_IRQ 1 ntfn s;
     let s = s\<lparr>timer_irq_handler := h, timer_initialised := True\<rparr>;
     let s = s\<lparr>timer_mux := timer_mux s OR
               (TIMER_F_EN OR TIMER_F_MODE OR push_bit TIMER_F_INPUT_CLK TIMEBASE_1_US)\<rparr>;
     let s = s\<lparr>timer_f := timer_f s OR 10000\<rparr>;
     let (freq, s) = timestamp_get_freq s;
     (t, s) \<leftarrow> timestamp_ms freq s;
     Some (CLOCK_R_OK, s\<lparr>start_tick := t, last_tick := t\<rparr>) }"

definition register_timer ::
  "word64 \<Rightarrow> job_type_t \<Rightarrow> word64 \<Rightarrow> word64 \<Rightarrow> 'a ck \<Rightarrow> (word32 \<times> 'a ck) option" where
  "register_timer delay ty callback data s = do {
     q \<leftarrow> pq s;
     let (i, nx, q) = pqueue_push (next_job_id s) q 0 delay ty callback data;
     Some (i, s\<lparr>pq := Some q, next_job_id := nx\<rparr>) }"

definition remove_timer :: "word32 \<Rightarrow> 'a ck \<Rightarrow> (int \<times> 'a ck) option" where
  "remove_timer i s =
     (if \<not> timer_initialised s then Some (CLOCK_R_UINT, s)
      else do {
        q \<leftarrow> pq s;
        let (r, q) = pqueue_remove q i;
        Some (r, s\<lparr>pq := Some q\<rparr>) })"

text \<open>
  One iteration of the loop of \<open>timer_interrupt\<close> for the job at the head: the callback runs
  while the job is still queued, then the head of the queue is popped.
\<close>

definition fire :: "(word64 \<Rightarrow> word32 \<Rightarrow> word64 \<Rightarrow> 'a ck \<Rightarrow> 'a ck option) \<Rightarrow> job \<Rightarrow> 'a ck \<Rightarrow> (word64 \<times> 'a ck) option" where
  "fire cb job s = do {
     let (freq, s) = timestamp_get_freq s;
     (t, s) \<leftarrow> timestamp_ms freq s;
     s \<leftarrow> cb (j_callback job) (j_id job) (j_data job) s;
     q \<leftarrow> pq s;
     let (_, nx, q) = pqueue_pop (next_job_id s) q;
     Some (t, s\<lparr>pq := Some q, next_job_id := nx\<rparr>) }"

definition due :: "pqueue \<Rightarrow> job \<Rightarrow> bool" where
  "due q job = ISINRANGE (pq_time q) (j_tick job) (pq_time q + TICK_10000_US - 1)"

partial_function (option) timer_loop ::
  "(word64 \<Rightarrow> word32 \<Rightarrow> word64 \<Rightarrow> 'a ck \<Rightarrow> 'a ck option) \<Rightarrow> word64 \<Rightarrow> 'a ck \<Rightarrow> (word64 \<times> 'a ck) option" where
  "timer_loop cb curr_tick s = do {
     q \<leftarrow> pq s;
     (case pqueue_peek q of
        None \<Rightarrow> Some (curr_tick, s)
      | Some job \<Rightarrow>
          if due q job then do {
            (t, s) \<leftarrow> fire cb job s;
            timer_loop cb t s }
          else Some (curr_tick, s)) }"

definition timer_interrupt ::
  "(word64 \<Rightarrow> word32 \<Rightarrow> word64 \<Rightarrow> 'a ck \<Rightarrow> 'a ck option) \<Rightarrow> 'a ck \<Rightarrow> (int \<times> 'a ck) option" where
  "timer_interrupt cb s =
     (if \<not> timer_initialised s then Some (CLOCK_R_UINT, s)
      else do {
        (curr_tick, s) \<leftarrow> timer_loop cb 0 s;
        let s = s\<lparr>last_tick := (if curr_tick \<noteq> 0 then curr_tick else last_tick s)\<rparr>;
        q \<leftarrow> pq s;
        let s = s\<lparr>pq := Some (q\<lparr>pq_time := pq_time q + TICK_10000_US\<rparr>)\<rparr>;
        let (_, s) = kinvoke (IRQHandler_Ack (timer_irq_handler s)) s;
        Some (CLOCK_R_OK, s) })"

definition get_time :: "'a ck \<Rightarrow> word64 option" where
  "get_time s = do { q \<leftarrow> pq s; Some (pq_time q) }"

declare timer_loop.simps [code]

section \<open>The interrupt handler runs the due jobs\<close>

text \<open>The jobs of a list fired one after the other.\<close>

primrec fire_all ::
  "(word64 \<Rightarrow> word32 \<Rightarrow> word64 \<Rightarrow> 'a ck \<Rightarrow> 'a ck option) \<Rightarrow> job list \<Rightarrow> word64 \<Rightarrow> 'a ck \<Rightarrow> (word64 \<times> 'a ck) option" where
  "fire_all cb [] t s = Some (t, s)"
| "fire_all cb (j # js) t s = do { (t, s) \<leftarrow> fire cb j s; fire_all cb js t s }"

text \<open>
  The queue is ordered, no job is overdue, the next tick does not wrap, and every periodic job
  has a period of at least one tick that does not wrap either.
\<close>

definition clock_ok :: "pqueue \<Rightarrow> bool" where
  "clock_ok q \<longleftrightarrow> pq_sorted q \<and> unat (pq_time q) + 10000 < 2 ^ 64 \<and>
     (\<forall>j \<in> set (pq_head q). pq_time q \<le> j_tick j \<and>
        (j_type j = PERIODIC \<longrightarrow> 10000 \<le> unat (j_delay j) \<and> unat (pq_time q) + unat (j_delay j) < 2 ^ 64))"

text \<open>The callbacks of the jobs in a queue return and leave the queue alone.\<close>

definition cb_ok :: "(word64 \<Rightarrow> word32 \<Rightarrow> word64 \<Rightarrow> 'a ck \<Rightarrow> 'a ck option) \<Rightarrow> pqueue \<Rightarrow> bool" where
  "cb_ok cb q \<longleftrightarrow> (\<forall>j \<in> set (pq_head q). \<forall>i s. \<exists>s'. cb (j_callback j) i (j_data j) s = Some s' \<and>
     pq s' = pq s \<and> next_job_id s' = next_job_id s \<and> kresp s' = kresp s)"

text \<open>The counter runs at one kilohertz or faster, so that a millisecond has a tick.\<close>

definition freq_ok :: "'a m \<Rightarrow> bool" where
  "freq_ok s \<longleftrightarrow> (\<forall>l. 1000 \<le> unat (word_of_int (kresp s (Read_cntfrq # l)) :: word64))"

lemma due_iff:
  assumes "unat (pq_time q) + 10000 < 2 ^ 64"
  shows "due q j \<longleftrightarrow> unat (pq_time q) \<le> unat (j_tick j) \<and> unat (j_tick j) < unat (pq_time q) + 10000"
proof -
  have e: "unat (pq_time q + TICK_10000_US - 1) = unat (pq_time q) + 9999"
  proof -
    have "pq_time q + TICK_10000_US - 1 = pq_time q + 9999" by simp
    then show ?thesis using assms by (simp add: unat_add64)
  qed
  show ?thesis
    unfolding due_def ISINRANGE_def Let_def word_unat_eq_iff word_less_nat_alt if_distrib [of unat] e by auto
qed

lemma filter_push_walk: "\<not> P n \<Longrightarrow> filter P (pqueue_push_walk n xs) = filter P xs"
  by (induction n xs rule: pqueue_push_walk.induct) auto

lemma filter_pq_insert: "\<not> P n \<Longrightarrow> filter P (pq_insert n xs) = filter P xs"
  by (simp add: pq_insert_def filter_push_walk)

lemma push_walk_superset: "set xs \<subseteq> set (pqueue_push_walk n xs)"
  by (induction n xs rule: pqueue_push_walk.induct) auto

lemma pq_insert_superset: "set xs \<subseteq> set (pq_insert n xs)"
  using push_walk_superset by (auto simp: pq_insert_def)

text \<open>The queue after a due job at its head is popped.\<close>

lemma pop_due:
  assumes ok: "clock_ok q" and h: "pq_head q = j # rest" and p: "pqueue_pop nx q = (r, nx', q')"
  shows "clock_ok q'" "pq_time q' = pq_time q"
    "filter (due q') (pq_head q') = filter (due q) rest"
    "set rest \<subseteq> set (pq_head q')"
    "\<forall>k \<in> set (pq_head q'). k \<in> set rest \<or> j_type k = PERIODIC"
proof -
  have b: "unat (pq_time q) + 10000 < 2 ^ 64" and srt: "sorted (map j_tick (j # rest))"
    and jobs: "\<And>k. k \<in> set (j # rest) \<Longrightarrow> pq_time q \<le> j_tick k \<and> (j_type k = PERIODIC \<longrightarrow>
        10000 \<le> unat (j_delay k) \<and> unat (pq_time q) + unat (j_delay k) < 2 ^ 64)"
    using ok h by (auto simp: clock_ok_def pq_sorted_def)
  define n where "n = new_job (if j_id j \<noteq> 0 then j_id j else nx) (pq_time q) (j_delay j) (j_type j) (j_callback j) (j_data j)"
  define xs where "xs = (if j_type j = PERIODIC then pq_insert n rest else rest)"
  have q': "pq_head q' = xs" "pq_time q' = pq_time q"
    using p h by (auto simp: pqueue_pop_def Let_def pqueue_push_eq xs_def n_def split: if_splits)
  have per: "unat (j_tick n) = unat (pq_time q) + unat (j_delay j)" "10000 \<le> unat (j_delay j)"
    "unat (pq_time q) + unat (j_delay j) < 2 ^ 64" if "j_type j = PERIODIC"
    using jobs [of j] that by (auto simp: n_def unat_add64)
  have due_q: "due q' = due q" using q'(2) by (simp add: fun_eq_iff due_def)
  have nd: "\<not> due q n" if "j_type j = PERIODIC" using per [OF that] by (simp add: due_iff [OF b])
  have sub: "set xs \<subseteq> insert n (set rest)" "set rest \<subseteq> set xs"
    using pq_insert_set pq_insert_superset by (auto simp: xs_def)
  show "pq_time q' = pq_time q" by (rule q'(2))
  show "filter (due q') (pq_head q') = filter (due q) rest"
    using nd by (simp add: q' due_q xs_def filter_pq_insert)
  show "set rest \<subseteq> set (pq_head q')" using sub(2) by (simp add: q')
  show "\<forall>k \<in> set (pq_head q'). k \<in> set rest \<or> j_type k = PERIODIC"
    using sub(1) by (auto simp: q' xs_def n_def split: if_splits)
  have "sorted (map j_tick xs)" using srt by (simp add: xs_def pq_insert_sorted)
  moreover have "pq_time q \<le> j_tick k \<and> (j_type k = PERIODIC \<longrightarrow> 10000 \<le> unat (j_delay k) \<and>
      unat (pq_time q) + unat (j_delay k) < 2 ^ 64)" if k: "k \<in> set xs" for k
  proof (cases "k \<in> set rest")
    case False
    then have "j_type j = PERIODIC" "k = n" using k sub(1) by (auto simp: xs_def split: if_splits)
    then show ?thesis using per by (simp add: word_le_nat_alt n_def)
  qed (use jobs in simp)
  ultimately show "clock_ok q'" using b by (simp add: clock_ok_def pq_sorted_def q')
qed

text \<open>A job that is re-armed keeps its callback.\<close>

lemma pop_cb_ok:
  assumes "cb_ok cb q" "pqueue_pop nx q = (r, nx', q')"
  shows "cb_ok cb q'"
proof (cases "pq_head q")
  case Nil
  then show ?thesis using assms by (auto simp: pqueue_pop_def)
next
  case (Cons j rest)
  define n where "n = new_job (if j_id j \<noteq> 0 then j_id j else nx) (pq_time q) (j_delay j) (j_type j) (j_callback j) (j_data j)"
  have "set (pq_head q') \<subseteq> insert n (set rest)"
    using assms(2) Cons pq_insert_set [of n rest]
    by (auto simp: pqueue_pop_def Let_def pqueue_push_eq n_def split: if_splits)
  then show ?thesis using assms(1) Cons by (auto simp: cb_ok_def n_def)
qed

lemma fire_ok:
  assumes "cb_ok cb q" "j \<in> set (pq_head q)" "freq_ok s" "pq s = Some q" "pqueue_pop (next_job_id s) q = (r, nx, q')"
  shows "\<exists>t s'. fire cb j s = Some (t, s') \<and> pq s' = Some q' \<and> freq_ok s'"
proof -
  let ?f = "word_of_int (kresp s (Read_cntfrq # klog s)) :: word64"
  let ?s1 = "s\<lparr>klog := Read_cntvct # Read_cntfrq # klog s\<rparr>"
  have f: "?f \<noteq> 0" "?f div MS_IN_S \<noteq> 0"
    using assms(3) by (auto simp: freq_ok_def word_unat_eq_iff unat_div dest!: spec [of _ "klog s"])
  obtain s' where c: "cb (j_callback j) (j_id j) (j_data j) ?s1 = Some s'" "pq s' = pq ?s1"
    "next_job_id s' = next_job_id ?s1" "kresp s' = kresp ?s1"
    using assms(1,2) unfolding cb_ok_def by blast
  show ?thesis
    using f c assms(3-5)
    by (simp add: fire_def timestamp_get_freq_def timestamp_ms_def timestamp_ticks_def kinvoke_def freq_ok_def)
qed

lemma timer_loop_ok:
  assumes "cb_ok cb q" "freq_ok s" "pq s = Some q" "clock_ok q"
  shows "timer_loop cb t s = fire_all cb (filter (due q) (pq_head q)) t s \<and>
    (\<exists>t' s' q'. timer_loop cb t s = Some (t', s') \<and> pq s' = Some q' \<and> clock_ok q' \<and> pq_time q' = pq_time q \<and>
      (\<forall>k \<in> set (pq_head q'). \<not> due q k) \<and>
      (\<forall>k \<in> set (pq_head q). \<not> due q k \<longrightarrow> k \<in> set (pq_head q')) \<and>
      (\<forall>k \<in> set (pq_head q'). k \<in> set (pq_head q) \<or> j_type k = PERIODIC))"
  using assms
proof (induction "length (filter (due q) (pq_head q))" arbitrary: t s q rule: less_induct)
  case less
  have srt: "sorted (map j_tick (pq_head q))" and b: "unat (pq_time q) + 10000 < 2 ^ 64"
    using less.prems(4) by (auto simp: clock_ok_def pq_sorted_def)
  show ?case
  proof (cases "pq_head q")
    case Nil
    then show ?thesis using less.prems by (simp add: timer_loop.simps [of cb t s] pqueue_peek_def)
  next
    case (Cons j rest)
    show ?thesis
    proof (cases "due q j")
      case False
      have "\<not> due q k" if "k \<in> set (pq_head q)" for k
      proof -
        have "pq_time q \<le> j_tick j" "j_tick j \<le> j_tick k"
          using Cons srt that less.prems(4) by (auto simp: clock_ok_def)
        then show ?thesis using False by (auto simp: due_iff [OF b] word_le_nat_alt)
      qed
      moreover from this have "filter (due q) (pq_head q) = []" by (simp add: filter_empty_conv)
      ultimately show ?thesis
        using less.prems Cons False by (simp add: timer_loop.simps [of cb t s] pqueue_peek_def)
    next
      case True
      obtain r nx q1 where p: "pqueue_pop (next_job_id s) q = (r, nx, q1)" by (metis prod_cases3)
      note d = pop_due [OF less.prems(4) Cons p]
      have due1: "due q1 = due q" using d(2) by (simp add: fun_eq_iff due_def)
      obtain t1 s1 where f: "fire cb j s = Some (t1, s1)" "pq s1 = Some q1" "freq_ok s1"
        using fire_ok [OF less.prems(1) _ less.prems(2,3) p, of j] Cons by auto
      have step: "timer_loop cb t s = timer_loop cb t1 s1"
        using less.prems(3) Cons True f(1) by (simp add: timer_loop.simps [of cb t s] pqueue_peek_def)
      have fl: "filter (due q) (pq_head q) = j # filter (due q) rest" using Cons True by simp
      have "length (filter (due q1) (pq_head q1)) < length (filter (due q) (pq_head q))"
        by (simp add: d(3) fl)
      note ih = less.hyps [OF this pop_cb_ok [OF less.prems(1) p] f(3,2) d(1), of t1]
      have "timer_loop cb t s = fire_all cb (filter (due q) (pq_head q)) t s"
        using ih f(1) by (simp add: step fl d(3))
      moreover obtain t' s' q' where "timer_loop cb t1 s1 = Some (t', s')" "pq s' = Some q'" "clock_ok q'"
        "pq_time q' = pq_time q1" "\<forall>k \<in> set (pq_head q'). \<not> due q1 k"
        "\<forall>k \<in> set (pq_head q1). \<not> due q1 k \<longrightarrow> k \<in> set (pq_head q')"
        "\<forall>k \<in> set (pq_head q'). k \<in> set (pq_head q1) \<or> j_type k = PERIODIC"
        using ih by blast
      ultimately show ?thesis
        using d(2,4,5) Cons True due1 step by (intro conjI exI [of _ t'] exI [of _ s'] exI [of _ q']) auto
    qed
  qed
qed

lemma timer_loop_hangs:
  assumes "timer_loop cb t s = Some y" "cb_ok cb q" "freq_ok s" "pq s = Some q" "pq_head q = [j]" "due q j"
    "j_type j = PERIODIC" "unat (j_delay j) < 10000" "unat (pq_time q) + 10000 < 2 ^ 64"
  shows False
  using assms
proof (induction arbitrary: q j rule: timer_loop.raw_induct [rotated, consumes 1, case_names step])
  case (step loop cb t s y)
  define n where "n = new_job (if j_id j \<noteq> 0 then j_id j else next_job_id s) (pq_time q) (j_delay j) (j_type j) (j_callback j) (j_data j)"
  obtain nx q1 where p: "pqueue_pop (next_job_id s) q = (0, nx, q1)" "pq_head q1 = [n]" "pq_time q1 = pq_time q"
    using step(6,8) by (auto simp: pqueue_pop_def Let_def pqueue_push_eq pq_insert_def n_def)
  obtain t1 s1 where f: "fire cb j s = Some (t1, s1)" "pq s1 = Some q1" "freq_ok s1"
    using fire_ok [OF step(3) _ step(4,5) p(1), of j] step(6) by auto
  have "unat (j_tick n) = unat (pq_time q) + unat (j_delay j)"
    using step(9,10) by (simp add: n_def unat_add64)
  then have due: "due q1 n" using step(9,10) p(3) by (simp add: due_iff)
  have "loop cb t1 s1 = Some y"
    using step(2,5,6,7) f(1) by (simp add: pqueue_peek_def)
  from step(1) [OF this pop_cb_ok [OF step(3) p(1)] f(3,2) p(2) due] show False
    using step(8,9,10) p(3) by (simp add: n_def)
qed

text \<open>
  C3. \<open>timer_interrupt\<close> returns and does its work, for a queue that is ordered, has no overdue
  job and only periods of at least one 10 ms tick (\<open>clock_ok\<close>), whose callbacks return and do not
  register or remove timers themselves (\<open>cb_ok\<close>), and a counter of at least one kilohertz
  (\<open>freq_ok\<close>): it runs exactly the jobs that are due, in the order of the queue, keeps every job
  that is not due, adds nothing but re-armed periodic jobs, leaves the queue ordered, and moves
  the time by one tick so that no job left in the queue is overdue.
\<close>

theorem timer_interrupt_runs_due_jobs:
  assumes "timer_initialised s" "pq s = Some q" "clock_ok q" "cb_ok cb q" "freq_ok s"
  shows "timer_loop cb 0 s = fire_all cb (filter (due q) (pq_head q)) 0 s \<and>
    (\<exists>s' q'. timer_interrupt cb s = Some (CLOCK_R_OK, s') \<and> pq s' = Some q' \<and> pq_sorted q' \<and>
      pq_time q' = pq_time q + 10000 \<and>
      (\<forall>j \<in> set (pq_head q'). pq_time q' \<le> j_tick j) \<and>
      (\<forall>j \<in> set (pq_head q). \<not> due q j \<longrightarrow> j \<in> set (pq_head q')) \<and>
      (\<forall>j \<in> set (pq_head q'). j \<in> set (pq_head q) \<and> \<not> due q j \<or> j_type j = PERIODIC))"
proof -
  note L = timer_loop_ok [OF assms(4,5,2,3), of 0]
  have runs: "timer_loop cb 0 s = fire_all cb (filter (due q) (pq_head q)) 0 s" using L by blast
  obtain t' s' q' where l: "timer_loop cb 0 s = Some (t', s')" "pq s' = Some q'" "clock_ok q'"
    "pq_time q' = pq_time q" "\<forall>k \<in> set (pq_head q'). \<not> due q k"
    "\<forall>k \<in> set (pq_head q). \<not> due q k \<longrightarrow> k \<in> set (pq_head q')"
    "\<forall>k \<in> set (pq_head q'). k \<in> set (pq_head q) \<or> j_type k = PERIODIC"
    using L by blast
  have b: "unat (pq_time q) + 10000 < 2 ^ 64" using assms(3) by (simp add: clock_ok_def)
  have "pq_time q + 10000 \<le> j_tick k" if "k \<in> set (pq_head q')" for k
  proof -
    have "unat (pq_time q) \<le> unat (j_tick k)"
      using l(3,4) that by (auto simp: clock_ok_def word_le_nat_alt)
    then show ?thesis using l(5) that b by (auto simp: due_iff [OF b] word_le_nat_alt unat_add64)
  qed
  then show ?thesis
    using assms(1) l by (intro conjI [OF runs]) (simp add: timer_interrupt_def kinvoke_def Let_def clock_ok_def pq_sorted_def)
qed

definition clock_example :: "pqueue \<Rightarrow> clock_state" where
  "clock_example q = \<lparr>klog = [], kresp = (\<lambda>l. case l of Read_cntfrq # _ \<Rightarrow> 62500000 | _ \<Rightarrow> 0), mem = (\<lambda>_. 0),
     cspace = zero_cspace, ut_mem = (\<lambda>_. \<lparr>ut_cap = 0, ut_next = 0, ut_valid = False\<rparr>),
     ut_table = \<lparr>first_paddr = 0, untypeds = 0, free_untypeds = replicate 9 0, n_4k_untyped = 0, free_structures = 0\<rparr>,
     next_free_vaddr = 0, boot_vspace = 3, device_virt = 0, timer = 0, timer_mux = 0, timer_f = 0,
     timer_irq_handler = 9, timer_initialised = True, pq = Some q, next_job_id = 5, start_tick = 0, last_tick = 0\<rparr>"

abbreviation (input) keep_state :: "word64 \<Rightarrow> word32 \<Rightarrow> word64 \<Rightarrow> clock_state \<Rightarrow> clock_state option" where
  "keep_state \<equiv> \<lambda>f i d s. Some s"

lemma clock_example_ok:
  "timer_initialised (clock_example q)" "pq (clock_example q) = Some q" "freq_ok (clock_example q)" "cb_ok keep_state q"
  by (simp_all add: clock_example_def freq_ok_def cb_ok_def)

text \<open>A queue at time 20000 with one periodic job that is due at 25000.\<close>

definition due_example :: "word64 \<Rightarrow> pqueue" where
  "due_example period = \<lparr>pq_size = 1, pq_time = 20000, pq_head = [new_job 1 (25000 - period) period PERIODIC 7 7]\<rparr>"

text \<open>
  C34. A periodic job with a period shorter than one tick that is alone in the queue makes
  \<open>timer_interrupt\<close> loop for ever once it is due: re-armed at the time of the interrupt it is
  due again at once. This is so for every callback that returns and does not register or remove
  timers (\<open>cb_ok\<close>) and a counter of at least one kilohertz (\<open>freq_ok\<close>).
\<close>

theorem timer_interrupt_short_period_hangs:
  assumes "timer_initialised s" "pq s = Some q" "pq_head q = [j]" "due q j" "j_type j = PERIODIC"
    "unat (j_delay j) < 10000" "unat (pq_time q) + 10000 < 2 ^ 64" "cb_ok cb q" "freq_ok s"
  shows "timer_interrupt cb s = None"
  using timer_loop_hangs [OF _ assms(8,9,2,3,4,5,6,7)] assms(1)
  by (cases "timer_loop cb 0 s") (auto simp: timer_interrupt_def)

theorem timer_interrupt_short_period_hangs_witness:
  "timer_interrupt keep_state (clock_example (due_example 5000)) = None"
  by (rule timer_interrupt_short_period_hangs [OF clock_example_ok(1,2) _ _ _ _ _ clock_example_ok(4,3),
        where j = "new_job 1 20000 5000 PERIODIC 7 7"])
    (simp_all add: due_example_def due_def ISINRANGE_def new_job_def)

end
