(* ===== verification/Cspace_Slots.thy ===== *)
theory Cspace_Slots
  imports Cspace
begin

text \<open>
  The slot allocator of \<open>libsel4cspace\<close> is correct. The invariant \<open>cspace_wf\<close> of a two-level
  cspace says that the second-level cnodes exist in order, that a cnode marked full exists, and
  that an existing cnode not marked full has a free slot below its last one. Allocation keeps it
  for every behaviour of the allocation callbacks, because a cnode that had to be created has
  room for the slot itself and for the one that refills the watermark. The locale
  \<open>slot_allocator\<close> is the contract of the components that allocate slots; it is interpreted for
  two-level and for one-level cspaces.
\<close>

section \<open>Slots of a two-level cspace\<close>

lemma cnode_consts [simp]:
  "CNODE_SLOT_BITS 12 = 7" "CNODE_SLOTS 12 = 128" "BITFIELD_SIZE 12 = 2"
  "sizeof_bot_lvl_t = 24" "BOT_LVL_PER_NODE = 169"
  by (simp_all add: CNODE_SLOT_BITS_def CNODE_SLOTS_def BITFIELD_SIZE_def sizeof_bot_lvl_t_def
      BOT_LVL_PER_NODE_def)

definition cnode_ptr :: "nat \<Rightarrow> cptr" where
  "cnode_ptr t = push_bit 7 (word_of_nat t)"

lemma unat_cnode_ptr:
  assumes "t < 8192" "b < 128"
  shows "unat (cnode_ptr t + word_of_nat b) = t * 128 + b"
proof -
  have "unat (cnode_ptr t) = t * 128"
    using assms by (simp add: cnode_ptr_def push_bit_eq_mult unat_mult64 unat_of_nat64)
  then show ?thesis using assms by (simp add: unat_add64 unat_of_nat64)
qed

lemmas unat_cnode_ptr0 = unat_cnode_ptr [where b = 0, simplified]

lemma cnode_ptr_index:
  assumes "t < 8192" "b < 128"
  shows "NODE_INDEX (cnode_ptr t + word_of_nat b) = t div 169"
    "CNODE_INDEX (cnode_ptr t + word_of_nat b) = t mod 169"
    "TOP_LVL_INDEX (cnode_ptr t + word_of_nat b) = t"
    "BOT_LVL_INDEX (cnode_ptr t + word_of_nat b) = b"
  using assms unat_cnode_ptr [OF assms]
  by (simp_all add: NODE_INDEX_def CNODE_INDEX_def TOP_LVL_INDEX_def BOT_LVL_INDEX_def
      drop_bit_eq_div take_bit_eq_mod unat_div unat_mod)

lemmas cnode_ptr_index0 = cnode_ptr_index [where b = 0, simplified]

section \<open>The invariant of a two-level cspace\<close>

definition node_at :: "cspace_t \<Rightarrow> nat \<Rightarrow> bot_lvl_node_t" where
  "node_at c i = the (bot_lvl_nodes c ! i)"

definition cnode_present :: "cspace_t \<Rightarrow> nat \<Rightarrow> bool" where
  "cnode_present c t \<longleftrightarrow> t div 169 < n_bot_lvl_nodes c \<and> t mod 169 < n_cnodes (node_at c (t div 169))"

definition cnode_bf :: "cspace_t \<Rightarrow> nat \<Rightarrow> word64 list" where
  "cnode_bf c t = bl_bf (cnodes (node_at c (t div 169)) ! (t mod 169))"

definition slot_taken :: "cspace_t \<Rightarrow> nat \<Rightarrow> bool" where
  "slot_taken c p \<longleftrightarrow> cnode_present c (p div 128) \<and> bf_bit (cnode_bf c (p div 128)) (p mod 128)"

definition node_wf :: "bot_lvl_node_t \<Rightarrow> bool" where
  "node_wf nd \<longleftrightarrow> length (cnodes nd) = 169 \<and> n_cnodes nd \<le> 169 \<and>
     (\<forall>j < 169. length (bl_bf (cnodes nd ! j)) = 2) \<and>
     (\<forall>j < 169. n_cnodes nd \<le> j \<longrightarrow> bl_bf (cnodes nd ! j) = [0, 0])"

definition nodes_wf :: "cspace_t \<Rightarrow> bool" where
  "nodes_wf c \<longleftrightarrow> n_bot_lvl_nodes c \<le> length (bot_lvl_nodes c) \<and>
     (\<forall>i < n_bot_lvl_nodes c. bot_lvl_nodes c ! i \<noteq> None \<and> node_wf (node_at c i) \<and>
        (Suc i < n_bot_lvl_nodes c \<longrightarrow> n_cnodes (node_at c i) = 169))"

definition cspace_wf :: "cspace_t \<Rightarrow> bool" where
  "cspace_wf c \<longleftrightarrow> two_level c \<and> length (watermark c) = 4 \<and>
     11 \<le> top_lvl_size_bits c \<and> top_lvl_size_bits c \<le> 18 \<and>
     64 * length (top_bf c) = CNODE_SLOTS (top_lvl_size_bits c) \<and>
     CNODE_SLOTS (top_lvl_size_bits c) \<le> 169 * length (bot_lvl_nodes c) \<and> nodes_wf c \<and>
     (\<forall>t. bf_bit (top_bf c) t \<longrightarrow> cnode_present c t) \<and>
     (\<forall>t. cnode_present c t \<and> \<not> bf_bit (top_bf c) t \<longrightarrow>
        \<not> bf_bit (cnode_bf c t) 127 \<and> (\<exists>b < 127. \<not> bf_bit (cnode_bf c t) b))"

lemma top_slots_bound: "cspace_wf c \<Longrightarrow> CNODE_SLOTS (top_lvl_size_bits c) \<le> 8192"
proof -
  assume "cspace_wf c"
  then have "CNODE_SLOT_BITS (top_lvl_size_bits c) \<le> 13" by (auto simp: cspace_wf_def CNODE_SLOT_BITS_def)
  then have "(2::nat) ^ CNODE_SLOT_BITS (top_lvl_size_bits c) \<le> 2 ^ 13" by (intro power_increasing) auto
  then show ?thesis by (simp add: CNODE_SLOTS_def)
qed

lemma top_bf_length: "cspace_wf c \<Longrightarrow> BITFIELD_SIZE (top_lvl_size_bits c) = length (top_bf c)"
  by (auto simp: cspace_wf_def BITFIELD_SIZE_def simp flip: mult.commute dest!: sym [of "64 * _"])

lemma get_node_at: "nodes_wf c \<Longrightarrow> i < n_bot_lvl_nodes c \<Longrightarrow> get_node c i = Some (node_at c i)"
  by (auto simp: nodes_wf_def get_node_def node_at_def)

lemma levels_missing_eq:
  assumes "cspace_wf c" "t < 8192"
  shows "levels_missing c (cnode_ptr t) = Some (\<not> cnode_present c t)"
  using assms get_node_at [of c "t div 169"]
  by (auto simp: levels_missing_def cnode_ptr_index0 cnode_present_def cspace_wf_def)

text \<open>Setting one bit of a present cnode.\<close>

definition set_cnode_bf :: "cspace_t \<Rightarrow> nat \<Rightarrow> word64 list \<Rightarrow> cspace_t" where
  "set_cnode_bf c t bf = c\<lparr>bot_lvl_nodes := (bot_lvl_nodes c)[t div 169 := Some
     ((node_at c (t div 169))\<lparr>cnodes := (cnodes (node_at c (t div 169)))[t mod 169 :=
        (cnodes (node_at c (t div 169)) ! (t mod 169))\<lparr>bl_bf := bf\<rparr>]\<rparr>)]\<rparr>"

lemma set_cnode_bf_facts:
  assumes "nodes_wf c" "cnode_present c t" "length bf = 2"
  shows "nodes_wf (set_cnode_bf c t bf)"
    "cnode_present (set_cnode_bf c t bf) u = cnode_present c u"
    "cnode_bf (set_cnode_bf c t bf) u = (if u = t then bf else cnode_bf c u)"
proof -
  let ?i = "t div 169" and ?j = "t mod 169"
  have i: "?i < n_bot_lvl_nodes c" "?i < length (bot_lvl_nodes c)" "?j < n_cnodes (node_at c ?i)"
    and nw: "node_wf (node_at c ?i)"
    using assms by (auto simp: nodes_wf_def cnode_present_def)
  have na: "node_at (set_cnode_bf c t bf) k = (if k = ?i then (node_at c ?i)\<lparr>cnodes := (cnodes (node_at c ?i))[?j :=
        (cnodes (node_at c ?i) ! ?j)\<lparr>bl_bf := bf\<rparr>]\<rparr> else node_at c k)" for k
    using i by (auto simp: set_cnode_bf_def node_at_def nth_list_update)
  have nw': "node_wf (node_at (set_cnode_bf c t bf) ?i)"
    using nw i(3) assms(3) unfolding na by (auto simp: node_wf_def nth_list_update)
  show "nodes_wf (set_cnode_bf c t bf)"
    using assms(1) nw' na unfolding nodes_wf_def
    by (auto simp: set_cnode_bf_def nth_list_update)
  show "cnode_present (set_cnode_bf c t bf) u = cnode_present c u"
    unfolding cnode_present_def na by (auto simp: set_cnode_bf_def)
  have "u div 169 = ?i \<Longrightarrow> u mod 169 = ?j \<Longrightarrow> u = t" by (metis div_mult_mod_eq)
  then show "cnode_bf (set_cnode_bf c t bf) u = (if u = t then bf else cnode_bf c u)"
    using nw i(3) unfolding cnode_bf_def na by (auto simp: node_wf_def nth_list_update)
qed


lemma cnode_bf_length: "nodes_wf c \<Longrightarrow> cnode_present c t \<Longrightarrow> length (cnode_bf c t) = 2"
  by (auto simp: nodes_wf_def cnode_present_def cnode_bf_def node_wf_def)

lemma set_node_eq:
  "i < length (bot_lvl_nodes c) \<Longrightarrow> set_node c i nd = Some (c\<lparr>bot_lvl_nodes := (bot_lvl_nodes c)[i := nd]\<rparr>)"
  by (simp add: set_node_def)

lemma alloc_bot_slot_unfold:
  assumes "nodes_wf c" "cnode_present c t" "t < 8192"
  shows "alloc_bot_slot c t (cnode_ptr t) = do {
    b \<leftarrow> bf_first_free 2 (cnode_bf c t);
    bf \<leftarrow> bf_set_bit (cnode_bf c t) b;
    next \<leftarrow> bf_first_free 2 bf;
    c' \<leftarrow> (if next \<ge> 127 then do { tb \<leftarrow> bf_set_bit (top_bf c) t; Some ((set_cnode_bf c t bf)\<lparr>top_bf := tb\<rparr>) }
         else Some (set_cnode_bf c t bf));
    Some (b, c') }"
proof -
  have "t div 169 < n_bot_lvl_nodes c" "t div 169 < length (bot_lvl_nodes c)"
    "t mod 169 < length (cnodes (node_at c (t div 169)))"
    using assms by (auto simp: nodes_wf_def cnode_present_def node_wf_def)
  then show ?thesis
    using assms get_node_at [OF assms(1), of "t div 169"]
    by (simp add: alloc_bot_slot_def cnode_ptr_index0 cnode_bf_def set_cnode_bf_def set_node_eq
        cong: Option.bind_cong if_cong)
qed

lemma top_update_facts [simp]:
  "nodes_wf (c\<lparr>top_bf := tb\<rparr>) = nodes_wf c" "nodes_wf (c\<lparr>watermark := w\<rparr>) = nodes_wf c"
  "cnode_present (c\<lparr>top_bf := tb\<rparr>) = cnode_present c" "cnode_present (c\<lparr>watermark := w\<rparr>) = cnode_present c"
  "cnode_bf (c\<lparr>top_bf := tb\<rparr>) = cnode_bf c" "cnode_bf (c\<lparr>watermark := w\<rparr>) = cnode_bf c"
  by (simp_all add: nodes_wf_def fun_eq_iff cnode_present_def cnode_bf_def node_at_def)

lemma set_cnode_bf_frame [simp]:
  "two_level (set_cnode_bf c t bf) = two_level c" "watermark (set_cnode_bf c t bf) = watermark c"
  "top_lvl_size_bits (set_cnode_bf c t bf) = top_lvl_size_bits c"
  "top_bf (set_cnode_bf c t bf) = top_bf c"
  "length (bot_lvl_nodes (set_cnode_bf c t bf)) = length (bot_lvl_nodes c)"
  "root_cnode (set_cnode_bf c t bf) = root_cnode c" "has_alloc (set_cnode_bf c t bf) = has_alloc c"
  by (simp_all add: set_cnode_bf_def)

text \<open>The fields a slot allocation leaves alone.\<close>

definition same_shape :: "cspace_t \<Rightarrow> cspace_t \<Rightarrow> bool" where
  "same_shape c d \<longleftrightarrow> root_cnode d = root_cnode c \<and> two_level d = two_level c \<and>
     top_lvl_size_bits d = top_lvl_size_bits c \<and> has_alloc d = has_alloc c"

lemma split_slot: "(q :: nat) = t * 128 + b \<longleftrightarrow> q div 128 = t \<and> q mod 128 = b" if "b < 128"
  using that by auto

lemma alloc_bot_slot_ok:
  assumes wf: "cspace_wf c" and t: "cnode_present c t" "\<not> bf_bit (top_bf c) t" "t < 64 * length (top_bf c)"
  obtains b c' where "alloc_bot_slot c t (cnode_ptr t) = Some (b, c')" "b < 127"
    "\<not> bf_bit (cnode_bf c t) b" "\<forall>i < b. bf_bit (cnode_bf c t) i" "cspace_wf c'"
    "\<And>q. slot_taken c' q \<longleftrightarrow> slot_taken c q \<or> q = t * 128 + b"
    "watermark c' = watermark c" "same_shape c c'" "cnode_present c' = cnode_present c"
    "\<And>u. bf_bit (top_bf c') u \<longleftrightarrow> bf_bit (top_bf c) u \<or> (u = t \<and> (\<forall>i < 127. i \<noteq> b \<longrightarrow> bf_bit (cnode_bf c t) i))"
proof -
  have nw: "nodes_wf c" and lt: "t < 8192" and len: "length (cnode_bf c t) = 2"
    using wf t top_slots_bound [OF wf] by (auto simp: cspace_wf_def cnode_bf_length)
  have c127: "\<not> bf_bit (cnode_bf c t) 127" and ex: "\<exists>b<127. \<not> bf_bit (cnode_bf c t) b"
    using wf t unfolding cspace_wf_def by blast+
  obtain b bf where b: "bf_first_free 2 (cnode_bf c t) = Some b" "bf_set_bit (cnode_bf c t) b = Some bf"
    "b < 127" "\<not> bf_bit (cnode_bf c t) b" "length bf = 2"
    "\<And>i. bf_bit bf i \<longleftrightarrow> i = b \<or> bf_bit (cnode_bf c t) i" "\<forall>i < b. bf_bit (cnode_bf c t) i"
  proof -
    obtain b0 where "b0 < 127" "\<not> bf_bit (cnode_bf c t) b0" using ex by blast
    then show ?thesis using bf.take_first [of b0 "cnode_bf c t"] len that by force
  qed
  obtain n where n: "bf_first_free 2 bf = Some n" "n \<le> 127" "\<not> bf_bit bf n" "\<forall>i < n. bf_bit bf i"
    using bf_first_free_found [of bf 127] b(3,5,6) c127 by force
  obtain tb where tb: "bf_set_bit (top_bf c) t = Some tb" "length tb = length (top_bf c)"
    "\<And>u. bf_bit tb u \<longleftrightarrow> u = t \<or> bf_bit (top_bf c) u"
    using bf_set_bit_ok [OF t(3)] by metis
  define c' where "c' = (if n \<ge> 127 then (set_cnode_bf c t bf)\<lparr>top_bf := tb\<rparr> else set_cnode_bf c t bf)"
  note sf = set_cnode_bf_facts [OF nw t(1) b(5)]
  have "alloc_bot_slot c t (cnode_ptr t) = Some (b, c')"
    using b(1,2) n(1) tb(1) by (simp add: alloc_bot_slot_unfold [OF nw t(1) lt] c'_def)
  moreover have pr: "cnode_present c' = cnode_present c"
    by (simp add: fun_eq_iff c'_def sf)
  moreover have bfs: "cnode_bf c' u = (if u = t then bf else cnode_bf c u)" for u
    by (simp add: c'_def sf)
  moreover have full: "n \<ge> 127 \<longleftrightarrow> (\<forall>i < 127. i \<noteq> b \<longrightarrow> bf_bit (cnode_bf c t) i)"
    using n b(6) by (metis not_less order_less_le_trans)
  moreover have top: "bf_bit (top_bf c') u \<longleftrightarrow> bf_bit (top_bf c) u \<or> (u = t \<and> n \<ge> 127)" for u
    by (auto simp: c'_def tb)
  moreover have "cspace_wf c'"
  proof -
    have "\<not> bf_bit (cnode_bf c' u) 127 \<and> (\<exists>b<127. \<not> bf_bit (cnode_bf c' u) b)"
      if "cnode_present c' u" "\<not> bf_bit (top_bf c') u" for u
    proof (cases "u = t")
      case True
      then have "n < 127" using that(2) top by auto
      then show ?thesis using True n(3) b(3,6) c127 by (auto simp: bfs)
    next
      case False
      then show ?thesis using that wf unfolding cspace_wf_def pr top bfs by auto
    qed
    moreover have "bf_bit (top_bf c') u \<Longrightarrow> cnode_present c' u" for u
      using wf t(1) unfolding top pr cspace_wf_def by blast
    moreover have "nodes_wf c'" by (simp add: c'_def sf)
    ultimately show ?thesis using wf unfolding cspace_wf_def by (auto simp: c'_def tb(2))
  qed
  moreover have "slot_taken c' q \<longleftrightarrow> slot_taken c q \<or> q = t * 128 + b" for q
    using t(1) b(3,6) by (auto simp: slot_taken_def pr bfs split_slot)
  ultimately show ?thesis
    using that [of b c'] b(3,4,7) by (simp add: c'_def same_shape_def)
qed


lemma put_node_facts:
  assumes nw: "nodes_wf c" and i: "i < n_bot_lvl_nodes c" and nd: "node_wf nd"
    and bfs: "\<And>j. j < 169 \<Longrightarrow> bl_bf (cnodes nd ! j) = bl_bf (cnodes (node_at c i) ! j)"
    and n: "n_cnodes (node_at c i) \<le> n_cnodes nd" "Suc i < n_bot_lvl_nodes c \<Longrightarrow> n_cnodes nd = 169"
    and c': "set_node c i (Some nd) = Some c'"
  shows "nodes_wf c'" "cnode_bf c' = cnode_bf c" "n_bot_lvl_nodes c' = n_bot_lvl_nodes c"
    "length (bot_lvl_nodes c') = length (bot_lvl_nodes c)"
    "cnode_present c' u \<longleftrightarrow> (if u div 169 = i then u mod 169 < n_cnodes nd else cnode_present c u)"
    "top_bf c' = top_bf c" "watermark c' = watermark c" "same_shape c c'"
proof -
  have l: "i < length (bot_lvl_nodes c)" using nw i by (auto simp: nodes_wf_def)
  then have c'': "c' = c\<lparr>bot_lvl_nodes := (bot_lvl_nodes c)[i := Some nd]\<rparr>"
    using c' by (simp add: set_node_eq)
  have na: "node_at c' k = (if k = i then nd else node_at c k)" for k
    using l by (simp add: c'' node_at_def nth_list_update)
  show "nodes_wf c'"
    using nw nd n l unfolding nodes_wf_def na by (auto simp: c'' nth_list_update)
  show "cnode_bf c' = cnode_bf c"
    using bfs by (auto simp: fun_eq_iff cnode_bf_def na)
  show "cnode_present c' u \<longleftrightarrow> (if u div 169 = i then u mod 169 < n_cnodes nd else cnode_present c u)"
    using i unfolding cnode_present_def na by (auto simp: c'')
  show "n_bot_lvl_nodes c' = n_bot_lvl_nodes c" "length (bot_lvl_nodes c') = length (bot_lvl_nodes c)"
    "top_bf c' = top_bf c" "watermark c' = watermark c" "same_shape c c'"
    by (auto simp: c'' same_shape_def)
qed

lemma add_node_facts:
  assumes nw: "nodes_wf c" and full: "\<And>i. Suc i = n_bot_lvl_nodes c \<Longrightarrow> n_cnodes (node_at c i) = 169"
    and c': "init_bot_lvl_node c (n_bot_lvl_nodes c) untyped frame = Some c'"
  shows "nodes_wf c'" "n_bot_lvl_nodes c' = Suc (n_bot_lvl_nodes c)"
    "n_cnodes (node_at c' (n_bot_lvl_nodes c)) = 0" "cnode_present c' = cnode_present c"
    "cnode_present c u \<Longrightarrow> cnode_bf c' u = cnode_bf c u"
    "length (bot_lvl_nodes c') = length (bot_lvl_nodes c)"
    "top_bf c' = top_bf c" "watermark c' = watermark c" "same_shape c c'"
proof -
  let ?n = "n_bot_lvl_nodes c" and ?z = "zero_node\<lparr>n_cnodes := 0, bn_untyped := untyped, bn_frame := frame\<rparr>"
  have l: "?n < length (bot_lvl_nodes c)"
    and c'': "c' = c\<lparr>n_bot_lvl_nodes := Suc ?n, bot_lvl_nodes := (bot_lvl_nodes c)[?n := Some ?z]\<rparr>"
    using c' by (auto simp: init_bot_lvl_node_def set_node_def outcome outcome_bind)
  have na: "node_at c' k = (if k = ?n then ?z else node_at c k)" for k
    using l by (simp add: c'' node_at_def nth_list_update)
  have z: "node_wf ?z" by (simp add: node_wf_def zero_node_def numeral_2_eq_2)
  show "nodes_wf c'"
    using nw z l full unfolding nodes_wf_def na by (auto simp: c'' nth_list_update less_Suc_eq)
  show "n_cnodes (node_at c' ?n) = 0" by (simp add: na)
  show "cnode_present c' = cnode_present c"
    unfolding fun_eq_iff cnode_present_def na by (auto simp: c'')
  show "cnode_present c u \<Longrightarrow> cnode_bf c' u = cnode_bf c u"
    by (auto simp: cnode_bf_def na cnode_present_def)
  show "n_bot_lvl_nodes c' = Suc ?n" "length (bot_lvl_nodes c') = length (bot_lvl_nodes c)"
    "top_bf c' = top_bf c" "watermark c' = watermark c" "same_shape c c'"
    by (auto simp: c'' same_shape_def)
qed

lemma pred_in_node:
  assumes "(t :: nat) mod 169 \<noteq> 0"
  shows "(t - 1) div 169 = t div 169" "(t - 1) mod 169 = t mod 169 - 1" "t - 1 < t"
proof -
  define q r where "q = t div 169" and "r = t mod 169"
  have t: "t = 169 * q + r" "r < 169" "r \<noteq> 0" using assms by (simp_all add: q_def r_def)
  then have e: "t - 1 = 169 * q + (r - 1)" by simp
  have "(169 * q + (r - 1)) div 169 = q" "(169 * q + (r - 1)) mod 169 = r - 1"
    using t(2) by simp_all
  then show "(t - 1) div 169 = t div 169" "(t - 1) mod 169 = t mod 169 - 1" "t - 1 < t"
    unfolding e q_def [symmetric] r_def [symmetric] using t by simp_all
qed

lemma pred_last_in_node:
  assumes "(t :: nat) mod 169 = 0" "0 < t div 169"
  shows "(t - 1) div 169 = t div 169 - 1" "t - 1 < t"
proof -
  obtain q where "t = 169 * Suc q" using assms by (metis Suc_pred div_mult_mod_eq add_0_right mult.commute)
  moreover from this have "t - 1 = 169 * q + 168" by simp
  ultimately show "(t - 1) div 169 = t div 169 - 1" "t - 1 < t" by simp_all
qed

text \<open>Where the first cnode that is not full lies: it is the next one to be created, or present.\<close>

lemma first_missing_position:
  assumes nw: "nodes_wf c" and before: "\<forall>u < t. cnode_present c u" and t: "\<not> cnode_present c t"
  shows "if n_bot_lvl_nodes c \<le> t div 169
    then t div 169 = n_bot_lvl_nodes c \<and> t mod 169 = 0 \<and>
      (\<forall>i. Suc i = n_bot_lvl_nodes c \<longrightarrow> n_cnodes (node_at c i) = 169)
    else Suc (t div 169) = n_bot_lvl_nodes c \<and> n_cnodes (node_at c (t div 169)) = t mod 169"
proof (cases "n_bot_lvl_nodes c \<le> t div 169")
  case True
  have m: "t mod 169 = 0"
  proof (rule ccontr)
    assume "t mod 169 \<noteq> 0"
    note p = pred_in_node [OF this]
    have "(t - 1) div 169 < n_bot_lvl_nodes c"
      using before p(3) unfolding cnode_present_def by blast
    then show False using True p by simp
  qed
  have e: "t div 169 \<le> n_bot_lvl_nodes c"
  proof (rule ccontr)
    assume a: "\<not> t div 169 \<le> n_bot_lvl_nodes c"
    then have p: "(t - 1) div 169 = t div 169 - 1" "t - 1 < t" using m pred_last_in_node [of t] by auto
    have "(t - 1) div 169 < n_bot_lvl_nodes c"
      using before p(2) unfolding cnode_present_def by blast
    then show False using a p by simp
  qed
  have "n_cnodes (node_at c i) = 169" if "Suc i = n_bot_lvl_nodes c" for i
  proof -
    have "t = 169 * Suc i" using m e True that by auto
    then have "cnode_present c (169 * i + 168)" using before by simp
    then have "168 < n_cnodes (node_at c i)" by (simp add: cnode_present_def)
    moreover have "n_cnodes (node_at c i) \<le> 169" using nw that by (auto simp: nodes_wf_def node_wf_def)
    ultimately show ?thesis by simp
  qed
  then show ?thesis using True m e by simp
next
  case False
  have le: "n_cnodes (node_at c (t div 169)) \<le> t mod 169"
    using t False by (simp add: cnode_present_def)
  have "t mod 169 \<le> n_cnodes (node_at c (t div 169))"
  proof (cases "t mod 169 = 0")
    case nz: False
    note p = pred_in_node [OF this]
    have "(t - 1) mod 169 < n_cnodes (node_at c ((t - 1) div 169))"
      using before p(3) unfolding cnode_present_def by blast
    then have "t mod 169 - 1 < n_cnodes (node_at c (t div 169))" unfolding p .
    then show ?thesis by simp
  qed simp
  moreover have "\<not> Suc (t div 169) < n_bot_lvl_nodes c"
    using nw le mod_less_divisor [of 169 t] False unfolding nodes_wf_def by fastforce
  ultimately show ?thesis using False le by simp
qed


lemma ensure_node_result:
  assumes "ensure_node A c node used s = Some (ok, used', c', s')"
  shows "if ok then (\<exists>untyped frame. init_bot_lvl_node c node untyped frame = Some c')
    else c' = c \<or> set_node c node None = Some c'"
  using assms
  by (auto simp: ensure_node_def Let_def split_def outcome_bind split: if_splits)

lemma drop_missing_node:
  assumes "nodes_wf c" "n_bot_lvl_nodes c \<le> i" "set_node c i None = Some c'"
  shows "nodes_wf c'" "cnode_present c' = cnode_present c" "cnode_present c u \<Longrightarrow> cnode_bf c' u = cnode_bf c u"
    "length (bot_lvl_nodes c') = length (bot_lvl_nodes c)"
    "top_bf c' = top_bf c" "watermark c' = watermark c" "same_shape c c'"
proof -
  have c'': "c' = c\<lparr>bot_lvl_nodes := (bot_lvl_nodes c)[i := None]\<rparr>"
    using assms(3) by (auto simp: set_node_def outcome outcome_bind)
  have na: "k < n_bot_lvl_nodes c \<Longrightarrow> node_at c' k = node_at c k" for k
    using assms(2) by (simp add: c'' node_at_def)
  show "nodes_wf c'" using assms(1,2) na unfolding nodes_wf_def by (auto simp: c'')
  show "cnode_present c' = cnode_present c"
    using na by (auto simp: fun_eq_iff cnode_present_def c'')
  show "cnode_present c u \<Longrightarrow> cnode_bf c' u = cnode_bf c u"
    using na by (auto simp: cnode_bf_def cnode_present_def)
  show "length (bot_lvl_nodes c') = length (bot_lvl_nodes c)" "top_bf c' = top_bf c"
    "watermark c' = watermark c" "same_shape c c'"
    by (simp_all add: c'' same_shape_def)
qed

lemma ensure_cnode_result:
  assumes nw: "nodes_wf c" and t: "t < 8192" "t div 169 < n_bot_lvl_nodes c"
      "n_cnodes (node_at c (t div 169)) \<le> t mod 169"
    and r: "ensure_cnode A c (cnode_ptr t) s = Some (ok, c', s')"
  obtains untyped where
    "set_node c (t div 169) (Some ((node_at c (t div 169))\<lparr>
       cnodes := (cnodes (node_at c (t div 169)))[t mod 169 := (cnodes (node_at c (t div 169)) ! (t mod 169))\<lparr>bl_untyped := untyped\<rparr>],
       n_cnodes := n_cnodes (node_at c (t div 169)) + (if ok then 1 else 0)\<rparr>)) = Some c'"
proof -
  have "t mod 169 < length (cnodes (node_at c (t div 169)))"
    using nw t(2) by (simp add: nodes_wf_def node_wf_def)
  then show ?thesis
    using r t that get_node_at [OF nw t(2)]
    by (auto simp: ensure_cnode_def cnode_ptr_index0 Let_def outcome_bind split: prod.splits if_splits)
qed


text \<open>Two cspaces that hand out the same slots.\<close>

definition same_slots :: "cspace_t \<Rightarrow> cspace_t \<Rightarrow> bool" where
  "same_slots c d \<longleftrightarrow> same_shape c d \<and> top_bf d = top_bf c \<and> watermark d = watermark c \<and>
     length (bot_lvl_nodes d) = length (bot_lvl_nodes c) \<and> (\<forall>q. slot_taken d q \<longleftrightarrow> slot_taken c q)"

lemma wf_add_cnode:
  assumes wf: "cspace_wf c" and nt: "\<not> bf_bit (top_bf c) t"
    and d: "nodes_wf d" "top_bf d = top_bf c" "watermark d = watermark c" "same_shape c d"
      "length (bot_lvl_nodes d) = length (bot_lvl_nodes c)"
    and pr: "\<And>u. cnode_present d u \<longleftrightarrow> cnode_present c u \<or> (ok \<and> u = t)"
    and bfs: "\<And>u. cnode_present c u \<Longrightarrow> cnode_bf d u = cnode_bf c u"
    and z: "ok \<Longrightarrow> \<not> cnode_present c t \<and> cnode_bf d t = [0, 0]"
  shows "cspace_wf d \<and> same_slots c d"
proof -
  have zb: "ok \<Longrightarrow> \<not> bf_bit (cnode_bf d t) b" for b
    using z by simp
  have "\<not> bf_bit (cnode_bf d u) 127 \<and> (\<exists>b<127. \<not> bf_bit (cnode_bf d u) b)"
    if "cnode_present d u" "\<not> bf_bit (top_bf d) u" for u
  proof (cases "cnode_present c u")
    case True
    then show ?thesis using wf that bfs d(2) unfolding cspace_wf_def by auto
  next
    case False
    then have "ok" "u = t" using that(1) pr by auto
    then show ?thesis using zb by (auto intro: exI [of _ 0])
  qed
  moreover have "bf_bit (top_bf d) u \<Longrightarrow> cnode_present d u" for u
    using wf d(2) pr unfolding cspace_wf_def by auto
  ultimately have "cspace_wf d" using wf d unfolding cspace_wf_def same_shape_def by auto
  moreover have "slot_taken d q = slot_taken c q" for q
    using pr bfs z zb by (auto simp: slot_taken_def)
  ultimately show ?thesis using d by (simp add: same_slots_def)
qed

lemma same_slots_trans: "same_slots c d \<Longrightarrow> same_slots d e \<Longrightarrow> same_slots c e"
  by (auto simp: same_slots_def same_shape_def)

lemma ensure_levels_ok:
  assumes wf: "cspace_wf c" and t: "t < 64 * length (top_bf c)" "\<not> bf_bit (top_bf c) t"
      "\<forall>u < t. bf_bit (top_bf c) u" "\<not> cnode_present c t"
    and r: "ensure_levels A c (cnode_ptr t) 0 s = Some (ok, used, c', s')"
  shows "cspace_wf c' \<and> same_slots c c' \<and> (ok \<longrightarrow> cnode_present c' t \<and> cnode_bf c' t = [0, 0])"
proof -
  have nw: "nodes_wf c" and lt: "t < 8192" and two: "two_level c"
    using wf t top_slots_bound [OF wf] by (auto simp: cspace_wf_def)
  have before: "\<forall>u < t. cnode_present c u" using t(3) wf by (auto simp: cspace_wf_def)
  note pos = first_missing_position [OF nw before t(4)]
  have refl: "same_slots c c" by (simp add: same_slots_def same_shape_def)
  have cnode: "cspace_wf e \<and> same_slots d e \<and> (ok2 \<longrightarrow> cnode_present e t \<and> cnode_bf e t = [0, 0])"
    if d: "cspace_wf d" "same_slots c d" "Suc (t div 169) = n_bot_lvl_nodes d" "\<not> cnode_present d t"
      "n_cnodes (node_at d (t div 169)) = t mod 169"
      and e: "ensure_cnode A d (cnode_ptr t) s0 = Some (ok2, e, s2)" for d e s0 s2 ok2
  proof -
    have dw: "nodes_wf d" using d(1) by (simp add: cspace_wf_def)
    let ?nd = "node_at d (t div 169)"
    have ndw: "node_wf ?nd" using dw d(3) by (auto simp: nodes_wf_def)
    obtain untyped where e': "set_node d (t div 169) (Some (?nd\<lparr>cnodes := (cnodes ?nd)[t mod 169 :=
         (cnodes ?nd ! (t mod 169))\<lparr>bl_untyped := untyped\<rparr>], n_cnodes := n_cnodes ?nd + (if ok2 then 1 else 0)\<rparr>)) = Some e"
      using ensure_cnode_result [OF dw lt _ _ e] d(3,5) by auto
    let ?nd' = "?nd\<lparr>cnodes := (cnodes ?nd)[t mod 169 := (cnodes ?nd ! (t mod 169))\<lparr>bl_untyped := untyped\<rparr>],
      n_cnodes := n_cnodes ?nd + (if ok2 then 1 else 0)\<rparr>"
    have bfs: "bl_bf (cnodes ?nd' ! j) = bl_bf (cnodes ?nd ! j)" if "j < 169" for j
      using ndw that by (auto simp: node_wf_def nth_list_update)
    have ndw': "node_wf ?nd'"
      using ndw d(5) mod_less_divisor [of 169 t] bfs unfolding node_wf_def by auto
    note f = put_node_facts [OF dw _ ndw' bfs _ _ e']
    have nlt: "t div 169 < n_bot_lvl_nodes d" using d(3) by simp
    have z: "cnode_bf d t = [0, 0]" using ndw d(5) by (simp add: cnode_bf_def node_wf_def)
    have pr: "cnode_present e u \<longleftrightarrow> cnode_present d u \<or> (ok2 \<and> u = t)" for u
    proof -
      have "u div 169 = t div 169 \<Longrightarrow> u mod 169 = t mod 169 \<longleftrightarrow> u = t"
        by (metis div_mult_mod_eq)
      then show ?thesis
        using f(5) [of u] nlt d(3,5) by (auto simp: cnode_present_def less_Suc_eq)
    qed
    have "cspace_wf e \<and> same_slots d e"
      using f nlt d(3) by (intro wf_add_cnode [where ok = ok2 and t = t])
        (use d(1,2,4) t(2) z pr in \<open>auto simp: same_slots_def\<close>)
    then show ?thesis using pr f(2) nlt d(3) z by auto
  qed
  show ?thesis
  proof (cases "n_bot_lvl_nodes c \<le> t div 169")
    case False
    then obtain s2 where "ensure_cnode A c (cnode_ptr t) s = Some (ok, c', s2) \<or> (c' = c \<and> \<not> ok)"
      using r two by (auto simp: ensure_levels_def Let_def split_def cnode_ptr_index0 [OF lt] outcome_bind split: if_splits)
    then show ?thesis using cnode [OF wf refl _ t(4), of s ok c' s2] pos False wf refl by auto
  next
    case True
    then have p: "t div 169 = n_bot_lvl_nodes c" "t mod 169 = 0"
      "\<And>i. Suc i = n_bot_lvl_nodes c \<Longrightarrow> n_cnodes (node_at c i) = 169" using pos by auto
    consider "c' = c \<and> \<not> ok"
      | (fail) "set_node c (t div 169) None = Some c'" "\<not> ok"
      | (new) u f d s0 s2 where "init_bot_lvl_node c (t div 169) u f = Some d"
          "ensure_cnode A d (cnode_ptr t) s0 = Some (ok, c', s2)"
      using r two True
      by (auto simp: ensure_levels_def Let_def split_def cnode_ptr_index0 [OF lt] outcome_bind
          split: if_splits dest!: ensure_node_result)
    then show ?thesis
    proof cases
      case 1
      then show ?thesis using wf refl by simp
    next
      case fail
      have "cspace_wf c' \<and> same_slots c c'"
        using drop_missing_node [OF nw True fail(1)] t(2) wf
        by (intro wf_add_cnode [where ok = False and t = t]) auto
      then show ?thesis using fail(2) by simp
    next
      case new
      note f = add_node_facts [OF nw p(3) new(1) [unfolded p(1)]]
      have "cspace_wf d \<and> same_slots c d"
        using f t(2) wf by (intro wf_add_cnode [where ok = False and t = t]) auto
      then have d: "cspace_wf d" "same_slots c d" by auto
      have "cspace_wf c' \<and> same_slots d c' \<and> (ok \<longrightarrow> cnode_present c' t \<and> cnode_bf c' t = [0, 0])"
        using f(2,3,4) p t(4) by (intro cnode [OF d _ _ _ new(2)]) auto
      then show ?thesis using same_slots_trans d(2) by blast
    qed
  qed
qed

lemma refill_nothing [simp]: "refill_watermark f c 0 s = Some (c, s)"
proof -
  have "find (\<lambda>i. (0 :: word64) AND BIT i \<noteq> 0) [0..<WATERMARK_SLOTS] = None"
    by (simp add: find_None_iff)
  then show ?thesis by (simp add: refill_watermark_def)
qed

lemma first_top:
  assumes "cspace_wf c" "t < 64 * length (top_bf c)" "\<not> bf_bit (top_bf c) t" "\<forall>u < t. bf_bit (top_bf c) u"
  shows "bf_first_free (BITFIELD_SIZE (top_lvl_size_bits c)) (top_bf c) = Some t"
    "t < CNODE_SLOTS (top_lvl_size_bits c)" "t < 8192"
proof -
  obtain f where f: "bf_first_free (length (top_bf c)) (top_bf c) = Some f" "f \<le> t" "\<not> bf_bit (top_bf c) f"
    by (rule bf_first_free_found [OF assms(3,2)])
  then have "f = t" using assms(4) by (metis le_neq_implies_less)
  then show "bf_first_free (BITFIELD_SIZE (top_lvl_size_bits c)) (top_bf c) = Some t"
    using f(1) assms(1) by (simp add: top_bf_length)
  show "t < CNODE_SLOTS (top_lvl_size_bits c)" using assms(1,2) by (auto simp: cspace_wf_def)
  then show "t < 8192" using top_slots_bound [OF assms(1)] by simp
qed

lemma alloc_slot_present:
  assumes wf: "cspace_wf c" and t: "t < 64 * length (top_bf c)" "\<not> bf_bit (top_bf c) t"
      "\<forall>u < t. bf_bit (top_bf c) u" and pr: "cnode_present c t"
  obtains b c' where "cspace_alloc_slot A c s = Some (cnode_ptr t + word_of_nat b, c', s)" "b < 127"
    "\<not> bf_bit (cnode_bf c t) b" "\<forall>i < b. bf_bit (cnode_bf c t) i" "cspace_wf c'"
    "\<And>q. slot_taken c' q \<longleftrightarrow> slot_taken c q \<or> q = t * 128 + b"
    "watermark c' = watermark c" "same_shape c c'"
proof -
  note ft = first_top [OF wf t]
  have two: "two_level c" using wf by (simp add: cspace_wf_def)
  obtain b c' where a: "alloc_bot_slot c t (cnode_ptr t) = Some (b, c')" "b < 127"
    "\<not> bf_bit (cnode_bf c t) b" "\<forall>i < b. bf_bit (cnode_bf c t) i" "cspace_wf c'"
    "\<And>q. slot_taken c' q \<longleftrightarrow> slot_taken c q \<or> q = t * 128 + b"
    "watermark c' = watermark c" "same_shape c c'"
    by (rule alloc_bot_slot_ok [OF wf pr t(2,1)]) (rule that; assumption)
  have "cspace_alloc_slot A c s = Some (cnode_ptr t + word_of_nat b, c', s)"
    using ft two a(1) pr levels_missing_eq [OF wf ft(3)]
    by (subst cspace_alloc_slot.simps) (simp add: cnode_ptr_def)
  then show ?thesis using that a by blast
qed

lemma watermark_update_wf:
  "cspace_wf c \<Longrightarrow> length w = 4 \<Longrightarrow> cspace_wf (c\<lparr>watermark := w\<rparr>)"
  "slot_taken (c\<lparr>watermark := w\<rparr>) = slot_taken c"
  by (auto simp: cspace_wf_def slot_taken_def fun_eq_iff)

definition alloc_grants :: "cspace_t \<Rightarrow> cptr \<Rightarrow> cspace_t \<Rightarrow> bool" where
  "alloc_grants c p c' \<longleftrightarrow> cspace_wf c' \<and> same_shape c c' \<and>
     \<not> slot_taken c (unat p) \<and> slot_taken c' (unat p) \<and>
     (\<forall>q. slot_taken c q \<longrightarrow> slot_taken c' q) \<and>
     (\<forall>q. slot_taken c' q \<longrightarrow> slot_taken c q \<or> q = unat p \<or> word_of_nat q \<in> set (watermark c'))"

lemma present_grants:
  assumes "cspace_wf c" "t < 8192" "b < 127" "cnode_present c t" "\<not> bf_bit (cnode_bf c t) b"
    "cspace_wf c'" "same_shape c c'" "\<And>q. slot_taken c' q \<longleftrightarrow> slot_taken c q \<or> q = t * 128 + b"
  shows "alloc_grants c (cnode_ptr t + word_of_nat b) c'"
proof -
  have "unat (cnode_ptr t + word_of_nat b) = t * 128 + b" using assms(2,3) by (simp add: unat_cnode_ptr)
  moreover have "\<not> slot_taken c (t * 128 + b)" using assms(3,5) by (simp add: slot_taken_def)
  ultimately show ?thesis using assms by (auto simp: alloc_grants_def)
qed

lemma same_shape_top:
  "cspace_wf c \<Longrightarrow> cspace_wf d \<Longrightarrow> same_shape c d \<Longrightarrow> length (top_bf d) = length (top_bf c)"
  unfolding cspace_wf_def same_shape_def by simp

lemma same_slots_grants: "same_slots c d \<Longrightarrow> alloc_grants d p e \<Longrightarrow> alloc_grants c p e"
  by (auto simp: alloc_grants_def same_slots_def same_shape_def)

text \<open>A freshly created cnode keeps room for the watermark slot that is refilled from it.\<close>

lemma alloc_fresh_cnode:
  assumes wf: "cspace_wf c" and t: "t < 64 * length (top_bf c)" "\<not> bf_bit (top_bf c) t"
      "\<forall>u < t. bf_bit (top_bf c) u" and pr: "cnode_present c t" and z: "cnode_bf c t = [0, 0]"
    and a: "alloc_bot_slot c t (cnode_ptr t) = Some (b, c2)"
    and rf: "refill_watermark (cspace_alloc_slot A) c2 used s = Some (c', s')"
  shows "alloc_grants c (cnode_ptr t + word_of_nat b) c'"
proof -
  note ft = first_top [OF wf t]
  obtain b2 d where "alloc_bot_slot c t (cnode_ptr t) = Some (b2, d)" "b2 < 127"
    "\<not> bf_bit (cnode_bf c t) b2" "\<forall>i < b2. bf_bit (cnode_bf c t) i" "cspace_wf d"
    "\<And>q. slot_taken d q \<longleftrightarrow> slot_taken c q \<or> q = t * 128 + b2"
    "watermark d = watermark c" "same_shape c d" "cnode_present d = cnode_present c"
    "\<And>u. bf_bit (top_bf d) u \<longleftrightarrow> bf_bit (top_bf c) u \<or> (u = t \<and> (\<forall>i < 127. i \<noteq> b2 \<longrightarrow> bf_bit (cnode_bf c t) i))"
    by (rule alloc_bot_slot_ok [OF wf pr t(2,1)]) (rule that; assumption)
  note d = this(2-) and e = this(1)
  have bd: "b = b2" "c2 = d" using a e by simp_all
  have g: "alloc_grants c (cnode_ptr t + word_of_nat b) c2"
    unfolding bd by (rule present_grants [OF wf ft(3) d(1) pr d(2,4,7,5)])
  have "(if b2 = 0 then 1 else 0) < (127 :: nat)" "(if b2 = 0 then 1 else 0) \<noteq> b2" by auto
  then have "\<not> (\<forall>i < 127. i \<noteq> b2 \<longrightarrow> bf_bit (cnode_bf c t) i)" unfolding z using bf_bit_zero2 by blast
  then have t2: "\<not> bf_bit (top_bf c2) t" "\<forall>u < t. bf_bit (top_bf c2) u" "cnode_present c2 t"
    unfolding bd d(8,9) using t pr by simp_all
  have wf2: "cspace_wf c2" and len2: "t < 64 * length (top_bf c2)"
    using d(4) t(1) bd same_shape_top [OF wf d(4,7)] by simp_all
  obtain b' c3 where "cspace_alloc_slot A c2 s = Some (cnode_ptr t + word_of_nat b', c3, s)" "b' < 127"
    "\<not> bf_bit (cnode_bf c2 t) b'" "\<forall>i < b'. bf_bit (cnode_bf c2 t) i" "cspace_wf c3"
    "\<And>q. slot_taken c3 q \<longleftrightarrow> slot_taken c2 q \<or> q = t * 128 + b'"
    "watermark c3 = watermark c2" "same_shape c2 c3"
    by (rule alloc_slot_present [OF wf2 len2 t2, of A s]) (rule that; assumption)
  note c3 = this
  have wl3: "length (watermark c3) = 4" using c3(5) by (simp add: cspace_wf_def)
  show ?thesis
  proof (cases "find (\<lambda>i. used AND BIT i \<noteq> 0) [0..<WATERMARK_SLOTS]")
    case None
    then show ?thesis using g rf by (simp add: refill_watermark_def)
  next
    case (Some i)
    then have i: "i < 4" by (auto simp: find_Some_iff)
    have c': "c' = c3\<lparr>watermark := (watermark c3)[i := cnode_ptr t + word_of_nat b']\<rparr>"
      using rf Some c3(1) wl3 i by (simp add: refill_watermark_def)
    have "word_of_nat (unat (cnode_ptr t + word_of_nat b')) = cnode_ptr t + word_of_nat b'"
      by simp
    then have "word_of_nat (t * 128 + b') = cnode_ptr t + word_of_nat b'"
      using c3(2) by (subst (asm) unat_cnode_ptr [OF ft(3)]) auto
    then have w: "word_of_nat (t * 128 + b') \<in> set (watermark c')"
      using wl3 i by (simp add: c' set_update_memI)
    have "cspace_wf c'" "same_shape c c'"
      using watermark_update_wf(1) [OF c3(5)] c3(8) wl3 d(7) by (simp_all add: c' same_shape_def bd)
    moreover have "slot_taken c' q \<longleftrightarrow> slot_taken c q \<or> q = t * 128 + b \<or> q = t * 128 + b'" for q
      unfolding c' watermark_update_wf(2) c3(6) by (simp add: bd d(5))
    moreover have "unat (cnode_ptr t + word_of_nat b) = t * 128 + b"
      using d(1) bd by (intro unat_cnode_ptr [OF ft(3)]) simp
    moreover have "\<not> slot_taken c (t * 128 + b)" using z d(1) bd by (simp add: slot_taken_def)
    ultimately show ?thesis using w unfolding alloc_grants_def by simp
  qed
qed


lemma alloc_slot_result:
  assumes wf: "cspace_wf c" and r: "cspace_alloc_slot A c s = Some (p, c', s')"
  shows "alloc_grants c p c' \<or> (p = seL4_CapNull \<and> cspace_wf c' \<and> same_slots c c')"
proof -
  have two: "two_level c" using wf by (simp add: cspace_wf_def)
  have "\<not> (\<forall>b < 64 * length (top_bf c). bf_bit (top_bf c) b)"
  proof
    assume "\<forall>b < 64 * length (top_bf c). bf_bit (top_bf c) b"
    then show False
      using r top_bf_length [OF wf] by (simp add: cspace_alloc_slot.simps [of A c s] bf_first_free_full)
  qed
  then obtain t where t: "t < 64 * length (top_bf c)" "\<not> bf_bit (top_bf c) t" "\<forall>u < t. bf_bit (top_bf c) u"
    using bf_first_free_found [of "top_bf c"] by (metis le_less_trans)
  note ft = first_top [OF wf t]
  show ?thesis
  proof (cases "cnode_present c t")
    case True
    obtain b d where "cspace_alloc_slot A c s = Some (cnode_ptr t + word_of_nat b, d, s)"
      and b: "b < 127" "\<not> bf_bit (cnode_bf c t) b" "cspace_wf d" "same_shape c d"
      "\<And>q. slot_taken d q \<longleftrightarrow> slot_taken c q \<or> q = t * 128 + b"
      by (rule alloc_slot_present [OF wf t True, of A s]) (rule that; assumption)
    then show ?thesis using r present_grants [OF wf ft(3) b(1) True b(2-5)] by simp
  next
    case False
    obtain ok used c1 s1 where e: "ensure_levels A c (cnode_ptr t) 0 s = Some (ok, used, c1, s1)"
      and r1: "if ok then (\<exists>b c2. alloc_bot_slot c1 t (cnode_ptr t) = Some (b, c2) \<and>
          refill_watermark (cspace_alloc_slot A) c2 used s1 = Some (c', s') \<and> p = cnode_ptr t + word_of_nat b)
        else p = seL4_CapNull \<and> c' = c1"
      using r ft two False levels_missing_eq [OF wf ft(3)]
      by (auto simp: cspace_alloc_slot.simps [of A c s] outcome_bind Let_def cnode_ptr_def [symmetric]
          split: if_splits)
    note el = ensure_levels_ok [OF wf t False e]
    show ?thesis
    proof (cases ok)
      case True
      then obtain b c2 where "alloc_bot_slot c1 t (cnode_ptr t) = Some (b, c2)"
        "refill_watermark (cspace_alloc_slot A) c2 used s1 = Some (c', s')" "p = cnode_ptr t + word_of_nat b"
        using r1 by auto
      moreover have "cspace_wf c1" "same_slots c c1" "cnode_present c1 t" "cnode_bf c1 t = [0, 0]"
        using el True by auto
      moreover from this(2) have "top_bf c1 = top_bf c" by (simp add: same_slots_def)
      ultimately have "alloc_grants c1 p c'" using t by (metis alloc_fresh_cnode)
      then show ?thesis using same_slots_grants \<open>same_slots c c1\<close> by blast
    qed (use r1 el in simp)
  qed
qed

lemma cspace_wf_top: "cspace_wf c \<Longrightarrow> bf_bit (top_bf c) t \<Longrightarrow> cnode_present c t"
  unfolding cspace_wf_def by blast

lemma cspace_wf_room:
  "cspace_wf c \<Longrightarrow> cnode_present c t \<Longrightarrow> \<not> bf_bit (top_bf c) t \<Longrightarrow>
     \<not> bf_bit (cnode_bf c t) 127 \<and> (\<exists>b < 127. \<not> bf_bit (cnode_bf c t) b)"
  unfolding cspace_wf_def by blast

lemma cspace_wf_transfer:
  assumes "cspace_wf c" "same_shape c d" "length (top_bf d) = length (top_bf c)"
    "length (watermark d) = length (watermark c)" "length (bot_lvl_nodes d) = length (bot_lvl_nodes c)"
    "nodes_wf d" "\<And>t. bf_bit (top_bf d) t \<Longrightarrow> cnode_present d t"
    "\<And>t. cnode_present d t \<Longrightarrow> \<not> bf_bit (top_bf d) t \<Longrightarrow>
       \<not> bf_bit (cnode_bf d t) 127 \<and> (\<exists>b < 127. \<not> bf_bit (cnode_bf d t) b)"
  shows "cspace_wf d"
proof -
  have "two_level d \<and> length (watermark d) = 4 \<and> 11 \<le> top_lvl_size_bits d \<and> top_lvl_size_bits d \<le> 18 \<and>
     64 * length (top_bf d) = CNODE_SLOTS (top_lvl_size_bits d) \<and>
     CNODE_SLOTS (top_lvl_size_bits d) \<le> 169 * length (bot_lvl_nodes d)"
    using assms(1-5) unfolding cspace_wf_def same_shape_def by (elim conjE) simp
  then show ?thesis unfolding cspace_wf_def using assms(6-8) by blast
qed

lemma free_slot_result:
  assumes wf: "cspace_wf c" and p: "slot_taken c (unat p)" "p \<noteq> seL4_CapNull"
    "unat p mod 128 < 127" "unat p div 128 < CNODE_SLOTS (top_lvl_size_bits c)"
    and own: "\<not> bf_bit (cnode_bf c (unat p div 128)) 127"
  obtains c' where "cspace_free_slot c p = Some c'" "cspace_wf c'" "same_shape c c'"
    "watermark c' = watermark c" "\<And>q. slot_taken c' q \<longleftrightarrow> slot_taken c q \<and> q \<noteq> unat p"
proof -
  define t b where "t = unat p div 128" and "b = unat p mod 128"
  have up: "unat p = t * 128 + b" and b: "b < 127" and pr: "cnode_present c t" and bb: "bf_bit (cnode_bf c t) b"
    using p by (auto simp: t_def b_def slot_taken_def)
  have own': "\<not> bf_bit (cnode_bf c t) 127" using own by (simp add: t_def)
  have nw: "nodes_wf c" and tl: "t < 64 * length (top_bf c)" and lt: "t < 8192" and two: "two_level c"
    using wf p(4) top_slots_bound [OF wf] by (auto simp: cspace_wf_def t_def)
  have "p = cnode_ptr t + word_of_nat b"
    by (rule word_unat_eq_iff [THEN iffD2]) (use up unat_cnode_ptr [OF lt, of b] b in simp)
  then have ix: "NODE_INDEX p = t div 169" "CNODE_INDEX p = t mod 169" "TOP_LVL_INDEX p = t" "BOT_LVL_INDEX p = b"
    using cnode_ptr_index [OF lt, of b] b by auto
  have len: "length (cnode_bf c t) = 2" using nw pr by (rule cnode_bf_length)
  obtain tb where tb: "bf_clr_bit (top_bf c) t = Some tb" "length tb = length (top_bf c)"
    "\<And>u. bf_bit tb u \<longleftrightarrow> u \<noteq> t \<and> bf_bit (top_bf c) u"
    by (rule bf_clr_bit_ok [OF tl]) (rule that; assumption)
  obtain bf where bf: "bf_clr_bit (cnode_bf c t) b = Some bf" "length bf = 2"
    "\<And>i. bf_bit bf i \<longleftrightarrow> i \<noteq> b \<and> bf_bit (cnode_bf c t) i"
  proof -
    have "b < 64 * length (cnode_bf c t)" using b len by simp
    then show ?thesis by (rule bf_clr_bit_ok) (rule that, assumption, simp add: len, assumption)
  qed
  define c' where "c' = (set_cnode_bf c t bf)\<lparr>top_bf := tb\<rparr>"
  note sf = set_cnode_bf_facts [OF nw pr bf(2)]
  have i: "t div 169 < n_bot_lvl_nodes c" "t div 169 < length (bot_lvl_nodes c)"
    "t mod 169 < n_cnodes (node_at c (t div 169))" "t mod 169 < length (cnodes (node_at c (t div 169)))"
    using nw pr by (auto simp: nodes_wf_def cnode_present_def node_wf_def)
  have g: "get_node (c\<lparr>top_bf := tb\<rparr>) (t div 169) = Some (node_at c (t div 169))"
    using get_node_at [OF nw i(1)] by (simp add: get_node_def)
  have "cspace_free_slot c p = Some c'"
  proof -
    have "cspace_free_slot c p = set_node (c\<lparr>top_bf := tb\<rparr>) (t div 169) (Some ((node_at c (t div 169))\<lparr>
        cnodes := (cnodes (node_at c (t div 169)))[t mod 169 :=
          (cnodes (node_at c (t div 169)) ! (t mod 169))\<lparr>bl_bf := bf\<rparr>]\<rparr>))"
      unfolding cspace_free_slot_def ix
      by (simp only: p(2) two tb(1) if_False if_True not_True_eq_False Option.bind.simps Let_def g)
       (simp add: i bf(1) [unfolded cnode_bf_def])
    then show ?thesis using i(2) by (simp add: set_node_eq c'_def set_cnode_bf_def)
  qed
  moreover have "cspace_wf c'"
  proof -
    have room: "\<not> bf_bit (cnode_bf c' u) 127 \<and> (\<exists>b<127. \<not> bf_bit (cnode_bf c' u) b)"
      if "cnode_present c' u" "\<not> bf_bit (top_bf c') u" for u
    proof (cases "u = t")
      case True
      then have "cnode_bf c' u = bf" by (simp add: c'_def sf)
      then show ?thesis using own' b bf(3) by auto
    next
      case False
      then show ?thesis using that cspace_wf_room [OF wf, of u] by (simp add: c'_def sf tb(3))
    qed
    have top: "bf_bit (top_bf c') u \<Longrightarrow> cnode_present c' u" for u
      using cspace_wf_top [OF wf, of u] by (simp add: c'_def sf tb(3))
    have nw': "nodes_wf c'" by (simp add: c'_def sf)
    have sh: "same_shape c c'" "length (top_bf c') = length (top_bf c)"
      "length (watermark c') = length (watermark c)"
      "length (bot_lvl_nodes c') = length (bot_lvl_nodes c)"
      by (simp_all add: c'_def same_shape_def tb(2))
    show ?thesis by (rule cspace_wf_transfer [OF wf sh nw' top room])
  qed
  moreover have "slot_taken c' q \<longleftrightarrow> slot_taken c q \<and> q \<noteq> unat p" for q
  proof -
    have "q = t * 128 + b \<longleftrightarrow> q div 128 = t \<and> q mod 128 = b" using b by (intro split_slot) simp
    then show ?thesis unfolding up using bf(3) by (auto simp: slot_taken_def c'_def sf)
  qed
  moreover have "same_shape c c'" "watermark c' = watermark c" by (simp_all add: c'_def same_shape_def)
  ultimately show ?thesis using that by blast
qed

section \<open>One-level cspaces\<close>

definition cspace1_wf :: "cspace_t \<Rightarrow> bool" where
  "cspace1_wf c \<longleftrightarrow> \<not> two_level c \<and> top_lvl_size_bits c = CNODE_SIZE_BITS \<and> length (top_bf c) = 2"

definition slot1_taken :: "cspace_t \<Rightarrow> nat \<Rightarrow> bool" where
  "slot1_taken c p \<longleftrightarrow> bf_bit (top_bf c) p"

lemma alloc1_free:
  assumes wf: "cspace1_wf c" and q: "q < 128" "\<not> slot1_taken c q"
  obtains p c' where "cspace_alloc_slot A c s = Some (word_of_nat p, c', s)" "p \<le> q" "cspace1_wf c'"
    "\<not> slot1_taken c p" "\<And>r. slot1_taken c' r \<longleftrightarrow> slot1_taken c r \<or> r = p"
    "\<forall>r < p. slot1_taken c r"
proof -
  have q': "q < 64 * length (top_bf c)" "\<not> bf_bit (top_bf c) q"
    using wf q by (simp_all add: cspace1_wf_def slot1_taken_def)
  obtain p t where p: "bf_first_free (length (top_bf c)) (top_bf c) = Some p" "bf_set_bit (top_bf c) p = Some t"
    "p \<le> q" "\<not> bf_bit (top_bf c) p" "length t = length (top_bf c)"
    "\<And>r. bf_bit t r \<longleftrightarrow> r = p \<or> bf_bit (top_bf c) r" "\<forall>r < p. bf_bit (top_bf c) r"
    using bf.take_first [OF q'] by auto
  have "cspace_alloc_slot A c s = Some (word_of_nat p, c\<lparr>top_bf := t\<rparr>, s)"
    using wf p q by (simp add: cspace_alloc_slot.simps [of A c s] cspace1_wf_def)
  then show ?thesis
    using that [of p "c\<lparr>top_bf := t\<rparr>"] p wf by (auto simp: cspace1_wf_def slot1_taken_def)
qed

lemma alloc1_full:
  assumes "cspace1_wf c" "\<forall>q < 128. slot1_taken c q"
  shows "cspace_alloc_slot A c s = None"
  using assms bf_first_free_full [of "top_bf c"]
  by (simp add: cspace_alloc_slot.simps [of A c s] cspace1_wf_def slot1_taken_def)

lemma free1_result:
  assumes wf: "cspace1_wf c" and p: "slot1_taken c (unat p)" "p \<noteq> seL4_CapNull"
  obtains c' where "cspace_free_slot c p = Some c'" "cspace1_wf c'"
    "\<And>q. slot1_taken c' q \<longleftrightarrow> slot1_taken c q \<and> q \<noteq> unat p"
proof -
  have lt: "unat p < 64 * length (top_bf c)" using p by (simp add: slot1_taken_def bf_bit_def)
  obtain t where t: "bf_clr_bit (top_bf c) (unat p) = Some t" "length t = length (top_bf c)"
    "\<And>q. bf_bit t q \<longleftrightarrow> q \<noteq> unat p \<and> bf_bit (top_bf c) q"
    by (rule bf_clr_bit_ok [OF lt]) (rule that; assumption)
  have "cspace_free_slot c p = Some (c\<lparr>top_bf := t\<rparr>)"
    using wf t p lt by (simp add: cspace_free_slot_def cspace1_wf_def)
  then show ?thesis using that [of "c\<lparr>top_bf := t\<rparr>"] wf t by (auto simp: cspace1_wf_def slot1_taken_def)
qed

section \<open>The contract of a slot allocator\<close>

text \<open>\<open>n\<close> allocations in a row, with the slots in the order they were handed out.\<close>

primrec alloc_n :: "('c \<Rightarrow> 's \<Rightarrow> (cptr \<times> 'c \<times> 's) option) \<Rightarrow> nat \<Rightarrow> 'c \<Rightarrow> 's \<Rightarrow> (cptr list \<times> 'c \<times> 's) option" where
  "alloc_n f 0 c s = Some ([], c, s)"
| "alloc_n f (Suc n) c s = do {
     (p, c, s) \<leftarrow> f c s;
     (ps, c, s) \<leftarrow> alloc_n f n c s;
     Some (p # ps, c, s) }"

lemma alloc_n_2:
  "alloc_n f 2 c s = do {
     (p, c, s) \<leftarrow> f c s;
     (q, c, s) \<leftarrow> f c s;
     Some ([p, q], c, s) }"
  by (simp add: numeral_2_eq_2 split_def)

locale slot_allocator =
  fixes alloc_slot :: "'c \<Rightarrow> 's \<Rightarrow> (cptr \<times> 'c \<times> 's) option"
    and taken :: "'c \<Rightarrow> nat \<Rightarrow> bool"
    and wf :: "'c \<Rightarrow> bool"
  assumes alloc_wf: "wf c \<Longrightarrow> alloc_slot c s = Some (p, c', s') \<Longrightarrow> wf c'"
    and alloc_keeps: "wf c \<Longrightarrow> alloc_slot c s = Some (p, c', s') \<Longrightarrow> taken c q \<Longrightarrow> taken c' q"
    and alloc_fresh: "wf c \<Longrightarrow> alloc_slot c s = Some (p, c', s') \<Longrightarrow> p \<noteq> seL4_CapNull \<Longrightarrow>
      \<not> taken c (unat p) \<and> taken c' (unat p)"
begin

lemma alloc_n_fresh:
  assumes "wf c" "alloc_n alloc_slot n c s = Some (ps, c', s')"
  shows "wf c' \<and> (\<forall>q. taken c q \<longrightarrow> taken c' q) \<and>
    (\<forall>p \<in> set ps. p \<noteq> seL4_CapNull \<longrightarrow> \<not> taken c (unat p) \<and> taken c' (unat p)) \<and>
    distinct (filter (\<lambda>p. p \<noteq> seL4_CapNull) ps)"
  using assms
proof (induction n arbitrary: c s ps)
  case (Suc n)
  then obtain p c1 s1 qs where p: "alloc_slot c s = Some (p, c1, s1)"
    "alloc_n alloc_slot n c1 s1 = Some (qs, c', s')" "ps = p # qs"
    by (auto simp: outcome_bind)
  have w: "wf c1" and k: "\<And>q. taken c q \<Longrightarrow> taken c1 q"
    using alloc_wf alloc_keeps p(1) Suc.prems(1) by blast+
  note ih = Suc.IH [OF w p(2)]
  have "p \<noteq> seL4_CapNull \<Longrightarrow> \<not> taken c (unat p) \<and> taken c1 (unat p)"
    using alloc_fresh p(1) Suc.prems(1) by blast
  then show ?case using ih k p(3) by auto
qed simp

end

interpretation cs2: slot_allocator "cspace_alloc_slot A" slot_taken "\<lambda>c. cspace_wf c \<and> slot_taken c 0" for A
proof (unfold_locales, goal_cases)
  case (1 c s p c' s')
  then show ?case using alloc_slot_result [of c A s p c' s'] by (auto simp: alloc_grants_def same_slots_def)
next
  case (2 c s p c' s' q)
  then show ?case using alloc_slot_result [of c A s p c' s'] by (auto simp: alloc_grants_def same_slots_def)
next
  case (3 c s p c' s')
  then show ?case using alloc_slot_result [of c A s p c' s'] by (auto simp: alloc_grants_def)
qed

lemma alloc1_result:
  assumes "cspace1_wf c" "cspace_alloc_slot A c s = Some (p, c', s')"
  shows "cspace1_wf c' \<and> unat p < 128 \<and> \<not> slot1_taken c (unat p) \<and>
    (\<forall>r. slot1_taken c' r \<longleftrightarrow> slot1_taken c r \<or> r = unat p)"
proof -
  obtain q where q: "q < 128" "\<not> slot1_taken c q" using alloc1_full [OF assms(1), of A s] assms(2) by (metis option.distinct(1))
  obtain p0 d where "cspace_alloc_slot A c s = Some (word_of_nat p0, d, s)" "p0 \<le> q" "cspace1_wf d"
    "\<not> slot1_taken c p0" "\<And>r. slot1_taken d r \<longleftrightarrow> slot1_taken c r \<or> r = p0"
    by (rule alloc1_free [OF assms(1) q, of A s]) (rule that; assumption)
  then show ?thesis using assms(2) q(1) by (simp add: unat_of_nat64)
qed

interpretation cs1: slot_allocator "cspace_alloc_slot A" slot1_taken cspace1_wf for A
proof (unfold_locales, goal_cases)
  case (1 c s p c' s')
  then show ?case using alloc1_result by blast
next
  case (2 c s p c' s' q)
  then show ?case using alloc1_result by blast
next
  case (3 c s p c' s')
  then show ?case using alloc1_result by blast
qed

lemma create_root_target:
  assumes "create_root A B t c s = Some (CSPACE_NOERROR, t', c', s')"
  shows "\<exists>u r. t' = t\<lparr>cs_untyped := u, root_cnode := r\<rparr>"
  using assms
  by (auto simp: create_root_def create_fail_def split_def Let_def outcome_bind split: if_splits)


lemma create_one_level_steps:
  assumes "cspace_create_one_level B c s = Some (CSPACE_NOERROR, t, c', s')"
  obtains u r s1 where "cspace_alloc_slot no_alloc (zero_cspace\<lparr>has_bootstrap := True,
      top_lvl_size_bits := CNODE_SIZE_BITS, top_bf := [0, 0], cs_untyped := u, root_cnode := r\<rparr>) s1
      = Some (seL4_CapNull, t, s')"
proof -
  let ?t = "zero_cspace\<lparr>two_level := False, has_bootstrap := True, has_alloc := False,
      top_lvl_size_bits := CNODE_SIZE_BITS, top_bf := [0, 0]\<rparr>"
  obtain t1 c1 s1 s0 where r: "create_root no_alloc B ?t c s0 = Some (CSPACE_NOERROR, t1, c1, s1)"
    and f: "create_first_slots no_alloc 0 t1 c1 s1 = Some (CSPACE_NOERROR, t, c', s')"
    using assms
    by (auto simp: cspace_create_one_level_def cspace_create_def Let_def split_def outcome_bind
        numeral_2_eq_2 split: if_splits)
  obtain u r where t1: "t1 = ?t\<lparr>cs_untyped := u, root_cnode := r\<rparr>" using create_root_target [OF r] by blast
  obtain t2 s2 where "cspace_alloc_slot no_alloc t1 s1 = Some (seL4_CapNull, t2, s2)" "two_level t2 \<or> (t2 = t \<and> s2 = s')"
    using f by (auto simp: create_first_slots_def outcome_bind split_def split: if_splits)
  moreover have "\<not> two_level t2"
    using alloc1_result [of t1 no_alloc s1] calculation(1) by (auto simp: t1 cspace1_wf_def zero_cspace_def)
  ultimately show ?thesis using that t1 by (simp add: zero_cspace_def)
qed


section \<open>Examples\<close>

definition cspace_example :: cspace_t where
  "cspace_example = \<lparr>root_cnode = 2, two_level = True, top_lvl_size_bits = 11, top_bf = [0],
     bot_lvl_nodes = [Some \<lparr>n_cnodes = 1, bn_untyped = 1, bn_frame = 1,
       cnodes = \<lparr>bl_bf = [3, 0], bl_untyped = 1\<rparr> # replicate 168 \<lparr>bl_bf = [0, 0], bl_untyped = 0\<rparr>\<rparr>],
     n_bot_lvl_nodes = 1, cs_untyped = 0, has_bootstrap = False, has_alloc = True,
     watermark = [0, 0, 0, 0]\<rparr>"

definition machine_example :: machine where
  "machine_example = \<lparr>klog = [], kresp = (\<lambda>l. case l of C_malloc _ # _ \<Rightarrow> 4096 | _ \<Rightarrow> 0), mem = (\<lambda>_. 0)\<rparr>"

lemma cspace_example_bits:
  "bf_bit [3, 0] b \<longleftrightarrow> b = 0 \<or> b = 1"
proof (cases "b < 64")
  case True
  then show ?thesis by (cases b) (auto simp: bf_bit_def bit_Suc bit_numeral_rec bit_1_iff)
next
  case False
  then show ?thesis by (auto simp: bf_bit_def nth_Cons')
qed

lemma cspace_example_nth: "j < 169 \<Longrightarrow>
  (\<lparr>bl_bf = [3, 0], bl_untyped = 1\<rparr> # replicate 168 \<lparr>bl_bf = [0, 0], bl_untyped = 0\<rparr>) ! j =
    (if j = 0 then \<lparr>bl_bf = [3, 0], bl_untyped = 1\<rparr> else \<lparr>bl_bf = [0, 0], bl_untyped = 0 :: word64\<rparr>)"
  by (cases j) auto

lemma cspace_example_present: "cnode_present cspace_example t \<longleftrightarrow> t = 0"
  by (auto simp: cnode_present_def cspace_example_def node_at_def)

lemma cspace_example_bf: "cnode_bf cspace_example 0 = [3, 0]"
  by (simp add: cnode_bf_def cspace_example_def node_at_def)

lemma cspace_example_wf: "cspace_wf cspace_example" "slot_taken cspace_example 0"
   "slot_taken cspace_example 1"
proof -
  note b = cspace_example_bf
  have t: "\<not> bf_bit (top_bf cspace_example) t" for t
    using bf_bit_zero [of 1 t] by (simp add: cspace_example_def)
  have "nodes_wf cspace_example"
    by (simp add: nodes_wf_def cspace_example_def node_at_def node_wf_def cspace_example_nth)
  moreover have "\<not> bf_bit [3, 0] 127 \<and> (\<exists>b<127. \<not> bf_bit [3, 0] b)"
    by (simp add: cspace_example_bits exI [of _ 2])
  ultimately show "cspace_wf cspace_example"
    using t b unfolding cspace_wf_def cspace_example_present
    by (simp add: cspace_example_def CNODE_SLOTS_def CNODE_SLOT_BITS_def)
  show "slot_taken cspace_example 0" "slot_taken cspace_example 1"
    by (simp_all add: slot_taken_def cspace_example_present b cspace_example_bits)
qed


definition alloc_example :: "machine cspace_alloc_t" where
  "alloc_example = \<lparr>map_frame_fn = (\<lambda>c f w u s. Some (4096, u, s)), alloc_4k_ut_fn = (\<lambda>s. Some (1, 7, s)),
     free_4k_ut_fn = (\<lambda>u s. Some s)\<rparr>"



lemmas bf_eval = bf_first_free_def bf_first_free_loop.simps bf_set_bit_def bf_clr_bit_def WORD_INDEX_def
  BIT_INDEX_def BIT_def

lemmas cspace_eval = cspace_alloc_slot.simps bf_eval CNODE_SLOTS_def CNODE_SLOT_BITS_def BITFIELD_SIZE_def
  Let_def levels_missing_def get_node_def alloc_bot_slot_def NODE_INDEX_def CNODE_INDEX_def
  TOP_LVL_INDEX_def BOT_LVL_INDEX_def set_node_def cspace_free_slot_def

section \<open>Properties\<close>

text \<open>
  C4. Every slot a two-level cspace hands out was free and is taken afterwards, no other slot
  becomes free, the invariant is kept, and \<open>n\<close> allocations in a row never return the same slot
  twice, whatever the allocation callbacks answer and however many levels have to be created.
\<close>

theorem cspace_alloc_slot_fresh:
  assumes "cspace_wf c" "slot_taken c 0" "alloc_n (cspace_alloc_slot A) n c s = Some (ps, c', s')"
  shows "cspace_wf c' \<and> (\<forall>q. slot_taken c q \<longrightarrow> slot_taken c' q) \<and>
    (\<forall>p \<in> set ps. p \<noteq> seL4_CapNull \<longrightarrow> \<not> slot_taken c (unat p) \<and> slot_taken c' (unat p)) \<and>
    distinct (filter (\<lambda>p. p \<noteq> seL4_CapNull) ps)"
  using cs2.alloc_n_fresh [of c A n s ps c' s'] assms by blast

theorem cspace_alloc_slot_fresh_witness:
  "\<exists>c' s'. alloc_n (cspace_alloc_slot alloc_example) 2 cspace_example machine_example = Some ([2, 3], c', s') \<and>
     \<not> slot_taken cspace_example 3 \<and> slot_taken c' 2 \<and> slot_taken c' 3 \<and> slot_taken c' 1"
proof -
  obtain r where r: "alloc_n (cspace_alloc_slot alloc_example) 2 cspace_example machine_example = Some r"
    "fst r = [2, 3]"
    unfolding alloc_n_2 by (simp add: cspace_example_def alloc_example_def machine_example_def cspace_eval)
  obtain c' s' where e: "r = ([2, 3], c', s')" using r(2) by (cases r) auto
  show ?thesis
    using cspace_alloc_slot_fresh [OF cspace_example_wf(1,2) r(1) [unfolded e]] cspace_example_wf r(1) e
    by auto
qed

text \<open>
  C5. Freeing a slot that a two-level cspace handed out makes that slot free and no other, and
  keeps the invariant, provided slot 127 of its cnode was never taken: the allocator itself
  never takes that slot.
\<close>

theorem cspace_free_slot_correct:
  assumes "cspace_wf c" "slot_taken c (unat p)" "p \<noteq> seL4_CapNull" "unat p mod 128 < 127"
    "unat p div 128 < CNODE_SLOTS (top_lvl_size_bits c)" "\<not> bf_bit (cnode_bf c (unat p div 128)) 127"
  shows "\<exists>c'. cspace_free_slot c p = Some c' \<and> cspace_wf c' \<and>
    (\<forall>q. slot_taken c' q \<longleftrightarrow> slot_taken c q \<and> q \<noteq> unat p)"
  by (rule free_slot_result [OF assms]) blast

theorem cspace_free_slot_correct_witness:
  "\<exists>c'. cspace_free_slot cspace_example 1 = Some c' \<and> cspace_wf c' \<and> \<not> slot_taken c' 1 \<and> slot_taken c' 0"
proof -
  have "CNODE_SLOTS (top_lvl_size_bits cspace_example) = 64"
    by (simp add: cspace_example_def CNODE_SLOTS_def CNODE_SLOT_BITS_def)
  then obtain c' where "cspace_free_slot cspace_example 1 = Some c'" "cspace_wf c'"
    "\<forall>q. slot_taken c' q \<longleftrightarrow> slot_taken cspace_example q \<and> q \<noteq> 1"
    using cspace_free_slot_correct [of cspace_example 1] cspace_example_wf
    by (simp add: cspace_example_bf cspace_example_bits) metis
  then show ?thesis using cspace_example_wf(2) by auto
qed

text \<open>
  C6. A one-level cspace hands out its least free slot; when all 128 slots are taken, the call
  does not return the null slot but reads past the end of the bit field.
\<close>

theorem cspace_alloc_slot_one_level:
  assumes "cspace1_wf c"
  shows "if \<exists>q < 128. \<not> slot1_taken c q
    then \<exists>p c'. cspace_alloc_slot A c s = Some (word_of_nat p, c', s) \<and> cspace1_wf c' \<and> p < 128 \<and>
      \<not> slot1_taken c p \<and> (\<forall>r < p. slot1_taken c r) \<and>
      (\<forall>r. slot1_taken c' r \<longleftrightarrow> slot1_taken c r \<or> r = p)
    else cspace_alloc_slot A c s = None"
proof (cases "\<exists>q < 128. \<not> slot1_taken c q")
  case True
  then obtain q where q: "q < 128" "\<not> slot1_taken c q" by blast
  obtain p c' where "cspace_alloc_slot A c s = Some (word_of_nat p, c', s)" "p \<le> q" "cspace1_wf c'"
    "\<not> slot1_taken c p" "\<And>r. slot1_taken c' r \<longleftrightarrow> slot1_taken c r \<or> r = p" "\<forall>r < p. slot1_taken c r"
    by (rule alloc1_free [OF assms q, of A s]) (rule that; assumption)
  then show ?thesis using True q(1) by (auto intro!: exI [of _ p])
next
  case False
  then have "\<forall>q < 128. slot1_taken c q" by blast
  then show ?thesis unfolding if_not_P [OF False] by (rule alloc1_full [OF assms])
qed

theorem cspace_alloc_slot_one_level_witness:
  "\<exists>c'. cspace_alloc_slot no_alloc (zero_cspace\<lparr>top_lvl_size_bits := CNODE_SIZE_BITS, top_bf := [3, 0]\<rparr>)
      machine_example = Some (2, c', machine_example) \<and> slot1_taken c' 2"
proof -
  let ?c = "zero_cspace\<lparr>top_lvl_size_bits := CNODE_SIZE_BITS, top_bf := [3, 0]\<rparr>"
  have w: "cspace1_wf ?c" by (simp add: cspace1_wf_def zero_cspace_def)
  have t: "slot1_taken ?c q \<longleftrightarrow> q = 0 \<or> q = 1" for q by (simp add: slot1_taken_def cspace_example_bits)
  have "\<exists>q < 128. \<not> slot1_taken ?c q" by (auto simp: t intro!: exI [of _ 2])
  then obtain p c' where p: "cspace_alloc_slot no_alloc ?c machine_example = Some (word_of_nat p, c', machine_example)"
    "\<not> slot1_taken ?c p" "\<forall>r < p. slot1_taken ?c r" "\<forall>r. slot1_taken c' r \<longleftrightarrow> slot1_taken ?c r \<or> r = p"
    using cspace_alloc_slot_one_level [OF w, of no_alloc machine_example] by auto
  have "p \<noteq> 0" "p \<noteq> 1" "\<not> 2 < p" using p(2) p(3) [rule_format, of 2] unfolding t by auto
  then have "p = 2" by simp
  then show ?thesis using p by auto
qed

text \<open>
  A one-level cspace that \<open>cspace_create_one_level\<close> reports as created has its invariant and
  exactly one slot taken, the null slot, which is therefore never handed out.
\<close>

theorem cspace_create_one_level_correct:
  assumes "cspace_create_one_level B c s = Some (CSPACE_NOERROR, t, c', s')"
  shows "cspace1_wf t \<and> (\<forall>q. slot1_taken t q \<longleftrightarrow> q = 0)"
proof -
  obtain u r s1 where a: "cspace_alloc_slot no_alloc (zero_cspace\<lparr>has_bootstrap := True,
      top_lvl_size_bits := CNODE_SIZE_BITS, top_bf := [0, 0], cs_untyped := u, root_cnode := r\<rparr>) s1
      = Some (seL4_CapNull, t, s')"
    by (rule create_one_level_steps [OF assms])
  show ?thesis
    using alloc1_result [OF _ a] by (simp add: cspace1_wf_def zero_cspace_def slot1_taken_def)
qed

theorem cspace_create_one_level_correct_witness:
  "\<exists>t c' s'. cspace_create_one_level alloc_example cspace_example machine_example =
      Some (CSPACE_NOERROR, t, c', s') \<and> slot1_taken t 0 \<and> \<not> slot1_taken t 1"
proof -
  obtain r where r: "cspace_create_one_level alloc_example cspace_example machine_example = Some r" "fst r = CSPACE_NOERROR"
    by (simp add: cspace_create_one_level_def cspace_create_def create_root_def create_first_slots_def
       cspace_example_def alloc_example_def machine_example_def zero_cspace_def malloc_def kinvoke_def retype_helper_def
       alloc_4k_untyped_def cspace_untyped_retype_def cspace_mint_def cspace_delete_def cspace_eval)
  obtain t c' s' where e: "r = (CSPACE_NOERROR, t, c', s')" using r(2) by (cases r) auto
  show ?thesis using cspace_create_one_level_correct [OF r(1) [unfolded e]] r(1) e by auto
qed

end
