(* ===== verification/Ut_Alloc.thy ===== *)
theory Ut_Alloc
  imports Mapping
begin

text \<open>
  The allocator of untypeds of every size up to 4K, \<open>ut_alloc\<close> and \<open>alloc_retype\<close> of
  \<open>sos/src/ut/ut.c\<close>: a request for a size whose list is empty splits an untyped of the next
  size in two.
\<close>

section \<open>Definitions\<close>

primrec push_structures :: "word64 list \<Rightarrow> 'a ut \<Rightarrow> 'a ut option" where
  "push_structures [] s = Some s"
| "push_structures (p # ps) s = do { s \<leftarrow> push_structure p s; push_structures ps s }"

definition structures_at :: "word64 \<Rightarrow> word64 list" where
  "structures_at new_uts = map (\<lambda>i. new_uts + word_of_nat i * sizeof_ut_t) [0..<256]"

definition ensure_new_structures :: "'a ut \<Rightarrow> (bool \<times> 'a ut) option" where
  "ensure_new_structures s = do {
     low \<leftarrow> (if free_structures (ut_table s) = 0 then Some True
            else do { u \<leftarrow> get_ut s (free_structures (ut_table s)); Some (ut_next u = 0) });
     if low then do {
       (frame, _, s) \<leftarrow> ut_alloc_4k_untyped s;
       if frame = 0 then Some (False, s)
       else do {
         (p, s) \<leftarrow> alloc_slot s;
         if p = seL4_CapNull then Some (False, s)
         else do {
           u \<leftarrow> get_ut s frame;
           let (err, s) = cspace_untyped_retype (cspace s) (ut_cap u) p seL4_ARM_SmallPageObject seL4_PageBits s;
           if err \<noteq> 0 then Some (False, s)
           else do {
             (new_uts, s) \<leftarrow> bootstrap_map_frame p s;
             if new_uts = 0 then Some (False, s)
             else do { s \<leftarrow> push_structures (structures_at new_uts) s; Some (True, s) } } } } }
     else Some (True, s) }"

definition set_cap :: "word64 \<Rightarrow> cptr \<Rightarrow> 'a ut \<Rightarrow> 'a ut option" where
  "set_cap p c s = do { u \<leftarrow> get_ut s p; Some (set_ut s p (u\<lparr>ut_cap := c\<rparr>)) }"

definition cap_of :: "word64 \<Rightarrow> 'a ut \<Rightarrow> cptr option" where
  "cap_of p s = do { u \<leftarrow> get_ut s p; Some (ut_cap u) }"

text \<open>
  The part of \<open>ut_alloc\<close> that splits \<open>larger\<close>. Every error path gives \<open>larger\<close> back with
  \<open>ut_free(larger, seL4_PageBits)\<close>, whatever its size.
\<close>

definition split_fail :: "word64 \<Rightarrow> 'a ut \<Rightarrow> (bool \<times> 'a ut) option" where
  "split_fail larger s = do { s \<leftarrow> ut_free larger seL4_PageBits s; Some (False, s) }"

definition ut_split_retype :: "nat \<Rightarrow> word64 \<Rightarrow> word64 \<Rightarrow> word64 \<Rightarrow> 'a ut \<Rightarrow> (bool \<times> 'a ut) option" where
  "ut_split_retype size_bits larger new1 new2 s = do {
     lc \<leftarrow> cap_of larger s;
     cap1 \<leftarrow> cap_of new1 s;
     cap2 \<leftarrow> cap_of new2 s;
     let (err, s) = cspace_untyped_retype (cspace s) lc cap1 seL4_UntypedObject size_bits s;
     if err \<noteq> 0 then do {
       s \<leftarrow> free_slot cap1 s;
       s \<leftarrow> free_slot cap2 s;
       s \<leftarrow> push_structure new1 s;
       split_fail larger s }
     else do {
       let (err, s) = cspace_untyped_retype (cspace s) lc cap2 seL4_UntypedObject size_bits s;
       if err \<noteq> 0 then do {
         let (_, s) = cspace_delete (cspace s) cap1 s;
         s \<leftarrow> free_slot cap1 s;
         s \<leftarrow> free_slot cap2 s;
         s \<leftarrow> push_structure new1 s;
         s \<leftarrow> push_structure new2 s;
         split_fail larger s }
       else do {
         s \<leftarrow> push_untyped (SIZE_BITS_TO_INDEX size_bits) new1 s;
         s \<leftarrow> push_untyped (SIZE_BITS_TO_INDEX size_bits) new2 s;
         Some (True, s) } } }"

definition ut_split :: "nat \<Rightarrow> word64 \<Rightarrow> 'a ut \<Rightarrow> (bool \<times> 'a ut) option" where
  "ut_split size_bits larger s = do {
     (ok, s) \<leftarrow> ensure_new_structures s;
     if \<not> ok then split_fail larger s
     else do {
       (new1, s) \<leftarrow> pop_structure s;
       (cap1, s) \<leftarrow> alloc_slot s;
       s \<leftarrow> set_cap new1 cap1 s;
       if cap1 = seL4_CapNull then split_fail larger s
       else do {
         (new2, s) \<leftarrow> pop_structure s;
         (cap2, s) \<leftarrow> alloc_slot s;
         s \<leftarrow> set_cap new2 cap2 s;
         if cap2 = seL4_CapNull then do {
           s \<leftarrow> free_slot cap1 s;
           split_fail larger s }
         else ut_split_retype size_bits larger new1 new2 s } } }"

function ut_alloc :: "nat \<Rightarrow> 'a ut \<Rightarrow> (word64 \<times> 'a ut) option" where
  "ut_alloc size_bits s =
     (if size_bits > seL4_PageBits then Some (0, s)
      else if size_bits < seL4_EndpointBits then Some (0, s)
      else if size_bits = seL4_PageBits then do {
        (ut, _, s) \<leftarrow> ut_alloc_4k_untyped s;
        Some (ut, s) }
      else do {
        h \<leftarrow> rd (free_untypeds (ut_table s)) (SIZE_BITS_TO_INDEX size_bits);
        (ok, s) \<leftarrow>
          (if h = 0 then do {
             (larger, s) \<leftarrow> ut_alloc (size_bits + 1) s;
             if larger = 0 then Some (False, s) else ut_split size_bits larger s }
           else Some (True, s));
        if ok then pop_untyped (SIZE_BITS_TO_INDEX size_bits) s else Some (0, s) })"
  by pat_completeness auto
termination by (relation "measure (\<lambda>(b, s). seL4_PageBits - b)") auto

declare ut_alloc.simps [simp del]

text \<open>\<open>alloc_retype\<close>: the node, \<open>*cptr\<close> whose old value is \<open>p0\<close>, the state.\<close>

definition alloc_retype :: "cptr \<Rightarrow> nat \<Rightarrow> nat \<Rightarrow> 'a ut \<Rightarrow> (word64 \<times> cptr \<times> 'a ut) option" where
  "alloc_retype p0 ty size_bits s = do {
     (ut, s) \<leftarrow> ut_alloc size_bits s;
     if ut = 0 then Some (0, p0, s)
     else do {
       (p, s) \<leftarrow> alloc_slot s;
       if p = seL4_CapNull then do { s \<leftarrow> ut_free ut size_bits s; Some (0, p, s) }
       else do {
         u \<leftarrow> get_ut s ut;
         let (err, s) = cspace_untyped_retype (cspace s) (ut_cap u) p ty size_bits s;
         if err \<noteq> seL4_NoError then do {
           s \<leftarrow> ut_free ut size_bits s;
           s \<leftarrow> free_slot p s;
           Some (0, p, s) }
         else Some (ut, p, s) } } }"

end
