(* ===== verification/Addrspace.thy ===== *)
theory Addrspace
  imports Prelude
begin

text \<open>
  The regions of a process, \<open>sos/src/vm/address_space.c\<close>. The singly linked list of regions is
  a list, newest first; \<open>as_stack\<close>, \<open>as_heap\<close> and \<open>as_buffer\<close> point to the region that was the
  head when they were set, and since a region is never changed after its definition they hold
  it. \<open>malloc\<close> succeeds: the code reads the new region before it tests the pointer. The
  creation of an address space, which needs a page table, is in the theory \<open>Pagetable\<close>.

  The lemmas show that the regions of a process are pairwise disjoint as closed intervals, so
  that the region that holds an address is unique, and which requests are refused.
\<close>

section \<open>Definitions\<close>

abbreviation (input) STACK_PAGES :: word64 where "STACK_PAGES \<equiv> 4000"
abbreviation (input) SHARE_BUF_SIZE :: nat where "SHARE_BUF_SIZE \<equiv> 256"
abbreviation (input) PROCESS_STACK_TOP :: word64 where "PROCESS_STACK_TOP \<equiv> 0x9000000000"
abbreviation (input) PROCESS_HEAP_BASE :: word64 where "PROCESS_HEAP_BASE \<equiv> 0x9000001000"
abbreviation (input) PROCESS_SHARED_BUF_TOP :: word64 where "PROCESS_SHARED_BUF_TOP \<equiv> 0xD0000000"
abbreviation (input) PROCESS_IPC_BUFFER :: word64 where "PROCESS_IPC_BUFFER \<equiv> 0xA0000000"
abbreviation (input) PROCESS_MAX :: word64 where "PROCESS_MAX \<equiv> 0xFFFFFFFFFFFFFFFF"

abbreviation (input) READ :: nat where "READ \<equiv> 1"
abbreviation (input) WRITE :: nat where "WRITE \<equiv> 2"
abbreviation (input) EXEC :: nat where "EXEC \<equiv> 4"

record region =
  vbase :: word64
  vtop :: word64
  accmode :: nat

record addrspace =
  as_regions :: "region list"
  as_stack :: "region option"
  as_heap :: "region option"
  as_buffer :: "region option"
  as_pt :: word64

definition head_region :: "addrspace \<Rightarrow> region option" where
  "head_region as = (case as_regions as of [] \<Rightarrow> None | r # _ \<Rightarrow> Some r)"

text \<open>The loop of \<open>valid_new_region\<close> from \<open>curr_region\<close>.\<close>

fun valid_new_region :: "region list \<Rightarrow> region \<Rightarrow> bool" where
  "valid_new_region [] new = True"
| "valid_new_region (c # rest) new =
     (if vbase new \<ge> vbase c \<and> vbase new \<le> vtop c then False
      else if vtop new \<ge> vbase c \<and> vtop new \<le> vtop c then False
      else if vtop new \<ge> vtop c \<and> vbase new \<le> vbase c then False
      else if vtop new \<le> vtop c \<and> vbase new \<ge> vbase c then False
      else valid_new_region rest new)"

fun seek_region :: "region list \<Rightarrow> word64 \<Rightarrow> region option" where
  "seek_region [] vaddr = None"
| "seek_region (c # rest) vaddr =
     (if vaddr \<ge> vbase c \<and> vaddr \<le> vtop c then Some c else seek_region rest vaddr)"

definition as_seek_region :: "addrspace \<Rightarrow> word64 \<Rightarrow> region option" where
  "as_seek_region as vaddr = seek_region (as_regions as) vaddr"

definition as_define_region :: "addrspace \<Rightarrow> word64 \<Rightarrow> word64 \<Rightarrow> nat \<Rightarrow> int \<times> addrspace" where
  "as_define_region as base sz acc =
     (let new = \<lparr>vbase = base, vtop = base + sz, accmode = acc\<rparr>
      in if \<not> valid_new_region (as_regions as) new then (- 1, as)
         else (0, as\<lparr>as_regions := new # as_regions as\<rparr>))"

definition as_define_shared_buffer :: "addrspace \<Rightarrow> int \<times> addrspace" where
  "as_define_shared_buffer as =
     (let (result, as) = as_define_region as
            (PROCESS_SHARED_BUF_TOP - PAGE_SIZE_4K * word_of_nat SHARE_BUF_SIZE)
            (PAGE_SIZE_4K * word_of_nat SHARE_BUF_SIZE) (or READ WRITE)
      in (result, as\<lparr>as_buffer := head_region as\<rparr>))"

definition as_define_stack :: "addrspace \<Rightarrow> int \<times> addrspace" where
  "as_define_stack as =
     (let (result, as) = as_define_region as (PROCESS_STACK_TOP - PAGE_SIZE_4K * STACK_PAGES)
            (PAGE_SIZE_4K * STACK_PAGES) (or READ WRITE)
      in (result, as\<lparr>as_stack := head_region as\<rparr>))"

definition as_define_heap :: "addrspace \<Rightarrow> int \<times> addrspace" where
  "as_define_heap as =
     (let (result, as) = as_define_region as (PROCESS_STACK_TOP + PAGE_SIZE_4K)
            (PROCESS_MAX - PROCESS_STACK_TOP - PAGE_SIZE_4K) (or READ WRITE)
      in (result, as\<lparr>as_heap := head_region as\<rparr>))"

text \<open>
  The loop of \<open>as_destroy_region\<close> behind the head: \<open>prev\<close> is never advanced, so the node that
  is unlinked from it takes with it all nodes between. The result is the list that starts
  behind the head, \<open>None\<close> when no region matches.
\<close>

fun destroy_region_walk :: "region list \<Rightarrow> word64 \<Rightarrow> region list option" where
  "destroy_region_walk [] vaddr = None"
| "destroy_region_walk (c # rest) vaddr =
     (if vaddr \<ge> vbase c \<and> vaddr \<le> vtop c then Some rest else destroy_region_walk rest vaddr)"

definition as_destroy_region :: "addrspace \<Rightarrow> word64 \<Rightarrow> int \<times> addrspace" where
  "as_destroy_region as vaddr =
     (case as_regions as of
        [] \<Rightarrow> (- 1, as)
      | c # rest \<Rightarrow>
          if vaddr \<ge> vbase c \<and> vaddr \<le> vtop c then (0, as\<lparr>as_regions := rest\<rparr>)
          else (case destroy_region_walk rest vaddr of
                  None \<Rightarrow> (- 1, as)
                | Some rest' \<Rightarrow> (0, as\<lparr>as_regions := c # rest'\<rparr>)))"

section \<open>Regions are disjoint closed intervals\<close>

definition region_addrs :: "region \<Rightarrow> word64 set" where
  "region_addrs r = {vbase r..vtop r}"

definition regions_wf :: "region list \<Rightarrow> bool" where
  "regions_wf rs \<longleftrightarrow> (\<forall>r \<in> set rs. vbase r \<le> vtop r) \<and>
     sorted_wrt (\<lambda>a b. region_addrs a \<inter> region_addrs b = {}) rs"

lemma intervals_disjoint:
  "vbase c \<le> vtop c \<Longrightarrow> vbase n \<le> vtop n \<Longrightarrow>
     region_addrs n \<inter> region_addrs c = {} \<longleftrightarrow> vtop n < vbase c \<or> vtop c < vbase n"
  unfolding region_addrs_def Int_atLeastAtMost by auto

lemma valid_new_region_iff:
  assumes "vbase n \<le> vtop n" "\<forall>r \<in> set rs. vbase r \<le> vtop r"
  shows "valid_new_region rs n \<longleftrightarrow> (\<forall>r \<in> set rs. region_addrs n \<inter> region_addrs r = {})"
  using assms(2)
proof (induction rs)
  case (Cons c rest)
  have c: "vbase c \<le> vtop c" using Cons.prems by simp
  have "(vtop n < vbase c \<or> vtop c < vbase n) \<longleftrightarrow>
      \<not> (vbase n \<ge> vbase c \<and> vbase n \<le> vtop c) \<and> \<not> (vtop n \<ge> vbase c \<and> vtop n \<le> vtop c) \<and>
      \<not> (vtop n \<ge> vtop c \<and> vbase n \<le> vbase c) \<and> \<not> (vtop n \<le> vtop c \<and> vbase n \<ge> vbase c)"
    using c assms(1) by auto
  then show ?case
    using Cons intervals_disjoint [OF c assms(1)] by (simp only: valid_new_region.simps list.set ball_simps) auto
qed simp

lemma seek_region_spec:
  "seek_region rs v = (case filter (\<lambda>r. v \<in> region_addrs r) rs of [] \<Rightarrow> None | r # _ \<Rightarrow> Some r)"
  by (induction rs) (auto simp: region_addrs_def)

lemma regions_wf_unique:
  assumes "regions_wf rs" "r \<in> set rs" "r' \<in> set rs" "v \<in> region_addrs r" "v \<in> region_addrs r'"
  shows "r = r'"
  using assms
proof (induction rs)
  case (Cons a rs)
  then show ?case by (auto simp: regions_wf_def)
qed simp

lemma seek_region_unique:
  assumes "regions_wf rs" "r \<in> set rs" "v \<in> region_addrs r"
  shows "seek_region rs v = Some r"
proof -
  have "r \<in> set (filter (\<lambda>r. v \<in> region_addrs r) rs)" using assms by simp
  then obtain r' xs where e: "filter (\<lambda>r. v \<in> region_addrs r) rs = r' # xs"
    by (cases "filter (\<lambda>r. v \<in> region_addrs r) rs") auto
  then have "r' \<in> set (filter (\<lambda>r. v \<in> region_addrs r) rs)" by simp
  then have "r' \<in> set rs" "v \<in> region_addrs r'" by simp_all
  then show ?thesis using e assms regions_wf_unique by (simp add: seek_region_spec)
qed

lemma valid_above:
  assumes "regions_wf rs" "\<forall>r \<in> set rs. vtop r < lim" "lim \<le> b" "b \<le> t"
  shows "valid_new_region rs \<lparr>vbase = b, vtop = t, accmode = a\<rparr>"
proof -
  have w: "\<forall>r \<in> set rs. vbase r \<le> vtop r" using assms(1) by (simp add: regions_wf_def)
  have "region_addrs \<lparr>vbase = b, vtop = t, accmode = a\<rparr> \<inter> region_addrs r = {}" if "r \<in> set rs" for r
    using intervals_disjoint [of r "\<lparr>vbase = b, vtop = t, accmode = a\<rparr>"] w that assms(2-4)
    by (auto intro: less_le_trans)
  then show ?thesis using valid_new_region_iff [of "\<lparr>vbase = b, vtop = t, accmode = a\<rparr>" rs] w assms(4) by simp
qed

section \<open>Properties\<close>

text \<open>
  C35. A region definition that does not wrap round is accepted exactly when its closed
  interval meets no existing region; then the new region is the one found at each of its
  addresses, every other address finds what it found before, and the regions stay disjoint.
  Since the intervals are closed, a region that begins where another ends is refused.
\<close>

theorem as_define_region_correct:
  assumes "regions_wf (as_regions as)" "base \<le> base + sz"
  shows "let (r, as') = as_define_region as base sz acc;
             ok = (\<forall>x \<in> set (as_regions as). {base..base + sz} \<inter> region_addrs x = {})
         in r = (if ok then 0 else - 1) \<and> regions_wf (as_regions as') \<and>
            (if ok then \<forall>v. as_seek_region as' v =
               (if v \<in> {base..base + sz} then Some \<lparr>vbase = base, vtop = base + sz, accmode = acc\<rparr>
                else as_seek_region as v)
             else as' = as)"
proof -
  let ?n = "\<lparr>vbase = base, vtop = base + sz, accmode = acc\<rparr>"
  have v: "valid_new_region (as_regions as) ?n \<longleftrightarrow> (\<forall>x \<in> set (as_regions as). {base..base + sz} \<inter> region_addrs x = {})"
    using valid_new_region_iff [of ?n "as_regions as"] assms by (simp add: regions_wf_def region_addrs_def)
  show ?thesis
    using assms v by (auto simp: as_define_region_def Let_def regions_wf_def as_seek_region_def region_addrs_def)
qed

theorem as_define_region_correct_witness:
  "let as = \<lparr>as_regions = [\<lparr>vbase = 0, vtop = 4096, accmode = 3\<rparr>], as_stack = None, as_heap = None,
             as_buffer = None, as_pt = 0\<rparr>
   in fst (as_define_region as 4096 4096 3) = - 1 \<and> fst (as_define_region as 8192 4096 3) = 0 \<and>
      as_seek_region (snd (as_define_region as 8192 4096 3)) 9000 = Some \<lparr>vbase = 8192, vtop = 12288, accmode = 3\<rparr>"
proof -
  let ?as = "\<lparr>as_regions = [\<lparr>vbase = 0, vtop = 4096, accmode = 3\<rparr>], as_stack = None, as_heap = None,
             as_buffer = None, as_pt = 0\<rparr>"
  have w: "regions_wf (as_regions ?as)" by (simp add: regions_wf_def)
  have m: "(4096 :: word64) \<in> {4096..4096 + 4096}" "(4096 :: word64) \<in> {0..4096}" by simp_all
  have e: "{8192..8192 + 4096 :: word64} \<inter> {0..4096} = {}" by (auto simp: word_le_nat_alt)
  show ?thesis
    using as_define_region_correct [OF w, of 4096 4096 3] as_define_region_correct [OF w, of 8192 4096 3] m e
    by (auto simp: Let_def region_addrs_def split: prod.splits if_splits)
qed

text \<open>
  The regions of a new process do not collide: on an address space whose regions lie below
  the IPC buffer, the definitions of stack, heap, shared buffer and IPC buffer all succeed, in
  the order \<open>proc_start\<close> makes them.
\<close>

theorem process_layout_ok:
  assumes "regions_wf (as_regions as)" "\<forall>r \<in> set (as_regions as). vtop r < PROCESS_IPC_BUFFER"
  shows "let (r1, as1) = as_define_stack as; (r2, as2) = as_define_heap as1;
             (r3, as3) = as_define_shared_buffer as2;
             (r4, as4) = as_define_region as3 PROCESS_IPC_BUFFER PAGE_SIZE_4K (or READ WRITE)
         in r1 = 0 \<and> r2 = 0 \<and> r3 = 0 \<and> r4 = 0 \<and> length (as_regions as4) = length (as_regions as) + 4"
proof -
  have v: "valid_new_region (as_regions as) \<lparr>vbase = b, vtop = t, accmode = 3\<rparr>"
    if "PROCESS_IPC_BUFFER \<le> b" "b \<le> t" for b t
    using valid_above [OF assms, of b t 3] that by simp
  show ?thesis
    by (simp add: as_define_stack_def as_define_heap_def as_define_shared_buffer_def as_define_region_def
        Let_def v)
qed

definition as_example :: addrspace where
  "as_example = \<lparr>as_regions = [\<lparr>vbase = 0x400000, vtop = 0x500000, accmode = 5\<rparr>], as_stack = None,
     as_heap = None, as_buffer = None, as_pt = 0\<rparr>"

theorem process_layout_ok_witness:
  "fst (as_define_stack as_example) = 0 \<and> fst (as_define_heap (snd (as_define_stack as_example))) = 0"
proof -
  have "regions_wf (as_regions as_example)" "\<forall>r \<in> set (as_regions as_example). vtop r < PROCESS_IPC_BUFFER"
    by (simp_all add: as_example_def regions_wf_def)
  from process_layout_ok [OF this] show ?thesis by (auto simp: Let_def split: prod.splits)
qed

text \<open>
  C36. \<open>as_destroy_region\<close> removes the region that holds the address, but with it every region
  between the head and that region: what is left behind the head is what followed it.
\<close>

theorem as_destroy_region_effect:
  "as_destroy_region as vaddr =
     (let rs = as_regions as; hit = (\<lambda>r. vbase r \<le> vaddr \<and> vaddr \<le> vtop r)
      in if \<not> list_ex hit rs then (- 1, as)
         else if hit (hd rs) then (0, as\<lparr>as_regions := tl rs\<rparr>)
         else (0, as\<lparr>as_regions := hd rs # tl (dropWhile (\<lambda>r. \<not> hit r) rs)\<rparr>))"
proof (cases "as_regions as")
  case (Cons c rest)
  have w: "destroy_region_walk rest vaddr =
      (if list_ex (\<lambda>r. vbase r \<le> vaddr \<and> vaddr \<le> vtop r) rest
       then Some (tl (dropWhile (\<lambda>r. \<not> (vbase r \<le> vaddr \<and> vaddr \<le> vtop r)) rest)) else None)"
    by (induction rest) auto
  show ?thesis using Cons by (simp add: as_destroy_region_def Let_def w)
qed (simp add: as_destroy_region_def Let_def)

end
