(* ===== verification/Pte.thy ===== *)
theory Pte
  imports Prelude
begin

text \<open>
  Page table entries and indices, the bit-level part of \<open>sos/src/vm/pagetable.c\<close>. An entry has
  its attribute bits above bit 52 and a frame or page file number below. The lemmas show that
  the two parts do not disturb each other, and that the five fields of an index determine the
  address they were cut from.
\<close>

section \<open>Definitions\<close>

abbreviation (input) P_INVALID :: byte where "P_INVALID \<equiv> 1"
abbreviation (input) P_PAGEFILE :: byte where "P_PAGEFILE \<equiv> 2"
abbreviation (input) PAGE_INDEX_SIZE :: nat where "PAGE_INDEX_SIZE \<equiv> 512"

record pt_index =
  offset :: word16
  l4 :: word16
  l3 :: word16
  l2 :: word16
  l1 :: word16

definition get_pt_index :: "word64 \<Rightarrow> pt_index" where
  "get_pt_index vaddr =
     \<lparr>offset = ucast (0xFFF AND vaddr),
      l4 = ucast (0x1FF AND drop_bit PAGE_BITS_4K vaddr),
      l3 = ucast (0x1FF AND drop_bit (PAGE_BITS_4K + 9) vaddr),
      l2 = ucast (0x1FF AND drop_bit (PAGE_BITS_4K + 9 * 2) vaddr),
      l1 = ucast (0x1FF AND drop_bit (PAGE_BITS_4K + 9 * 3) vaddr)\<rparr>"

text \<open>The entry that \<open>page_set_bits\<close> writes back through its pointer.\<close>

definition page_set_bits :: "word64 \<Rightarrow> byte \<Rightarrow> word64" where
  "page_set_bits page_entry bits =
     (let m = push_bit 16 0; m = m OR 0xFFFF; m = push_bit 16 m; m = m OR 0xFFFF;
          m = push_bit 16 m; m = m OR 0xFFFF; m = push_bit 4 m; m = m OR 0xF;
          w = push_bit 16 (ucast bits); w = push_bit 16 w; w = push_bit 16 w; w = push_bit 4 w
      in w OR (m AND page_entry))"

definition page_entry_number :: "word64 \<Rightarrow> word64" where
  "page_entry_number page = page_set_bits page 0"

definition page_update_entry :: "byte \<Rightarrow> word64 \<Rightarrow> word64" where
  "page_update_entry bits num = page_set_bits num bits"

definition page_get_bits :: "word64 \<Rightarrow> byte" where
  "page_get_bits page_entry =
     ucast (drop_bit 4 (drop_bit 16 (drop_bit 16 (drop_bit 16 page_entry))))"

section \<open>Lemmas\<close>

lemma page_set_bits_eq: "page_set_bits e b = push_bit 52 (ucast b) OR take_bit 52 e"
proof -
  have "(0xFFFFFFFFFFFFF :: word64) AND e = take_bit 52 e"
    using take_bit_eq_mask [of 52 e] by (simp add: mask_eq_exp_minus_1 and.commute)
  then show ?thesis by (simp add: page_set_bits_def Let_def push_bit_push_bit)
qed

lemma page_get_bits_eq: "page_get_bits e = ucast (drop_bit 52 e)"
  by (simp add: page_get_bits_def drop_bit_drop_bit)

lemma page_entry_number_eq: "page_entry_number e = take_bit 52 e"
  by (simp add: page_entry_number_def page_set_bits_eq)

lemma page_get_bits_update [simp]: "page_get_bits (page_update_entry b n) = b"
proof (rule bit_word_eqI)
  fix k assume "k < LENGTH(8)"
  then show "bit (page_get_bits (page_update_entry b n)) k = bit b k"
    by (simp add: page_get_bits_eq page_update_entry_def page_set_bits_eq bit_ucast_iff bit_drop_bit_eq
        bit_or_iff bit_push_bit_iff bit_take_bit_iff)
qed

lemma page_entry_number_update [simp]: "page_entry_number (page_update_entry b n) = take_bit 52 n"
  by (rule bit_word_eqI)
    (auto simp: page_entry_number_eq page_update_entry_def page_set_bits_eq bit_or_iff bit_push_bit_iff
      bit_take_bit_iff)

lemma index_field_bits:
  "bit (ucast (0x1FF AND drop_bit n (v :: word64)) :: word16) k \<longleftrightarrow> k < 9 \<and> bit v (n + k)"
proof -
  have e: "(0x1FF :: word64) = mask 9" by (simp add: mask_eq_exp_minus_1)
  show ?thesis
    unfolding e using bit_imp_le_length [of v "n + k"]
    by (auto simp: bit_ucast_iff bit_and_iff bit_drop_bit_eq bit_mask_iff)
qed

lemma offset_field_bits:
  "bit (ucast (0xFFF AND (v :: word64)) :: word16) k \<longleftrightarrow> k < 12 \<and> bit v k"
proof -
  have e: "(0xFFF :: word64) = mask 12" by (simp add: mask_eq_exp_minus_1)
  show ?thesis unfolding e by (auto simp: bit_ucast_iff bit_and_iff bit_mask_iff)
qed

lemma pt_index_bits:
  assumes "get_pt_index v = get_pt_index w" "k < 48"
  shows "bit v k = bit w k"
proof -
  have f: "offset (get_pt_index v) = offset (get_pt_index w)" "l4 (get_pt_index v) = l4 (get_pt_index w)"
    "l3 (get_pt_index v) = l3 (get_pt_index w)" "l2 (get_pt_index v) = l2 (get_pt_index w)"
    "l1 (get_pt_index v) = l1 (get_pt_index w)" using assms(1) by simp_all
  have field: "bit v k = bit w k"
    if "(ucast (0x1FF AND drop_bit n v) :: word16) = ucast (0x1FF AND drop_bit n w)" "n \<le> k" "k < n + 9" for n
    using that index_field_bits [of n v "k - n"] index_field_bits [of n w "k - n"] by auto
  have off: "bit v k = bit w k" if "k < 12"
    using f(1) offset_field_bits [of v k] offset_field_bits [of w k] that by (simp add: get_pt_index_def)
  consider "k < 12" | "12 \<le> k" "k < 21" | "21 \<le> k" "k < 30" | "30 \<le> k" "k < 39" | "39 \<le> k" "k < 48"
    using assms(2) by linarith
  then show ?thesis
    by cases (use off f(2-) field [of 12] field [of 21] field [of 30] field [of 39] in \<open>simp_all add: get_pt_index_def\<close>)
qed

lemma index_field_less: "unat (ucast (0x1FF AND drop_bit n (v :: word64)) :: word16) < 512"
proof -
  have "bit (ucast (0x1FF AND drop_bit n v) :: word16) k = bit (take_bit 9 (ucast (drop_bit n v)) :: word16) k" for k
    unfolding index_field_bits using bit_imp_le_length [of v "n + k"]
    by (auto simp: bit_take_bit_iff bit_ucast_iff bit_drop_bit_eq)
  then have "(ucast (0x1FF AND drop_bit n v) :: word16) = take_bit 9 (ucast (drop_bit n v))"
    by (intro bit_word_eqI) blast
  then have "unat (ucast (0x1FF AND drop_bit n v) :: word16) = take_bit 9 (unat (ucast (drop_bit n v) :: word16))"
    by (simp add: unsigned_take_bit_eq)
  then show ?thesis using take_bit_nat_less_exp [of 9] by simp
qed

lemma pt_index_bounds:
  "unat (l4 (get_pt_index v)) < 512" "unat (l3 (get_pt_index v)) < 512"
  "unat (l2 (get_pt_index v)) < 512" "unat (l1 (get_pt_index v)) < 512"
  by (simp_all only: get_pt_index_def pt_index.simps index_field_less)

section \<open>Properties\<close>

text \<open>
  A page table entry written with attribute bits and a number gives both back: the bits
  exactly, the number up to its 52 lower bits, so exactly for every frame and page file number.
\<close>

theorem page_entry_round_trip:
  "page_get_bits (page_update_entry bits num) = bits \<and>
   page_entry_number (page_update_entry bits num) = take_bit 52 num \<and>
   (unat num < 2 ^ 52 \<longrightarrow> page_entry_number (page_update_entry bits num) = num)"
  by (auto intro!: take_bit_small64 simp: word_less_nat_alt)

theorem page_entry_round_trip_witness:
  "page_entry_number (page_update_entry P_PAGEFILE 77) = 77 \<and> page_get_bits (page_update_entry P_PAGEFILE 77) = 2"
  using page_entry_round_trip [of P_PAGEFILE 77] by simp

text \<open>
  Two user addresses below \<open>2 ^ 48\<close> with the same four table indices and the same offset are
  equal: distinct pages of a process never share a page table entry.
\<close>

theorem get_pt_index_inj:
  assumes "v < 2 ^ 48" "w < 2 ^ 48" "get_pt_index v = get_pt_index w"
  shows "v = w"
proof -
  have "take_bit 48 v = take_bit 48 w"
    by (rule bit_word_eqI) (auto simp: bit_take_bit_iff pt_index_bits [OF assms(3)])
  then show ?thesis using assms(1,2) by (simp add: take_bit_small64)
qed

theorem get_pt_index_inj_witness: "get_pt_index 0x9000001000 \<noteq> get_pt_index 0x9000002000"
  using get_pt_index_inj [of "0x9000001000" "0x9000002000"] by auto

end
