(* ===== verification/State.thy ===== *)
theory State
  imports Clock Addrspace Dma
begin

text \<open>
  The state of SOS above the memory management: the frame table, the page file, the processes,
  the vnodes, the console and the message registers, as the record \<open>sos\<close> that extends the state
  of the clock driver.

  \<^item> Processes and vnodes are structures that several places point to, so they live in stores
    addressed by their pointers; an absent entry is memory that was freed or never allocated,
    and reading it is the outcome \<open>None\<close>. What only one structure points to (the address space,
    the file table, the lists of a process) is a value inside that structure.
  \<^item> SOS runs system calls and faults as coroutines. A coroutine that yields gives the
    processor to the event loop, which may run anything before the event it waits for arrives.
    The record \<open>world\<close> is the environment of a run: whether the NFS library refuses a request,
    the state and the answer when a coroutine that yielded is resumed (\<open>None\<close> if it never is),
    what a resumed coroutine does until it yields, the contents of fresh heap blocks, and the
    bytes that arrive on the serial line. The definitions take it as their argument \<open>W\<close>.
  \<^item> \<open>held_procs\<close> and \<open>parked_procs\<close> are auxiliary variables, which no operation reads. They are the
    process structures that are not yet in the array \<open>procs\<close> and that local variables point to: on
    the stack of the running coroutine and on the stacks of all others. Every coroutine has its
    own stack, so a wait gives back \<open>held_procs\<close> unchanged, while \<open>parked_procs\<close> changes with what
    the other coroutines do meanwhile.
\<close>

section \<open>Definitions\<close>

abbreviation (input) MAX_PROCESSES :: nat where "MAX_PROCESSES \<equiv> 32"
abbreviation (input) PROCESS_MAX_FILES :: nat where "PROCESS_MAX_FILES \<equiv> 16"
abbreviation (input) N_NAME :: nat where "N_NAME \<equiv> 32"
abbreviation (input) KERNEL_PROC :: pid_t where "KERNEL_PROC \<equiv> 0"
abbreviation (input) INIT_PROC :: pid_t where "INIT_PROC \<equiv> 1"
abbreviation (input) O_RDONLY :: int where "O_RDONLY \<equiv> 0"
abbreviation (input) O_WRONLY :: int where "O_WRONLY \<equiv> 1"
abbreviation (input) O_RDWR :: int where "O_RDWR \<equiv> 2"
abbreviation (input) O_CREAT :: int where "O_CREAT \<equiv> 64"

text \<open>musl's \<open>O_ACCMODE\<close> is \<open>03 | O_SEARCH\<close> with \<open>O_SEARCH = 010000000\<close>, both octal.\<close>

abbreviation (input) O_ACCMODE :: int where "O_ACCMODE \<equiv> 2097155"

subsection \<open>Data\<close>

record frame_table_entry =
  fte_cap :: cptr
  fte_user_cap :: cptr
  fte_ut :: word64
  fte_next_free_page :: word64
  fte_pid :: pid_t
  fte_user_vaddr :: word64
  fte_ref_bit :: bool
  fte_important :: bool

record pagefile_list =
  pf_size :: word64
  pf_head :: "word64 list"

datatype (plugins only: code size) uio_rw = UIO_READ | UIO_WRITE

record uio =
  u_rw :: uio_rw
  u_len :: word64
  u_offset :: word64
  u_pid :: pid_t

text \<open>
  The console is the only device, so \<open>vn_data\<close> of a device vnode is the console's state, its
  \<open>reader\<close>. The list of device entries is a list of names and vnodes.
\<close>

record vnode_nfs_data =
  nv_path :: string
  nv_dev_list :: "(string \<times> word64) list"
  nv_next :: word64
  nv_nfsfh :: word64

datatype (plugins only: code size) vn_data_t = Dev_data word64 | Nfs_data vnode_nfs_data
datatype (plugins only: code size) vn_ops_t = Dev_ops | Nfs_ops

record vnode =
  vn_refcount :: int
  vn_data :: vn_data_t
  vn_ops :: "vn_ops_t option"

record open_file =
  of_vn :: word64
  of_offset :: word64
  of_flags :: int
  of_refcnt :: word64

datatype (plugins only: code size) proc_state = RUNNING | WAITING | ZOMBIE

record proc_wait_node =
  wn_owner :: pid_t
  wn_pid_to_wake :: pid_t

record proc =
  p_name :: string
  p_pid :: pid_t
  p_stime :: word32
  p_tcb_ut :: word64
  p_tcb :: cptr
  p_vspace_ut :: word64
  p_vspace :: cptr
  p_coro_count :: int
  p_as :: "addrspace option"
  p_ipc_buffer_ut :: word64
  p_ipc_buffer :: cptr
  p_cspace :: cspace_t
  p_stack_ut :: word64
  p_stack :: cptr
  p_wait_list :: "proc_wait_node list"
  p_child_list :: "pid_t list"
  p_fdt :: "open_file option list option"
  p_wake_co :: word64
  p_state :: proc_state
  p_protected_proc :: bool
  p_shared_buf :: word64

subsection \<open>The state\<close>

record sos = clock_state +
  frame_table :: "frame_table_entry list"
  top_paddr :: word64
  bot_paddr :: word64
  base_vaddr :: word64
  next_free_page :: word64
  frame_table_size :: word64
  frame_table_pages :: word64
  frame_table_curr_size :: word64
  clock_curr :: word64
  pf_list :: "pagefile_list option"
  pf_vnode :: word64
  shared_buf_begin :: word64
  procs :: "word64 list"
  proc_mem :: "word64 \<Rightarrow> proc option"
  reap_list :: "pid_t list"
  curr_pid :: pid_t
  ep :: cptr
  device_list :: "(string \<times> word64) list"
  root :: word64
  vnode_mem :: "word64 \<Rightarrow> vnode option"
  con_serial :: word64
  con_curr :: word64
  con_buffer :: "byte list"
  nbytes_read :: word64
  reading :: bool
  serial_socket :: word64
  mrs :: "nat \<Rightarrow> word64"
  running :: word64
  held_procs :: "word64 list"
  parked_procs :: "word64 list"
  timer_fired :: bool
  nfs_ready :: bool
  vsyscall_table :: word64
  entry_point :: word64
  dma :: dma_t
  uart :: word64
  uart_output :: bool
  sys_freq :: word64
  morecore_base :: word64
  morecore_top :: word64

subsection \<open>The environment\<close>

record nfs_stat_64 =
  nfs_mode :: word64
  nfs_size :: word64
  nfs_atime :: word64
  nfs_ctime :: word64

datatype (plugins only: code size) nfs_request =
    Nfs_open string int
  | Nfs_pread word64 word64 word64
  | Nfs_pwrite word64 word64 "byte list"
  | Nfs_close word64
  | Nfs_opendir string
  | Nfs_stat64 string
  | Nfs_creat string int int

datatype (plugins only: code size) nfs_payload =
    No_data
  | File_handle word64
  | Bytes "byte list"
  | Dirents "string list"
  | Stat nfs_stat_64

text \<open>What a coroutine waits for, and what it is resumed with.\<close>

datatype (plugins only: code size) event = On_nfs nfs_request | On_console | On_timer | On_exit

datatype (plugins only: code size) wake = Woken | Nfs_answer int nfs_payload | Exited proc_wait_node

record world =
  nfs_refuses :: "nfs_request \<Rightarrow> sos \<Rightarrow> bool"
  yields :: "event \<Rightarrow> sos \<Rightarrow> (wake \<times> sos) option"
  resumes :: "word64 \<Rightarrow> wake \<Rightarrow> sos \<Rightarrow> sos option"
  fresh_proc :: "word64 \<Rightarrow> proc"
  fresh_nfs_data :: "word64 \<Rightarrow> vnode_nfs_data"
  received :: "kcall list \<Rightarrow> byte list"
  cpio_archive :: word64
  morecore_area :: word64
  ipc_recv :: "sos \<Rightarrow> word64 \<times> word64 \<times> (nat \<Rightarrow> word64)"
  network_irq :: "sos \<Rightarrow> sos option"
  network_tick :: "sos \<Rightarrow> sos option"
  network_init :: "cptr \<Rightarrow> cptr \<Rightarrow> word64 \<Rightarrow> sos \<Rightarrow> sos option"

subsection \<open>Access to the stores\<close>

definition get_proc :: "sos \<Rightarrow> word64 \<Rightarrow> proc option" where
  "get_proc s p = (if p = 0 then None else proc_mem s p)"

definition set_proc :: "word64 \<Rightarrow> proc \<Rightarrow> sos \<Rightarrow> sos" where
  "set_proc p v s = s\<lparr>proc_mem := (proc_mem s)(p \<mapsto> v)\<rparr>"

definition upd_proc :: "word64 \<Rightarrow> (proc \<Rightarrow> proc) \<Rightarrow> sos \<Rightarrow> sos option" where
  "upd_proc p f s = do { v \<leftarrow> get_proc s p; Some (set_proc p (f v) s) }"

definition free_proc :: "word64 \<Rightarrow> sos \<Rightarrow> sos" where
  "free_proc p s = s\<lparr>proc_mem := (proc_mem s)(p := None)\<rparr>"

definition get_vnode :: "sos \<Rightarrow> word64 \<Rightarrow> vnode option" where
  "get_vnode s p = (if p = 0 then None else vnode_mem s p)"

definition set_vnode :: "word64 \<Rightarrow> vnode \<Rightarrow> sos \<Rightarrow> sos" where
  "set_vnode p v s = s\<lparr>vnode_mem := (vnode_mem s)(p \<mapsto> v)\<rparr>"

text \<open>\<open>proc_get\<close> reads \<open>procs[pid]\<close>: a pid outside the array is an access out of bounds.\<close>

definition proc_get :: "pid_t \<Rightarrow> sos \<Rightarrow> word64 option" where
  "proc_get pid s = (if pid < 0 then None else rd (procs s) (nat pid))"

definition GetMR :: "nat \<Rightarrow> sos \<Rightarrow> word64" where
  "GetMR i s = mrs s i"

definition SetMR :: "nat \<Rightarrow> word64 \<Rightarrow> sos \<Rightarrow> sos" where
  "SetMR i v s = s\<lparr>mrs := (mrs s)(i := v)\<rparr>"

text \<open>The conversion of an \<open>int\<close> result to the 64 bits of a message register and back.\<close>

definition word_to_int32 :: "word64 \<Rightarrow> int" where
  "word_to_int32 w = sint (ucast w :: word32)"

section \<open>Lemmas\<close>

lemma get_proc_set_same [simp]: "p \<noteq> 0 \<Longrightarrow> get_proc (set_proc p v s) p = Some v"
  by (simp add: get_proc_def set_proc_def)

lemma get_proc_set_other [simp]: "p \<noteq> q \<Longrightarrow> get_proc (set_proc p v s) q = get_proc s q"
  by (simp add: get_proc_def set_proc_def)

lemma get_proc_not_null [simp]: "get_proc s 0 = None"
  by (simp add: get_proc_def)

lemma set_proc_frame [simp]:
  "klog (set_proc p v s) = klog s" "kresp (set_proc p v s) = kresp s" "mem (set_proc p v s) = mem s"
  "procs (set_proc p v s) = procs s" "vnode_mem (set_proc p v s) = vnode_mem s"
  "frame_table (set_proc p v s) = frame_table s" "shared_buf_begin (set_proc p v s) = shared_buf_begin s"
  "cspace (set_proc p v s) = cspace s" "mrs (set_proc p v s) = mrs s"
  by (simp_all add: set_proc_def)

lemma set_proc_twice [simp]: "set_proc p v (set_proc p w s) = set_proc p v s"
  by (simp add: set_proc_def)

lemma set_proc_frame2 [simp]:
  "pf_list (set_proc p v s) = pf_list s" "pf_vnode (set_proc p v s) = pf_vnode s" "ep (set_proc p v s) = ep s"
  "frame_table_size (set_proc p v s) = frame_table_size s" "base_vaddr (set_proc p v s) = base_vaddr s"
  "reap_list (set_proc p v s) = reap_list s" "curr_pid (set_proc p v s) = curr_pid s" "proc_mem (set_proc p v s) = (proc_mem s)(p \<mapsto> v)"
  "held_procs (set_proc p v s) = held_procs s" "parked_procs (set_proc p v s) = parked_procs s"
  by (simp_all add: set_proc_def)

lemma get_proc_frame [simp]:
  "get_proc (s\<lparr>mem := m\<rparr>) p = get_proc s p" "get_proc (s\<lparr>klog := l\<rparr>) p = get_proc s p"
  "get_proc (s\<lparr>pf_list := f\<rparr>) p = get_proc s p" "get_proc (s\<lparr>frame_table := t\<rparr>) p = get_proc s p"
  "get_proc (s\<lparr>mrs := r\<rparr>) p = get_proc s p" "get_proc (s\<lparr>procs := ps\<rparr>) p = get_proc s p"
  "get_proc (s\<lparr>reap_list := rl\<rparr>) p = get_proc s p" "get_proc (s\<lparr>curr_pid := c\<rparr>) p = get_proc s p"
  "get_proc (s\<lparr>cspace := cs\<rparr>) p = get_proc s p" "get_proc (s\<lparr>held_procs := h\<rparr>) p = get_proc s p"
  by (simp_all add: get_proc_def)

lemma proc_get_frame [simp]:
  "proc_get pid (s\<lparr>mem := m\<rparr>) = proc_get pid s" "proc_get pid (s\<lparr>klog := l\<rparr>) = proc_get pid s"
  "proc_get pid (s\<lparr>pf_list := f\<rparr>) = proc_get pid s" "proc_get pid (s\<lparr>frame_table := t\<rparr>) = proc_get pid s"
  "proc_get pid (s\<lparr>mrs := r\<rparr>) = proc_get pid s" "proc_get pid (s\<lparr>proc_mem := pm\<rparr>) = proc_get pid s"
  "proc_get pid (s\<lparr>reap_list := rl\<rparr>) = proc_get pid s" "proc_get pid (s\<lparr>curr_pid := c\<rparr>) = proc_get pid s"
  "proc_get pid (s\<lparr>cspace := cs\<rparr>) = proc_get pid s" "proc_get pid (s\<lparr>held_procs := h\<rparr>) = proc_get pid s"
  by (simp_all add: proc_get_def)

lemma proc_get_set_proc [simp]: "proc_get pid (set_proc p v s) = proc_get pid s"
  by (simp add: proc_get_def)

lemma get_vnode_set_same [simp]: "p \<noteq> 0 \<Longrightarrow> get_vnode (set_vnode p v s) p = Some v"
  by (simp add: get_vnode_def set_vnode_def)

lemma get_vnode_set_other [simp]: "p \<noteq> q \<Longrightarrow> get_vnode (set_vnode p v s) q = get_vnode s q"
  by (simp add: get_vnode_def set_vnode_def)

lemma set_vnode_frame [simp]:
  "klog (set_vnode p v s) = klog s" "kresp (set_vnode p v s) = kresp s" "mem (set_vnode p v s) = mem s"
  "procs (set_vnode p v s) = procs s" "proc_mem (set_vnode p v s) = proc_mem s"
  "held_procs (set_vnode p v s) = held_procs s" "parked_procs (set_vnode p v s) = parked_procs s"
  "get_proc (set_vnode p v s) q = get_proc s q" "proc_get pid (set_vnode p v s) = proc_get pid s"
  by (simp_all add: set_vnode_def get_proc_def proc_get_def)

lemma GetMR_SetMR [simp]: "GetMR i (SetMR j v s) = (if i = j then v else GetMR i s)"
  by (simp add: GetMR_def SetMR_def)

section \<open>An example state\<close>

text \<open>
  A small machine for the witnesses: a kernel that answers every invocation with success and a
  heap that never hands out an address twice; no processes, no frames.
\<close>

definition sos_example :: sos where
  "sos_example = \<lparr>klog = [],
     kresp = (\<lambda>l. case l of Read_cntfrq # _ \<Rightarrow> 62500000
                  | C_malloc _ # l \<Rightarrow> 0x500000 + 4096 * int (length l) | _ \<Rightarrow> 0),
     mem = (\<lambda>a. ucast a), cspace = zero_cspace, ut_mem = (\<lambda>_. \<lparr>ut_cap = 0, ut_next = 0, ut_valid = False\<rparr>),
     ut_table = \<lparr>first_paddr = 0, untypeds = 0, free_untypeds = replicate 9 0, n_4k_untyped = 0, free_structures = 0\<rparr>,
     next_free_vaddr = 0xA0001000, boot_vspace = 3, device_virt = 0xB0000000,
     timer = 0, timer_mux = 0, timer_f = 0, timer_irq_handler = 9, timer_initialised = True, pq = Some pqueue_init,
     next_job_id = 1, start_tick = 0, last_tick = 0,
     frame_table = [], top_paddr = 0, bot_paddr = 0, base_vaddr = 0x80000100000, next_free_page = 0,
     frame_table_size = 0, frame_table_pages = 0, frame_table_curr_size = 0, clock_curr = 0,
     pf_list = Some \<lparr>pf_size = 0, pf_head = []\<rparr>, pf_vnode = 0, shared_buf_begin = 0x80000100000,
     procs = replicate MAX_PROCESSES 0, proc_mem = (\<lambda>_. None), reap_list = [], curr_pid = 1, ep = 10,
     device_list = [], root = 0, vnode_mem = (\<lambda>_. None), con_serial = 0, con_curr = 0,
     con_buffer = replicate 16 0, nbytes_read = 0, reading = False, serial_socket = 0, mrs = (\<lambda>_. 0),
     running = 1, held_procs = [], parked_procs = [], timer_fired = False, nfs_ready = True, vsyscall_table = 0, entry_point = 0,
     dma = dma_example, uart = 0, uart_output = False, sys_freq = 0, morecore_base = 0x600000, morecore_top = 0x700000\<rparr>"

text \<open>A world in which nothing happens: requests are refused and yielding coroutines are resumed at once.\<close>

definition world_example :: world where
  "world_example = \<lparr>nfs_refuses = (\<lambda>_ _. True), yields = (\<lambda>_ s. Some (Woken, s)), resumes = (\<lambda>_ _ s. Some s),
     fresh_proc = (\<lambda>_. \<lparr>p_name = [], p_pid = 0, p_stime = 0, p_tcb_ut = 0, p_tcb = 0, p_vspace_ut = 0, p_vspace = 0,
       p_coro_count = 0, p_as = None, p_ipc_buffer_ut = 0, p_ipc_buffer = 0, p_cspace = zero_cspace, p_stack_ut = 0,
       p_stack = 0, p_wait_list = [], p_child_list = [], p_fdt = None, p_wake_co = 0, p_state = RUNNING,
       p_protected_proc = False, p_shared_buf = 0\<rparr>),
     fresh_nfs_data = (\<lambda>_. \<lparr>nv_path = [], nv_dev_list = [], nv_next = 0, nv_nfsfh = 0\<rparr>), received = (\<lambda>_. []), cpio_archive = 0x700000,
     morecore_area = 0x600000, ipc_recv = (\<lambda>_. (0, 0, \<lambda>_. 0)), network_irq = Some, network_tick = Some,
     network_init = (\<lambda>_ _ _. Some)\<rparr>"

end
