(* ===== verification/Sharedbuf.thy ===== *)
theory Sharedbuf
  imports State
begin

text \<open>
  The buffers that SOS shares with its processes, \<open>sos/src/vm/shared_buf.c\<close>, and the transfer
  descriptors of \<open>sos/src/uio.c\<close>. Each process has 256 pages of the area at \<open>shared_buf_begin\<close>;
  buffer 0 is the kernel's. The mapping of a buffer into a process is in the theory \<open>Pagetable\<close>.

  Where the C code copies from or to a local variable, such as a path on the stack, the variable
  is a list of bytes and the variants \<open>copyin_bytes\<close> and \<open>copyout_bytes\<close> are used.

  The lemmas show that a copy in followed by a copy out gives the bytes back and that the
  buffers of two processes never overlap.
\<close>

section \<open>Definitions\<close>

definition buf_offset :: "pid_t \<Rightarrow> word64" where
  "buf_offset pid = word_of_int (pid * int SHARE_BUF_SIZE) * PAGE_SIZE_4K"

definition get_buf_from_pid :: "pid_t \<Rightarrow> sos \<Rightarrow> word64" where
  "get_buf_from_pid pid s = shared_buf_begin s + buf_offset pid"

abbreviation (input) SHARE_BUF_BYTES :: word64 where "SHARE_BUF_BYTES \<equiv> 4096 * 256"

definition zero_buf :: "pid_t \<Rightarrow> sos \<Rightarrow> sos" where
  "zero_buf pid s = s\<lparr>mem := memset (mem s) (get_buf_from_pid pid s) 0 (word_of_nat SHARE_BUF_SIZE * PAGE_SIZE_4K)\<rparr>"

definition share_buf_check_len :: "word64 \<Rightarrow> word64" where
  "share_buf_check_len len =
     (if len > PAGE_SIZE_4K * word_of_nat SHARE_BUF_SIZE then PAGE_SIZE_4K * word_of_nat SHARE_BUF_SIZE else len)"

definition sos_copyin :: "pid_t \<Rightarrow> word64 \<Rightarrow> word64 \<Rightarrow> sos \<Rightarrow> word64 \<times> sos" where
  "sos_copyin pid kernel_vaddr len s =
     (let len = share_buf_check_len len
      in (len, s\<lparr>mem := memcpy (mem s) (get_buf_from_pid pid s) kernel_vaddr len\<rparr>))"

definition sos_copyout :: "pid_t \<Rightarrow> word64 \<Rightarrow> word64 \<Rightarrow> sos \<Rightarrow> word64 \<times> sos" where
  "sos_copyout pid kernel_vaddr len s =
     (let len = share_buf_check_len len
      in (len, s\<lparr>mem := memcpy (mem s) kernel_vaddr (get_buf_from_pid pid s) len\<rparr>))"

definition store_list :: "(word64 \<Rightarrow> byte) \<Rightarrow> word64 \<Rightarrow> byte list \<Rightarrow> (word64 \<Rightarrow> byte)" where
  "store_list m a bs = (\<lambda>x. if unat (x - a) < length bs then bs ! unat (x - a) else m x)"

definition load_list :: "(word64 \<Rightarrow> byte) \<Rightarrow> word64 \<Rightarrow> nat \<Rightarrow> byte list" where
  "load_list m a n = map (\<lambda>i. m (a + word_of_nat i)) [0..<n]"

text \<open>\<open>sos_copyin\<close> of the first \<open>len\<close> bytes of a local object with the bytes \<open>bs\<close>.\<close>

definition copyin_bytes :: "pid_t \<Rightarrow> byte list \<Rightarrow> word64 \<Rightarrow> sos \<Rightarrow> (word64 \<times> sos) option" where
  "copyin_bytes pid bs len s = do {
     let len = share_buf_check_len len;
     c_assert (unat len \<le> length bs);
     Some (len, s\<lparr>mem := store_list (mem s) (get_buf_from_pid pid s) (take (unat len) bs)\<rparr>) }"

text \<open>\<open>sos_copyout\<close> into a local array: the bytes that are written to its start.\<close>

definition copyout_bytes :: "pid_t \<Rightarrow> word64 \<Rightarrow> sos \<Rightarrow> byte list" where
  "copyout_bytes pid len s = load_list (mem s) (get_buf_from_pid pid s) (unat (share_buf_check_len len))"

text \<open>
  The C string at the start of an array: the bytes before the first zero. Without a zero in
  the array, reading the string runs past its end.
\<close>

definition c_string :: "byte list \<Rightarrow> string option" where
  "c_string bs = (if 0 \<in> set bs then Some (map (\<lambda>b. char_of (unat b)) (takeWhile (\<lambda>b. b \<noteq> 0) bs)) else None)"

definition string_bytes :: "string \<Rightarrow> byte list" where
  "string_bytes cs = map (\<lambda>c. word_of_nat (of_char c)) cs @ [0]"

definition uio_init :: "uio_rw \<Rightarrow> word64 \<Rightarrow> word64 \<Rightarrow> pid_t \<Rightarrow> uio" where
  "uio_init rw len offset pid = \<lparr>u_rw = rw, u_len = len, u_offset = offset, u_pid = pid\<rparr>"

definition uiomove :: "word64 \<Rightarrow> word64 \<Rightarrow> uio \<Rightarrow> sos \<Rightarrow> word64 \<times> sos" where
  "uiomove ptr n u s =
     (let n = (if n > u_len u then u_len u else n);
          (_, s) = (case u_rw u of UIO_READ \<Rightarrow> sos_copyin (u_pid u) ptr n s
                    | UIO_WRITE \<Rightarrow> sos_copyout (u_pid u) ptr n s)
      in (n, s))"

section \<open>Lemmas\<close>

lemma share_buf_check_len_eq: "unat (share_buf_check_len len) = min (unat len) 1048576"
  by (auto simp: share_buf_check_len_def word_less_nat_alt)

lemma share_buf_check_len_idem [simp]: "share_buf_check_len (share_buf_check_len len) = share_buf_check_len len"
  by (simp add: share_buf_check_len_def)

lemma load_list_length [simp]: "length (load_list m a n) = n"
  by (simp add: load_list_def)

lemma load_store_list:
  assumes "length bs < 2 ^ 64"
  shows "load_list (store_list m a bs) a (length bs) = bs"
  using assms by (intro nth_equalityI) (simp_all add: load_list_def store_list_def unat_of_nat64)

text \<open>Strings survive being written as bytes and read back, whatever follows them.\<close>

lemma char_of_byte: "char_of (unat (word_of_nat (of_char c) :: byte)) = c"
proof -
  have "of_char c < (256 :: nat)" by simp
  then have "unat (word_of_nat (of_char c) :: byte) = of_char c" by (simp add: unat_of_nat)
  then show ?thesis by simp
qed

lemma c_string_string_bytes:
  assumes "CHR 0x00 \<notin> set cs"
  shows "c_string (string_bytes cs @ rest) = Some cs"
proof -
  have nz: "(word_of_nat (of_char c) :: byte) \<noteq> 0" if "c \<in> set cs" for c
  proof
    assume "(word_of_nat (of_char c) :: byte) = 0"
    then have "c = CHR 0x00" using char_of_byte [of c] by (simp add: char_of_def)
    then show False using assms that by simp
  qed
  then have "takeWhile (\<lambda>b. b \<noteq> 0) (map (\<lambda>c. word_of_nat (of_char c)) cs @ 0 # rest) =
      (map (\<lambda>c. word_of_nat (of_char c)) cs :: byte list)"
    by (induction cs) auto
  then show ?thesis by (simp add: c_string_def string_bytes_def char_of_byte comp_def)
qed

text \<open>The offset of a byte of one buffer from the start of another.\<close>

lemma buf_offset_unat: "P < 32 \<Longrightarrow> unat (buf_offset (int P)) = P * 1048576"
proof -
  assume p: "P < 32"
  have u: "unat (word_of_nat (P * 256) :: word64) = P * 256" using p by (intro unat_of_nat64) simp
  have "buf_offset (int P) = word_of_nat (P * 256) * 4096" by (simp add: buf_offset_def)
  then show ?thesis using p u by (simp only: unat_mult64) (subst unat_mult64, simp_all)
qed

lemma other_buffer_outside:
  assumes "0 \<le> p" "p < 32" "0 \<le> q" "q < 32" "p \<noteq> q" "i < 1048576"
  shows "\<not> get_buf_from_pid q s + word_of_nat i - get_buf_from_pid p s < share_buf_check_len len"
proof -
  obtain P where P: "p = int P" "P < 32" using assms(1,2) by (metis nat_int nonneg_int_cases of_nat_less_numeral_iff)
  obtain Q where Q: "q = int Q" "Q < 32" using assms(3,4) by (metis nat_int nonneg_int_cases of_nat_less_numeral_iff)
  have up: "unat (buf_offset p) = P * 1048576" and uq: "unat (buf_offset q) = Q * 1048576"
    using P Q by (simp_all add: buf_offset_unat)
  have ui: "unat (word_of_nat i :: word64) = i" using assms(6) by (simp add: unat_of_nat64)
  let ?d = "buf_offset q + word_of_nat i - buf_offset p"
  have s: "unat (buf_offset q + word_of_nat i) = Q * 1048576 + i"
    using assms(6) uq ui Q(2) by (subst unat_add64) simp_all
  have "P \<noteq> Q" using assms(5) P Q by simp
  then consider "P < Q" | "Q < P" by linarith
  then have far: "1048576 \<le> unat ?d"
  proof cases
    case 1
    then have "(P + 1) * 1048576 \<le> Q * 1048576" by (intro mult_right_mono) simp_all
    then show ?thesis using s up by (simp add: unat_sub_if_size)
  next
    case 2
    then have "(Q + 1) * 1048576 \<le> P * 1048576" by (intro mult_right_mono) simp_all
    moreover have "P * 1048576 \<le> 31 * 1048576" using P(2) by (intro mult_right_mono) simp_all
    ultimately show ?thesis using s up assms(6) by (simp add: unat_sub_if_size word_size)
  qed
  have e: "get_buf_from_pid q s + word_of_nat i - get_buf_from_pid p s = ?d"
    by (simp add: get_buf_from_pid_def)
  have "min (unat len) 1048576 \<le> (1048576 :: nat)" by (rule min.cobounded2)
  then have "unat (share_buf_check_len len) \<le> unat ?d"
    unfolding share_buf_check_len_eq using far by (rule le_trans)
  then show ?thesis
    unfolding e by (simp only: word_less_nat_alt not_less)
qed

section \<open>Properties\<close>

text \<open>
  C32. The shared buffers carry data and keep processes apart. Copying \<open>len\<close> bytes into a
  process's buffer and out again delivers the first \<open>min len 1 MiB\<close> of them unchanged, both
  calls report that number, and the copy in changes no byte of another process's buffer.
\<close>

theorem copyin_copyout_round_trip:
  assumes "0 \<le> p" "p < 32" "0 \<le> q" "q < 32" "p \<noteq> q" "i < min (unat len) 1048576" "j < 1048576"
  shows "let (n, s1) = sos_copyin p src len s; (n', s2) = sos_copyout p dst n s1
         in unat n = min (unat len) 1048576 \<and> n' = n \<and>
            mem s2 (dst + word_of_nat i) = mem s (src + word_of_nat i) \<and>
            mem s1 (get_buf_from_pid q s + word_of_nat j) = mem s (get_buf_from_pid q s + word_of_nat j)"
proof -
  have i: "i < 1048576" "i < unat len" using assms(6) by simp_all
  have ui: "unat (word_of_nat i :: word64) = i" using i(1) by (simp add: unat_of_nat64)
  have lt: "word_of_nat i < share_buf_check_len len"
    unfolding word_less_nat_alt share_buf_check_len_eq ui by (rule assms(6))
  have out: "\<not> get_buf_from_pid q s + word_of_nat j - get_buf_from_pid p s < share_buf_check_len len"
    by (rule other_buffer_outside [OF assms(1-5,7)])
  show ?thesis
    unfolding sos_copyin_def sos_copyout_def Let_def prod.case memcpy_def share_buf_check_len_idem
    using lt out by (simp add: share_buf_check_len_eq get_buf_from_pid_def)
qed

theorem copyin_copyout_round_trip_witness:
  "let (n, s1) = sos_copyin 3 77 5 sos_example; (n', s2) = sos_copyout 3 99 n s1
   in unat n = 5 \<and> mem s2 (99 + 2) = mem sos_example (77 + 2) \<and>
      mem s1 (get_buf_from_pid 4 sos_example + 6) = mem sos_example (get_buf_from_pid 4 sos_example + 6)"
  using copyin_copyout_round_trip [of 3 4 2 5 6 77 sos_example 99] by (simp add: Let_def split_def)

end
