(* ===== verification/Console.thy ===== *)
theory Console
  imports Sharedbuf
begin

text \<open>
  The serial line, \<open>libserial/src/serial.c\<close>, and the console device on top of it,
  \<open>sos/src/dev/console.c\<close>. The line is a TCP socket of the picotcp library, whose calls are
  answered by the environment like those of the kernel. \<open>serial_socket\<close> is the socket of the
  static \<open>struct serial\<close>, 0 for a null pointer; the handler is always \<open>console_handler\<close>.
\<close>

section \<open>Definitions\<close>

abbreviation (input) BUFFER_SIZE :: nat where "BUFFER_SIZE \<equiv> 8192"
abbreviation (input) MAX_PAYLOAD_SIZE :: nat where "MAX_PAYLOAD_SIZE \<equiv> 1024"
abbreviation (input) NEWLINE :: byte where "NEWLINE \<equiv> 10"

subsection \<open>Serial line\<close>

definition serial_init :: "sos \<Rightarrow> bool \<times> sos" where
  "serial_init s =
     (if serial_socket s \<noteq> 0 then (False, s)
      else
        let (r, s) = kinvoke Pico_socket_open s;
            sock = word_of_int r :: word64;
            s = s\<lparr>serial_socket := sock\<rparr>
        in if sock = 0 then (False, s)
           else
             let (err, s) = kinvoke (Pico_socket_bind sock) s
             in if err \<noteq> 0 then (False, s)
                else
                  let (err, s) = kinvoke (Pico_socket_connect sock) s
                  in if err < 0 then (False, s) else (True, s))"

text \<open>
  The loop of \<open>serial_send\<close>: every round offers the whole buffer again, from its start. The
  peer and its port are left out of the call.
\<close>

partial_function (option) serial_send_loop :: "word64 \<Rightarrow> int \<Rightarrow> int \<Rightarrow> sos \<Rightarrow> (int \<times> sos) option" where
  "serial_send_loop data len total_sent s =
     (if total_sent < len then
        let (sent, s) = kinvoke (Pico_socket_sendto (serial_socket s) data len) s
        in if sent = - 1 then Some (- 1, s)
           else if sent = 0 then Some (total_sent, s)
           else serial_send_loop data len (total_sent + sent) s
      else Some (len, s))"

definition serial_send :: "word64 \<Rightarrow> int \<Rightarrow> sos \<Rightarrow> (int \<times> sos) option" where
  "serial_send data len s = do {
     c_assert (serial_socket s \<noteq> 0);
     serial_send_loop data len 0 s }"

declare serial_send_loop.simps [code]

subsection \<open>Console device\<close>

definition console_handler :: "world \<Rightarrow> byte \<Rightarrow> sos \<Rightarrow> sos option" where
  "console_handler W c s =
     (if reading s then do {
        b \<leftarrow> wr (con_buffer s) (unat (nbytes_read s)) c;
        let s = s\<lparr>con_buffer := b, nbytes_read := nbytes_read s + 1\<rparr>;
        if c = NEWLINE then resumes W (con_curr s) Woken s else Some s }
      else Some s)"

primrec console_handler_all :: "world \<Rightarrow> byte list \<Rightarrow> sos \<Rightarrow> sos option" where
  "console_handler_all W [] s = Some s"
| "console_handler_all W (c # cs) s = do { s \<leftarrow> console_handler W c s; console_handler_all W cs s }"

partial_function (option) serial_recv_loop :: "world \<Rightarrow> sos \<Rightarrow> sos option" where
  "serial_recv_loop W s =
     (let (_, s) = kinvoke (Pico_socket_recvfrom (serial_socket s)) s;
          bytes = take MAX_PAYLOAD_SIZE (received W (klog s))
      in do {
        s \<leftarrow> console_handler_all W bytes s;
        if length bytes > 0 then serial_recv_loop W s else Some s })"

definition serial_recv_handler :: "bool \<Rightarrow> world \<Rightarrow> sos \<Rightarrow> sos option" where
  "serial_recv_handler is_read W s = (if is_read then serial_recv_loop W s else Some s)"

definition console_init :: "sos \<Rightarrow> int \<times> sos" where
  "console_init s = (let (ok, s) = serial_init s in (0, s\<lparr>con_serial := (if ok then 1 else 0)\<rparr>))"

text \<open>
  The condition of \<open>console_open\<close> is \<open>flags & (O_ACCMODE == O_RDONLY)\<close>: in C the comparison binds
  tighter than the mask.
\<close>

definition c_eq :: "int \<Rightarrow> int \<Rightarrow> int" where
  "c_eq a b = (if a = b then 1 else 0)"

definition get_console :: "sos \<Rightarrow> word64 \<Rightarrow> (vnode \<times> word64) option" where
  "get_console s vn = do {
     v \<leftarrow> get_vnode s vn;
     (case vn_data v of Dev_data reader \<Rightarrow> Some (v, reader) | Nfs_data _ \<Rightarrow> None) }"

definition console_open :: "word64 \<Rightarrow> int \<Rightarrow> pid_t \<Rightarrow> sos \<Rightarrow> (int \<times> sos) option" where
  "console_open vn flags pid s = do {
     (v, reader) \<leftarrow> get_console s vn;
     if and flags (c_eq O_ACCMODE O_RDONLY) \<noteq> 0 then
       if reader \<noteq> 0 then Some (- 1, s)
       else do {
         p \<leftarrow> proc_get pid s;
         Some (0, set_vnode vn (v\<lparr>vn_data := Dev_data p\<rparr>) s) }
     else Some (0, s) }"

definition console_close :: "word64 \<Rightarrow> pid_t \<Rightarrow> sos \<Rightarrow> (int \<times> sos) option" where
  "console_close vn pid s = do {
     (v, reader) \<leftarrow> get_console s vn;
     p \<leftarrow> proc_get pid s;
     Some (0, if reader = p then set_vnode vn (v\<lparr>vn_data := Dev_data 0\<rparr>) s else s) }"

text \<open>\<open>msg\<close> has \<open>BUFFER_SIZE\<close> bytes, and the byte after the copied ones is set to zero.\<close>

definition console_read :: "world \<Rightarrow> uio \<Rightarrow> sos \<Rightarrow> (int \<times> sos) option" where
  "console_read W u s = do {
     let s = s\<lparr>reading := True, con_curr := running s\<rparr>;
     (_, s) \<leftarrow> yields W On_console s;
     let i = min (unat (u_len u)) (unat (nbytes_read s));
     c_assert (i \<le> length (con_buffer s));
     let msg = take i (con_buffer s);
     let s = s\<lparr>reading := False, nbytes_read := 0\<rparr>;
     c_assert (i < BUFFER_SIZE);
     (_, s) \<leftarrow> copyin_bytes (u_pid u) msg (word_of_nat i) s;
     Some (int i, s) }"

definition console_write :: "uio \<Rightarrow> sos \<Rightarrow> (int \<times> sos) option" where
  "console_write u s = do {
     p \<leftarrow> proc_get (u_pid u) s;
     v \<leftarrow> get_proc s p;
     c_assert (con_serial s \<noteq> 0);
     serial_send (p_shared_buf v) (word_to_int32 (u_len u)) s }"

declare serial_recv_loop.simps [code]

section \<open>Lemmas\<close>

lemma take_Suc_list_update:
  "i < length xs \<Longrightarrow> take (Suc i) (xs[i := x]) = take i xs @ [x]"
  by (simp add: take_Suc_conv_app_nth)

text \<open>Characters of a line that has not ended are appended to what was typed before.\<close>

lemma console_handler_all_appends:
  assumes "reading s" "NEWLINE \<notin> set bs" "unat (nbytes_read s) + length bs \<le> length (con_buffer s)"
    "length (con_buffer s) < 2 ^ 63"
  shows "\<exists>s'. console_handler_all W bs s = Some s' \<and> reading s' \<and>
    unat (nbytes_read s') = unat (nbytes_read s) + length bs \<and> length (con_buffer s') = length (con_buffer s) \<and>
    take (unat (nbytes_read s')) (con_buffer s') = take (unat (nbytes_read s)) (con_buffer s) @ bs"
  using assms
proof (induction bs arbitrary: s)
  case (Cons c cs)
  let ?n = "unat (nbytes_read s)"
  let ?s = "s\<lparr>con_buffer := (con_buffer s)[?n := c], nbytes_read := nbytes_read s + 1\<rparr>"
  have n: "?n < length (con_buffer s)" using Cons.prems(3) by simp
  have u: "unat (nbytes_read s + 1) = Suc ?n"
    using n Cons.prems(4) by (subst unat_add64) simp_all
  have h: "console_handler W c s = Some ?s"
    using Cons.prems(1,2) n by (simp add: console_handler_def)
  have "\<exists>s'. console_handler_all W cs ?s = Some s' \<and> reading s' \<and>
      unat (nbytes_read s') = unat (nbytes_read ?s) + length cs \<and> length (con_buffer s') = length (con_buffer ?s) \<and>
      take (unat (nbytes_read s')) (con_buffer s') = take (unat (nbytes_read ?s)) (con_buffer ?s) @ cs"
    by (rule Cons.IH) (use Cons.prems u in simp_all)
  then show ?case using h u n by (simp add: take_Suc_list_update)
qed simp

lemma console_handler_all_append:
  "console_handler_all W (as @ bs) s = console_handler_all W as s \<bind> console_handler_all W bs"
  by (induction as arbitrary: s) auto

section \<open>Properties\<close>

text \<open>
  C33. The console collects a line up to the size of its buffer and not further: characters
  typed before the end of the line are appended in order as long as they fit into the 8192
  bytes, and one more writes past the end of the buffer, since \<open>console_handler\<close> has no bound.
\<close>

theorem console_line_bound:
  assumes "reading s" "nbytes_read s = 0" "length (con_buffer s) = BUFFER_SIZE" "NEWLINE \<notin> set line"
  shows "if length line \<le> BUFFER_SIZE
         then \<exists>s'. console_handler_all W line s = Some s' \<and> unat (nbytes_read s') = length line \<and>
                take (length line) (con_buffer s') = line
         else console_handler_all W line s = None"
proof (cases "length line \<le> BUFFER_SIZE")
  case True
  then show ?thesis using console_handler_all_appends [of s line W] assms by fastforce
next
  case False
  obtain c cs where line: "line = take BUFFER_SIZE line @ c # cs"
    using False by (metis append_take_drop_id drop_eq_Nil2 neq_Nil_conv)
  have nl: "NEWLINE \<notin> set (take BUFFER_SIZE line)" using assms(4) by (meson in_set_takeD)
  obtain s' where s': "console_handler_all W (take BUFFER_SIZE line) s = Some s'" "reading s'"
    "unat (nbytes_read s') = BUFFER_SIZE" "length (con_buffer s') = BUFFER_SIZE"
    using console_handler_all_appends [OF assms(1) nl, of W] assms(2,3) False by auto
  have "console_handler_all W line s = console_handler_all W (c # cs) s'"
    by (subst line) (simp only: console_handler_all_append s'(1) Option.bind.bind_lunit)
  then show ?thesis using False s' by (simp add: console_handler_def)
qed

theorem console_line_bound_witness:
  "let s = sos_example\<lparr>reading := True, con_buffer := replicate BUFFER_SIZE 0\<rparr>
   in (\<exists>s'. console_handler_all world_example [104, 105] s = Some s' \<and> take (Suc (Suc 0)) (con_buffer s') = [104, 105])"
proof -
  let ?s = "sos_example\<lparr>reading := True, con_buffer := replicate BUFFER_SIZE 0\<rparr>"
  have "nbytes_read ?s = 0" by (simp add: sos_example_def)
  then show ?thesis
    using console_line_bound [of ?s "[104, 105]" world_example]
    by (auto simp: Let_def simp del: console_handler_all.simps)
qed

text \<open>
  The rule that only one process reads the console is never enforced: whatever the flags,
  \<open>console_open\<close> of a console vnode succeeds and changes nothing, because its test masks the
  flags with the comparison \<open>O_ACCMODE == O_RDONLY\<close>, which is false.
\<close>

theorem console_open_never_refuses:
  "console_open vn flags pid s = (case get_console s vn of None \<Rightarrow> None | Some _ \<Rightarrow> Some (0, s))"
  by (auto simp: console_open_def c_eq_def split: option.splits)

end
