(* ===== verification/Vfs.thy ===== *)
theory Vfs
  imports Console
begin

text \<open>
  The virtual file system: vnodes (\<open>sos/src/vfs/vnode.c\<close>), the device operations
  (\<open>sos/src/vfs/device_vops.c\<close>), the NFS operations with their callbacks
  (\<open>sos/src/fs/libnfs_vops.c\<close>) and the name space (\<open>sos/src/vfs/vfs.c\<close>).

  An NFS operation sends its request, yields, and goes on in the state in which the library
  calls its callback; the callback's part and the rest of the operation follow each other
  without another event, since the callback resumes the coroutine directly. A callback that
  calls \<open>exit\<close> is the outcome \<open>None\<close>. The pointers an operation returns through its arguments
  are further components of its result.
\<close>

section \<open>Definitions\<close>

abbreviation (input) FM_EXEC :: int where "FM_EXEC \<equiv> 1"
abbreviation (input) FM_WRITE :: int where "FM_WRITE \<equiv> 2"
abbreviation (input) FM_READ :: int where "FM_READ \<equiv> 4"

record sos_stat_t =
  st_type :: int
  st_fmode :: int
  st_size :: word32
  st_ctime :: word64
  st_atime :: word64

subsection \<open>Vnodes\<close>

definition vnode_init :: "word64 \<Rightarrow> vn_ops_t \<Rightarrow> vn_data_t \<Rightarrow> sos \<Rightarrow> (int \<times> sos) option" where
  "vnode_init vn ops fsdata s = do {
     c_assert (vn \<noteq> 0);
     Some (0, set_vnode vn \<lparr>vn_refcount = 1, vn_data = fsdata, vn_ops = Some ops\<rparr> s) }"

definition vnode_cleanup :: "word64 \<Rightarrow> sos \<Rightarrow> sos option" where
  "vnode_cleanup vn s = do {
     v \<leftarrow> get_vnode s vn;
     c_assert (vn_refcount v = 1);
     Some (set_vnode vn (v\<lparr>vn_refcount := 0, vn_data := Dev_data 0, vn_ops := None\<rparr>) s) }"

definition vnode_incref :: "word64 \<Rightarrow> sos \<Rightarrow> sos option" where
  "vnode_incref vn s = do {
     v \<leftarrow> get_vnode s vn;
     Some (set_vnode vn (v\<lparr>vn_refcount := vn_refcount v + 1\<rparr>) s) }"

text \<open>
  The macro \<open>__VOP\<close>: \<open>vnode_check\<close> only reports, but it reads the vnode and its operations, so a
  null pointer ends the run there.
\<close>

definition VOP :: "word64 \<Rightarrow> sos \<Rightarrow> vn_ops_t option" where
  "VOP vn s = do { v \<leftarrow> get_vnode s vn; vn_ops v }"

definition nfs_data_of :: "word64 \<Rightarrow> sos \<Rightarrow> vnode_nfs_data option" where
  "nfs_data_of vn s = do {
     v \<leftarrow> get_vnode s vn;
     (case vn_data v of Nfs_data d \<Rightarrow> Some d | Dev_data _ \<Rightarrow> None) }"

definition set_nfs_data :: "word64 \<Rightarrow> vnode_nfs_data \<Rightarrow> sos \<Rightarrow> sos option" where
  "set_nfs_data vn d s = do {
     v \<leftarrow> get_vnode s vn;
     Some (set_vnode vn (v\<lparr>vn_data := Nfs_data d\<rparr>) s) }"

subsection \<open>Counting the operations of a process\<close>

definition coro_inc :: "word64 \<Rightarrow> sos \<Rightarrow> sos option" where
  "coro_inc p s = upd_proc p (\<lambda>v. v\<lparr>p_coro_count := p_coro_count v + 1\<rparr>) s"

definition coro_dec :: "word64 \<Rightarrow> sos \<Rightarrow> sos option" where
  "coro_dec p s = upd_proc p (\<lambda>v. v\<lparr>p_coro_count := p_coro_count v - 1\<rparr>) s"

text \<open>A request: \<open>None\<close> inside the result if the library refuses it, else the answer.\<close>

definition nfs_call :: "world \<Rightarrow> nfs_request \<Rightarrow> sos \<Rightarrow> ((int \<times> nfs_payload) option \<times> sos) option" where
  "nfs_call W req s =
     (if nfs_refuses W req s then Some (None, s)
      else do {
        (w, s) \<leftarrow> yields W (On_nfs req) s;
        (case w of Nfs_answer status data \<Rightarrow> Some (Some (status, data), s) | _ \<Rightarrow> None) })"

subsection \<open>Callbacks\<close>

definition nfs_open_cb :: "int \<Rightarrow> nfs_payload \<Rightarrow> word64 \<Rightarrow> sos \<Rightarrow> (int \<times> sos) option" where
  "nfs_open_cb status data vn s = do {
     d \<leftarrow> nfs_data_of vn s;
     h \<leftarrow> (case data of File_handle h \<Rightarrow> Some h | _ \<Rightarrow> None);
     s \<leftarrow> set_nfs_data vn (d\<lparr>nv_nfsfh := h\<rparr>) s;
     Some (status, s) }"

definition nfs_close_cb :: "int \<Rightarrow> word64 \<Rightarrow> sos \<Rightarrow> (int \<times> sos) option" where
  "nfs_close_cb status vn s = do {
     d \<leftarrow> nfs_data_of vn s;
     c_assert (\<not> status < 0);
     s \<leftarrow> set_nfs_data vn (d\<lparr>nv_nfsfh := 0\<rparr>) s;
     Some (0, s) }"

definition nfs_read_cb :: "int \<Rightarrow> nfs_payload \<Rightarrow> uio \<Rightarrow> sos \<Rightarrow> (int \<times> sos) option" where
  "nfs_read_cb status data u s = do {
     c_assert (\<not> status < 0);
     bs \<leftarrow> (case data of Bytes bs \<Rightarrow> Some bs | _ \<Rightarrow> None);
     (n, s) \<leftarrow> copyin_bytes (u_pid u) bs (word_of_int status) s;
     Some (uint n, s) }"

definition nfs_write_cb :: "int \<Rightarrow> sos \<Rightarrow> (int \<times> sos) option" where
  "nfs_write_cb status s = do { c_assert (\<not> status < 0); Some (status, s) }"

text \<open>\<open>nfs_readdir\<close> walks the entries of the directory; \<open>i\<close> counts up to the wanted position.\<close>

fun readdir_pos :: "string list \<Rightarrow> nat \<Rightarrow> nat \<Rightarrow> string option" where
  "readdir_pos [] i len = None"
| "readdir_pos (e # es) i len =
     (if i \<le> len then if i = len then Some e else readdir_pos es (i + 1) len else None)"

definition nfs_dirent_cb :: "int \<Rightarrow> nfs_payload \<Rightarrow> nat \<Rightarrow> uio \<Rightarrow> string option option" where
  "nfs_dirent_cb status data i u = do {
     c_assert (\<not> status < 0);
     es \<leftarrow> (case data of Dirents es \<Rightarrow> Some es | _ \<Rightarrow> None);
     Some (readdir_pos es i (unat (u_len u))) }"

definition nfs_stat64_cb :: "int \<Rightarrow> nfs_payload \<Rightarrow> sos_stat_t \<Rightarrow> (int \<times> sos_stat_t) option" where
  "nfs_stat64_cb status data buf =
     (if status < 0 then Some (- 1, buf)
      else (case data of
              Stat st \<Rightarrow> Some (0, \<lparr>st_type = 0, st_fmode = word_to_int32 (nfs_mode st), st_size = ucast (nfs_size st),
                                  st_ctime = nfs_ctime st, st_atime = nfs_atime st\<rparr>)
            | _ \<Rightarrow> None))"

subsection \<open>Creating and closing NFS vnodes\<close>

definition nfs_create_vnode :: "world \<Rightarrow> sos \<Rightarrow> (word64 \<times> sos) option" where
  "nfs_create_vnode W s =
     (let (v, s) = malloc 24 s
      in if v = 0 then Some (0, s)
         else do {
           (_, s) \<leftarrow> vnode_init v Nfs_ops (Nfs_data ((fresh_nfs_data W v)\<lparr>nv_next := 0\<rparr>)) s;
           Some (v, s) })"

definition nfs_uncreate_vnode :: "word64 \<Rightarrow> sos \<Rightarrow> sos option" where
  "nfs_uncreate_vnode vn s = do {
     v \<leftarrow> get_vnode s vn;
     c_assert (vn_ops v = Some Nfs_ops);
     s \<leftarrow> vnode_cleanup vn s;
     Some (s\<lparr>vnode_mem := (vnode_mem s)(vn := None)\<rparr>) }"

text \<open>\<open>vnfs_creat\<close>: the new vnode goes behind its directory in the chain; a zombie leaves the result unset.\<close>

definition vnfs_creat :: "world \<Rightarrow> word64 \<Rightarrow> string \<Rightarrow> pid_t \<Rightarrow> sos \<Rightarrow> ((int \<times> word64 option) \<times> sos) option" where
  "vnfs_creat W dir name pid s = do {
     p \<leftarrow> proc_get pid s;
     pr \<leftarrow> get_proc s p;
     if p_state pr = ZOMBIE then Some ((0, None), s)
     else do {
       s \<leftarrow> coro_inc p s;
       (r, s) \<leftarrow> nfs_create_vnode W s;
       d \<leftarrow> nfs_data_of dir s;
       s \<leftarrow> set_nfs_data dir (d\<lparr>nv_next := r\<rparr>) s;
       d' \<leftarrow> nfs_data_of r s;
       s \<leftarrow> set_nfs_data r (d'\<lparr>nv_path := name, nv_next := nv_next d\<rparr>) s;
       s \<leftarrow> coro_dec p s;
       Some ((0, Some r), s) } }"

definition VOP_CREAT :: "world \<Rightarrow> word64 \<Rightarrow> string \<Rightarrow> pid_t \<Rightarrow> sos \<Rightarrow> ((int \<times> word64 option) \<times> sos) option" where
  "VOP_CREAT W dir name pid s = do {
     ops \<leftarrow> VOP dir s;
     (case ops of Nfs_ops \<Rightarrow> vnfs_creat W dir name pid s | Dev_ops \<Rightarrow> None) }"

definition vnfs_reclaim :: "world \<Rightarrow> word64 \<Rightarrow> pid_t \<Rightarrow> sos \<Rightarrow> (int \<times> sos) option" where
  "vnfs_reclaim W v pid s = do {
     p \<leftarrow> proc_get pid s;
     pr \<leftarrow> get_proc s p;
     if p_state pr = ZOMBIE then Some (0, s)
     else do {
       s \<leftarrow> coro_inc p s;
       d \<leftarrow> nfs_data_of v s;
       (a, s) \<leftarrow> nfs_call W (Nfs_close (nv_nfsfh d)) s;
       (case a of
          None \<Rightarrow> do { s \<leftarrow> coro_dec p s; Some (- 1, s) }
        | Some (status, _) \<Rightarrow> do {
            (ret, s) \<leftarrow> nfs_close_cb status v s;
            s \<leftarrow> coro_dec p s;
            Some (ret, s) }) } }"

definition dev_reclaim :: "word64 \<Rightarrow> pid_t \<Rightarrow> sos \<Rightarrow> (int \<times> sos) option" where
  "dev_reclaim v pid s = console_close v pid s"

definition VOP_RECLAIM :: "world \<Rightarrow> word64 \<Rightarrow> pid_t \<Rightarrow> sos \<Rightarrow> (int \<times> sos) option" where
  "VOP_RECLAIM W vn pid s = do {
     ops \<leftarrow> VOP vn s;
     (case ops of Nfs_ops \<Rightarrow> vnfs_reclaim W vn pid s | Dev_ops \<Rightarrow> dev_reclaim vn pid s) }"

definition vnode_decref :: "world \<Rightarrow> word64 \<Rightarrow> pid_t \<Rightarrow> sos \<Rightarrow> sos option" where
  "vnode_decref W vn pid s = do {
     v \<leftarrow> get_vnode s vn;
     c_assert (vn_refcount v > 0);
     if vn_refcount v > 1 then Some (set_vnode vn (v\<lparr>vn_refcount := vn_refcount v - 1\<rparr>) s)
     else do { (_, s) \<leftarrow> VOP_RECLAIM W vn pid s; Some s } }"

subsection \<open>NFS operations\<close>

definition vnfs_eachopen :: "world \<Rightarrow> word64 \<Rightarrow> int \<Rightarrow> pid_t \<Rightarrow> sos \<Rightarrow> (int \<times> sos) option" where
  "vnfs_eachopen W v flags pid s = do {
     p \<leftarrow> proc_get pid s;
     pr \<leftarrow> get_proc s p;
     if p_state pr = ZOMBIE then Some (0, s)
     else do {
       s \<leftarrow> coro_inc p s;
       s \<leftarrow> vnode_incref v s;
       d \<leftarrow> nfs_data_of v s;
       (a, s) \<leftarrow> nfs_call W (Nfs_open (nv_path d) flags) s;
       (case a of
          None \<Rightarrow> do { s \<leftarrow> coro_dec p s; Some (- 1, s) }
        | Some (status, data) \<Rightarrow> do {
            (ret, s) \<leftarrow> nfs_open_cb status data v s;
            s \<leftarrow> coro_dec p s;
            Some (ret, s) }) } }"

definition vnfs_write :: "world \<Rightarrow> word64 \<Rightarrow> uio \<Rightarrow> sos \<Rightarrow> (int \<times> sos) option" where
  "vnfs_write W v u s = do {
     p \<leftarrow> proc_get (u_pid u) s;
     pr \<leftarrow> get_proc s p;
     if p_state pr = ZOMBIE then Some (0, s)
     else do {
       s \<leftarrow> coro_inc p s;
       pr \<leftarrow> get_proc s p;
       d \<leftarrow> nfs_data_of v s;
       let len = (if u_len u > push_bit 14 1 then push_bit 14 1 else u_len u);
       let len = share_buf_check_len len;
       c_assert (len = 0 \<or> p_shared_buf pr \<noteq> 0);
       (a, s) \<leftarrow> nfs_call W (Nfs_pwrite (nv_nfsfh d) (u_offset u)
                   (load_list (mem s) (p_shared_buf pr) (unat len))) s;
       (case a of
          None \<Rightarrow> do { s \<leftarrow> coro_dec p s; Some (- 1, s) }
        | Some (status, _) \<Rightarrow> do {
            (ret, s) \<leftarrow> nfs_write_cb status s;
            s \<leftarrow> coro_dec p s;
            Some (ret, s) }) } }"

definition vnfs_read :: "world \<Rightarrow> word64 \<Rightarrow> uio \<Rightarrow> sos \<Rightarrow> (int \<times> sos) option" where
  "vnfs_read W v u s = do {
     p \<leftarrow> proc_get (u_pid u) s;
     pr \<leftarrow> get_proc s p;
     if p_state pr = ZOMBIE then Some (0, s)
     else do {
       s \<leftarrow> coro_inc p s;
       d \<leftarrow> nfs_data_of v s;
       (a, s) \<leftarrow> nfs_call W (Nfs_pread (nv_nfsfh d) (u_offset u) (u_len u)) s;
       (case a of
          None \<Rightarrow> do { s \<leftarrow> coro_dec p s; Some (- 1, s) }
        | Some (status, data) \<Rightarrow> do {
            (ret, s) \<leftarrow> nfs_read_cb status data u s;
            s \<leftarrow> coro_dec p s;
            Some (ret, s) }) } }"

fun find_device_pos :: "(string \<times> word64) list \<Rightarrow> nat \<Rightarrow> nat \<Rightarrow> string option \<times> nat" where
  "find_device_pos [] i len = (None, i)"
| "find_device_pos (d # ds) i len =
     (if i \<le> len then if i = len then (Some (fst d), i) else find_device_pos ds (i + 1) len else (None, i))"

fun find_device_name :: "(string \<times> word64) list \<Rightarrow> string \<Rightarrow> word64" where
  "find_device_name [] name = 0"
| "find_device_name (d # ds) name = (if name = fst d then snd d else find_device_name ds name)"

text \<open>A name and its terminating zero copied to the caller's buffer.\<close>

definition copyin_name :: "pid_t \<Rightarrow> string \<Rightarrow> sos \<Rightarrow> (int \<times> sos) option" where
  "copyin_name pid name s = do {
     let len = (word_of_nat (length name + 1) :: word64);
     (n, s) \<leftarrow> copyin_bytes pid (string_bytes name) len s;
     c_assert (n = len);
     Some (int (length name + 1), s) }"

definition vnfs_getdirent :: "world \<Rightarrow> word64 \<Rightarrow> uio \<Rightarrow> sos \<Rightarrow> (int \<times> sos) option" where
  "vnfs_getdirent W dir u s = do {
     p \<leftarrow> proc_get (u_pid u) s;
     pr \<leftarrow> get_proc s p;
     if p_state pr = ZOMBIE then Some (0, s)
     else do {
       s \<leftarrow> coro_inc p s;
       d \<leftarrow> nfs_data_of dir s;
       (case find_device_pos (nv_dev_list d) 0 (unat (u_len u)) of
          (Some name, _) \<Rightarrow> do {
            (n, s) \<leftarrow> copyin_name (u_pid u) name s;
            s \<leftarrow> coro_dec p s;
            Some (n, s) }
        | (None, i) \<Rightarrow> do {
            (a, s) \<leftarrow> nfs_call W (Nfs_opendir '''') s;
            (case a of
               None \<Rightarrow> do { s \<leftarrow> coro_dec p s; Some (- 1, s) }
             | Some (status, data) \<Rightarrow> do {
                 found \<leftarrow> nfs_dirent_cb status data i u;
                 (case found of
                    None \<Rightarrow> do { s \<leftarrow> coro_dec p s; Some (0, s) }
                  | Some path \<Rightarrow> do {
                      (n, s) \<leftarrow> copyin_name (u_pid u) path s;
                      s \<leftarrow> coro_dec p s;
                      Some (n, s) }) }) }) } }"

definition vnfs_stat :: "world \<Rightarrow> word64 \<Rightarrow> sos_stat_t \<Rightarrow> pid_t \<Rightarrow> sos \<Rightarrow> ((int \<times> sos_stat_t) \<times> sos) option" where
  "vnfs_stat W v buf pid s = do {
     p \<leftarrow> proc_get pid s;
     pr \<leftarrow> get_proc s p;
     if p_state pr = ZOMBIE then Some ((0, buf), s)
     else do {
       s \<leftarrow> coro_inc p s;
       d \<leftarrow> nfs_data_of v s;
       (a, s) \<leftarrow> nfs_call W (Nfs_stat64 (nv_path d)) s;
       (case a of
          None \<Rightarrow> do { s \<leftarrow> coro_dec p s; Some ((- 1, buf), s) }
        | Some (status, data) \<Rightarrow> do {
            r \<leftarrow> nfs_stat64_cb status data buf;
            s \<leftarrow> coro_dec p s;
            Some (r, s) }) } }"

text \<open>The chain of vnodes from \<open>cur\<close>; it may not end if it has a cycle.\<close>

partial_function (option) lookup_walk :: "word64 \<Rightarrow> string \<Rightarrow> sos \<Rightarrow> word64 option" where
  "lookup_walk cur pathname s =
     (if cur = 0 then Some 0
      else do {
        d \<leftarrow> nfs_data_of cur s;
        if pathname = nv_path d then Some cur else lookup_walk (nv_next d) pathname s })"

definition nfs_lookup_cb ::
  "world \<Rightarrow> int \<Rightarrow> nfs_payload \<Rightarrow> string \<Rightarrow> word64 \<Rightarrow> sos \<Rightarrow> ((int \<times> word64) \<times> sos) option" where
  "nfs_lookup_cb W status data path vn s = do {
     c_assert (\<not> status < 0);
     es \<leftarrow> (case data of Dirents es \<Rightarrow> Some es | _ \<Rightarrow> None);
     if path \<in> set es then do {
       ((_, r), s) \<leftarrow> VOP_CREAT W vn path 0 s;
       Some ((0, (case r of None \<Rightarrow> 0 | Some r \<Rightarrow> r)), s) }
     else Some ((- 1, vn), s) }"

definition nfs_create_cb :: "int \<Rightarrow> nfs_payload \<Rightarrow> word64 \<Rightarrow> sos \<Rightarrow> (int \<times> sos) option" where
  "nfs_create_cb status data vn s = do {
     d \<leftarrow> nfs_data_of vn s;
     h \<leftarrow> (case data of File_handle h \<Rightarrow> Some h | _ \<Rightarrow> None);
     s \<leftarrow> set_nfs_data vn (d\<lparr>nv_nfsfh := h\<rparr>) s;
     c_assert (\<not> status < 0);
     s \<leftarrow> vnode_incref vn s;
     Some (0, s) }"

text \<open>
  The part of \<open>vnfs_lookup\<close> that creates the file, for a name that the directory does not have. The
  boolean says whether the operation ends early, without setting \<open>*result\<close>.
\<close>

definition lookup_create ::
  "world \<Rightarrow> string \<Rightarrow> word64 \<Rightarrow> sos \<Rightarrow> ((int \<times> bool \<times> word64) \<times> sos) option" where
  "lookup_create W path vn s = do {
     ((_, r), s) \<leftarrow> VOP_CREAT W vn path 0 s;
     new \<leftarrow> r;
     let flags = or O_RDWR O_CREAT;
     let rw = or FM_READ FM_WRITE;
     (a, s) \<leftarrow> nfs_call W (Nfs_creat path flags (or (or (push_bit 6 rw) (push_bit 3 rw)) rw)) s;
     (case a of
        None \<Rightarrow> do { (_, s) \<leftarrow> VOP_RECLAIM W new 0 s; Some ((- 1, True, new), s) }
      | Some (status, data) \<Rightarrow> do {
          (ret, s) \<leftarrow> nfs_create_cb status data new s;
          (_, s) \<leftarrow> VOP_RECLAIM W new 0 s;
          Some ((ret, False, new), s) }) }"

definition vnfs_lookup ::
  "world \<Rightarrow> word64 \<Rightarrow> string \<Rightarrow> bool \<Rightarrow> pid_t \<Rightarrow> sos \<Rightarrow> ((int \<times> word64 option) \<times> sos) option" where
  "vnfs_lookup W dir pathname create pid s = do {
     p \<leftarrow> proc_get pid s;
     pr \<leftarrow> get_proc s p;
     if p_state pr = ZOMBIE then Some ((0, None), s)
     else do {
       s \<leftarrow> coro_inc p s;
       found \<leftarrow> lookup_walk dir pathname s;
       if found \<noteq> 0 then do { s \<leftarrow> coro_dec p s; Some ((0, Some found), s) }
       else do {
         d \<leftarrow> nfs_data_of dir s;
         if find_device_name (nv_dev_list d) pathname \<noteq> 0 then do { s \<leftarrow> coro_dec p s; Some ((0, Some 0), s) }
         else do {
           (a, s) \<leftarrow> nfs_call W (Nfs_opendir '''') s;
           (case a of
              None \<Rightarrow> do { s \<leftarrow> coro_dec p s; Some ((- 1, Some 0), s) }
            | Some (status, data) \<Rightarrow> do {
                ((ret, vn), s) \<leftarrow> nfs_lookup_cb W status data pathname dir s;
                if ret \<noteq> 0 \<and> create then do {
                  ((ret, early, vn), s) \<leftarrow> lookup_create W pathname vn s;
                  if early then do { s \<leftarrow> coro_dec p s; Some ((ret, Some 0), s) }
                  else do { s \<leftarrow> coro_dec p s; Some ((ret, Some vn), s) } }
                else do { s \<leftarrow> coro_dec p s; Some ((ret, Some vn), s) } }) } } } }"

declare lookup_walk.simps [code]

subsection \<open>Device operations\<close>

definition dev_eachopen :: "word64 \<Rightarrow> int \<Rightarrow> pid_t \<Rightarrow> sos \<Rightarrow> (int \<times> sos) option" where
  "dev_eachopen v flags pid s = console_open v flags pid s"

definition dev_write :: "word64 \<Rightarrow> uio \<Rightarrow> sos \<Rightarrow> (int \<times> sos) option" where
  "dev_write v u s = console_write u s"

definition dev_read :: "world \<Rightarrow> word64 \<Rightarrow> uio \<Rightarrow> sos \<Rightarrow> (int \<times> sos) option" where
  "dev_read W v u s = console_read W u s"

definition dev_stat :: "sos_stat_t \<Rightarrow> int \<times> sos_stat_t" where
  "dev_stat buf = (0, buf\<lparr>st_fmode := or FM_READ FM_WRITE, st_atime := 0, st_ctime := 0, st_type := 2, st_size := 0\<rparr>)"

definition dev_create_vnode :: "sos \<Rightarrow> (word64 \<times> sos) option" where
  "dev_create_vnode s =
     (let (v, s) = malloc 24 s
      in if v = 0 then Some (0, s)
         else do { (_, s) \<leftarrow> vnode_init v Dev_ops (Dev_data 0) s; Some (v, s) })"

definition dev_uncreate_vnode :: "word64 \<Rightarrow> sos \<Rightarrow> sos option" where
  "dev_uncreate_vnode vn s = do {
     v \<leftarrow> get_vnode s vn;
     c_assert (vn_ops v = Some Dev_ops);
     s \<leftarrow> vnode_cleanup vn s;
     Some (s\<lparr>vnode_mem := (vnode_mem s)(vn := None)\<rparr>) }"

subsection \<open>Dispatch\<close>

definition VOP_EACHOPEN :: "world \<Rightarrow> word64 \<Rightarrow> int \<Rightarrow> pid_t \<Rightarrow> sos \<Rightarrow> (int \<times> sos) option" where
  "VOP_EACHOPEN W vn flags pid s = do {
     ops \<leftarrow> VOP vn s;
     (case ops of Nfs_ops \<Rightarrow> vnfs_eachopen W vn flags pid s | Dev_ops \<Rightarrow> dev_eachopen vn flags pid s) }"

definition VOP_WRITE :: "world \<Rightarrow> word64 \<Rightarrow> uio \<Rightarrow> sos \<Rightarrow> (int \<times> sos) option" where
  "VOP_WRITE W vn u s = do {
     ops \<leftarrow> VOP vn s;
     (case ops of Nfs_ops \<Rightarrow> vnfs_write W vn u s | Dev_ops \<Rightarrow> dev_write vn u s) }"

definition VOP_READ :: "world \<Rightarrow> word64 \<Rightarrow> uio \<Rightarrow> sos \<Rightarrow> (int \<times> sos) option" where
  "VOP_READ W vn u s = do {
     ops \<leftarrow> VOP vn s;
     (case ops of Nfs_ops \<Rightarrow> vnfs_read W vn u s | Dev_ops \<Rightarrow> dev_read W vn u s) }"

definition VOP_GETDIRENTRY :: "world \<Rightarrow> word64 \<Rightarrow> uio \<Rightarrow> sos \<Rightarrow> (int \<times> sos) option" where
  "VOP_GETDIRENTRY W vn u s = do {
     ops \<leftarrow> VOP vn s;
     (case ops of Nfs_ops \<Rightarrow> vnfs_getdirent W vn u s | Dev_ops \<Rightarrow> Some (0, s)) }"

definition VOP_STAT :: "world \<Rightarrow> word64 \<Rightarrow> sos_stat_t \<Rightarrow> pid_t \<Rightarrow> sos \<Rightarrow> ((int \<times> sos_stat_t) \<times> sos) option" where
  "VOP_STAT W vn buf pid s = do {
     ops \<leftarrow> VOP vn s;
     (case ops of Nfs_ops \<Rightarrow> vnfs_stat W vn buf pid s | Dev_ops \<Rightarrow> Some (dev_stat buf, s)) }"

definition VOP_LOOKUP ::
  "world \<Rightarrow> word64 \<Rightarrow> string \<Rightarrow> bool \<Rightarrow> pid_t \<Rightarrow> sos \<Rightarrow> ((int \<times> word64 option) \<times> sos) option" where
  "VOP_LOOKUP W vn name create pid s = do {
     ops \<leftarrow> VOP vn s;
     (case ops of Nfs_ops \<Rightarrow> vnfs_lookup W vn name create pid s | Dev_ops \<Rightarrow> Some ((0, None), s)) }"

subsection \<open>The name space\<close>

definition find_device :: "string \<Rightarrow> sos \<Rightarrow> word64" where
  "find_device name s = find_device_name (device_list s) name"

text \<open>The results: the error code, the vnode (\<open>None\<close> if \<open>*retval\<close> was never set), the state.\<close>

definition vfs_lookup :: "world \<Rightarrow> string \<Rightarrow> bool \<Rightarrow> pid_t \<Rightarrow> sos \<Rightarrow> ((int \<times> word64 option) \<times> sos) option" where
  "vfs_lookup W path create pid s =
     (let startvn = find_device path s
      in if startvn \<noteq> 0 then Some ((0, Some startvn), s)
         else if path \<noteq> '''' then VOP_LOOKUP W (root s) path create pid s
         else Some ((0, Some (root s)), s))"

definition vfs_open :: "world \<Rightarrow> string \<Rightarrow> int \<Rightarrow> pid_t \<Rightarrow> sos \<Rightarrow> ((int \<times> word64 option) \<times> sos) option" where
  "vfs_open W path mode pid s = do {
     ((err, res), s) \<leftarrow> vfs_lookup W path True pid s;
     if err \<noteq> 0 then Some ((1, None), s)
     else do {
       vn \<leftarrow> res;
       (err, s) \<leftarrow> VOP_EACHOPEN W vn mode pid s;
       if err \<noteq> 0 then Some ((1, None), s) else Some ((0, Some vn), s) } }"

definition vfs_close :: "world \<Rightarrow> word64 \<Rightarrow> pid_t \<Rightarrow> sos \<Rightarrow> sos option" where
  "vfs_close W vn pid s = vnode_decref W vn pid s"

definition nfs_bootstrap :: "world \<Rightarrow> sos \<Rightarrow> (word64 \<times> sos) option" where
  "nfs_bootstrap W s = do {
     c_assert (nfs_ready s);
     (v, s) \<leftarrow> nfs_create_vnode W s;
     d \<leftarrow> nfs_data_of v s;
     s \<leftarrow> set_nfs_data v (d\<lparr>nv_path := ''''\<rparr>) s;
     c_assert (nv_next d = 0);
     Some (v, s) }"

definition vfs_bootstrap :: "world \<Rightarrow> sos \<Rightarrow> sos option" where
  "vfs_bootstrap W s = do {
     (vn, s) \<leftarrow> dev_create_vnode s;
     let s = s\<lparr>device_list := [(''console'', vn)]\<rparr>;
     let (_, s) = console_init s;
     (r, s) \<leftarrow> nfs_bootstrap W s;
     let s = s\<lparr>root := r\<rparr>;
     d \<leftarrow> nfs_data_of r s;
     set_nfs_data r (d\<lparr>nv_dev_list := device_list s\<rparr>) s }"

definition nfs_get_statbuf ::
  "world \<Rightarrow> word64 \<Rightarrow> string \<Rightarrow> sos_stat_t \<Rightarrow> pid_t \<Rightarrow> sos \<Rightarrow> ((int \<times> sos_stat_t) \<times> sos) option" where
  "nfs_get_statbuf W dir path buf pid s = do {
     p \<leftarrow> proc_get pid s;
     v \<leftarrow> get_proc s p;
     if p_state v = ZOMBIE then Some ((0, buf), s)
     else do {
       s \<leftarrow> coro_inc p s;
       d \<leftarrow> nfs_data_of dir s;
       let dev = find_device_name (nv_dev_list d) path;
       if dev \<noteq> 0 then do {
         s \<leftarrow> coro_dec p s;
         ((_, buf), s) \<leftarrow> VOP_STAT W dev buf pid s;
         Some ((0, buf), s) }
       else do {
         let path = (if path = ''..'' then ''.'' else path);
         (a, s) \<leftarrow> nfs_call W (Nfs_stat64 path) s;
         (case a of
            None \<Rightarrow> do { s \<leftarrow> coro_dec p s; Some ((- 1, buf), s) }
          | Some (status, data) \<Rightarrow> do {
              r \<leftarrow> nfs_stat64_cb status data buf;
              s \<leftarrow> coro_dec p s;
              Some (r, s) }) } } }"

section \<open>The chain of NFS vnodes is a table from names to vnodes\<close>

fun vn_chain :: "sos \<Rightarrow> word64 \<Rightarrow> (string \<times> word64) list \<Rightarrow> bool" where
  "vn_chain s p [] \<longleftrightarrow> p = 0"
| "vn_chain s p ((n, v) # xs) \<longleftrightarrow> p = v \<and> v \<noteq> 0 \<and>
     (\<exists>d. nfs_data_of v s = Some d \<and> nv_path d = n \<and> vn_chain s (nv_next d) xs)"

definition table_lookup :: "(string \<times> word64) list \<Rightarrow> string \<Rightarrow> word64" where
  "table_lookup xs n = (case map_of xs n of None \<Rightarrow> 0 | Some v \<Rightarrow> v)"

lemma lookup_walk_chain: "vn_chain s p xs \<Longrightarrow> lookup_walk p n s = Some (table_lookup xs n)"
proof (induction s p xs rule: vn_chain.induct)
  case (1 s p)
  then show ?case by (subst lookup_walk.simps) (simp add: table_lookup_def)
next
  case (2 s p m v xs)
  then show ?case by (subst lookup_walk.simps) (auto simp: table_lookup_def)
qed

lemma vn_chain_cong:
  "vn_chain s p xs \<Longrightarrow> (\<And>v. v \<in> snd ` set xs \<Longrightarrow> nfs_data_of v s' = nfs_data_of v s) \<Longrightarrow> vn_chain s' p xs"
  by (induction s p xs rule: vn_chain.induct) auto

lemma nfs_data_of_vnode_mem: "vnode_mem s' = vnode_mem s \<Longrightarrow> nfs_data_of v s' = nfs_data_of v s"
  by (simp add: nfs_data_of_def get_vnode_def)

lemma nfs_data_of_set_proc [simp]: "nfs_data_of v (set_proc p w s) = nfs_data_of v s"
  by (rule nfs_data_of_vnode_mem) simp

lemma nfs_data_of_set_vnode:
  "u \<noteq> 0 \<Longrightarrow> nfs_data_of v (set_vnode u w s) =
     (if v = u then (case vn_data w of Nfs_data d \<Rightarrow> Some d | Dev_data _ \<Rightarrow> None) else nfs_data_of v s)"
  by (simp add: nfs_data_of_def)

lemma set_nfs_data_ok:
  assumes "nfs_data_of u s = Some d"
  shows "\<exists>s'. set_nfs_data u e s = Some s' \<and> (\<forall>v. nfs_data_of v s' = (if v = u then Some e else nfs_data_of v s)) \<and>
    proc_mem s' = proc_mem s \<and> procs s' = procs s"
proof -
  obtain w where w: "get_vnode s u = Some w" using assms by (auto simp: nfs_data_of_def bind_eq_Some_conv)
  then have "u \<noteq> 0" by (auto simp: get_vnode_def split: if_split_asm)
  then show ?thesis using w by (simp add: set_nfs_data_def nfs_data_of_set_vnode)
qed

lemma malloc_frame: "malloc n s = (p, s') \<Longrightarrow> vnode_mem s' = vnode_mem s \<and> proc_mem s' = proc_mem s \<and> procs s' = procs s"
  by (auto simp: malloc_def kinvoke_def)

lemma nfs_create_vnode_ok:
  assumes "malloc 24 s = (r, s1)" "r \<noteq> 0"
  shows "\<exists>s2 e. nfs_create_vnode W s = Some (r, s2) \<and> nv_next e = 0 \<and>
    (\<forall>v. nfs_data_of v s2 = (if v = r then Some e else nfs_data_of v s)) \<and> proc_mem s2 = proc_mem s \<and> procs s2 = procs s"
  using assms malloc_frame [OF assms(1)] nfs_data_of_vnode_mem [of s1 s]
  by (simp add: nfs_create_vnode_def vnode_init_def nfs_data_of_set_vnode)

text \<open>The body of \<open>vnfs_creat\<close>, between the two updates of the count.\<close>

lemma creat_body:
  assumes ch: "vn_chain s dir ((n, dir) # xs)" and m: "malloc 24 s = (r, s1)" "r \<noteq> 0" "r \<notin> insert dir (snd ` set xs)"
    and dir: "dir \<notin> snd ` set xs"
  shows "\<exists>s'. (do {
       (r, s) \<leftarrow> nfs_create_vnode W s;
       d \<leftarrow> nfs_data_of dir s;
       s \<leftarrow> set_nfs_data dir (d\<lparr>nv_next := r\<rparr>) s;
       d' \<leftarrow> nfs_data_of r s;
       s \<leftarrow> set_nfs_data r (d'\<lparr>nv_path := name, nv_next := nv_next d\<rparr>) s;
       Some ((0 :: int, Some r), s) }) = Some ((0, Some r), s') \<and>
     vn_chain s' dir ((n, dir) # (name, r) # xs) \<and> proc_mem s' = proc_mem s \<and> procs s' = procs s"
proof -
  obtain d where d: "nfs_data_of dir s = Some d" "nv_path d = n" "vn_chain s (nv_next d) xs" "dir \<noteq> 0"
    using ch by auto
  obtain s2 e where s2: "nfs_create_vnode W s = Some (r, s2)"
    "\<forall>v. nfs_data_of v s2 = (if v = r then Some e else nfs_data_of v s)" "proc_mem s2 = proc_mem s" "procs s2 = procs s"
    using nfs_create_vnode_ok [OF m(1,2), of W] by blast
  have rd: "r \<noteq> dir" using m(3) by simp
  have d2: "nfs_data_of dir s2 = Some d" using s2(2) d(1) rd by simp
  obtain s3 where s3: "set_nfs_data dir (d\<lparr>nv_next := r\<rparr>) s2 = Some s3"
    "\<forall>v. nfs_data_of v s3 = (if v = dir then Some (d\<lparr>nv_next := r\<rparr>) else nfs_data_of v s2)"
    "proc_mem s3 = proc_mem s2" "procs s3 = procs s2"
    using set_nfs_data_ok [OF d2, of "d\<lparr>nv_next := r\<rparr>"] by blast
  have e3: "nfs_data_of r s3 = Some e" using s3(2) s2(2) rd by simp
  obtain s4 where s4: "set_nfs_data r (e\<lparr>nv_path := name, nv_next := nv_next d\<rparr>) s3 = Some s4"
    "\<forall>v. nfs_data_of v s4 = (if v = r then Some (e\<lparr>nv_path := name, nv_next := nv_next d\<rparr>) else nfs_data_of v s3)"
    "proc_mem s4 = proc_mem s3" "procs s4 = procs s3"
    using set_nfs_data_ok [OF e3, of "e\<lparr>nv_path := name, nv_next := nv_next d\<rparr>"] by blast
  have "vn_chain s4 (nv_next d) xs"
    by (rule vn_chain_cong [OF d(3)]) (use m(3) dir s4(2) s3(2) s2(2) in auto)
  then show ?thesis
    using s2 d2 s3 e3 s4 rd d m(2) by simp
qed

lemma vnfs_creat_chain:
  assumes p: "proc_get 0 s = Some p" "get_proc s p = Some v" "p_state v \<noteq> ZOMBIE"
    and ch: "vn_chain s dir ((n, dir) # xs)" and m: "malloc 24 s = (r, s1)" "r \<noteq> 0" "r \<notin> insert dir (snd ` set xs)"
    and dir: "dir \<notin> snd ` set xs"
  shows "\<exists>s'. vnfs_creat W dir name 0 s = Some ((0, Some r), s') \<and> vn_chain s' dir ((n, dir) # (name, r) # xs)"
proof -
  let ?s = "set_proc p (v\<lparr>p_coro_count := p_coro_count v + 1\<rparr>) s"
  have p0: "p \<noteq> 0" using p(2) by auto
  have ch': "vn_chain ?s dir ((n, dir) # xs)" by (rule vn_chain_cong [OF ch]) simp
  have m': "malloc 24 ?s = (r, snd (malloc 24 ?s))" using m(1) by (simp add: malloc_def kinvoke_def)
  obtain s' where s': "(do {
       (r, s) \<leftarrow> nfs_create_vnode W ?s;
       d \<leftarrow> nfs_data_of dir s;
       s \<leftarrow> set_nfs_data dir (d\<lparr>nv_next := r\<rparr>) s;
       d' \<leftarrow> nfs_data_of r s;
       s \<leftarrow> set_nfs_data r (d'\<lparr>nv_path := name, nv_next := nv_next d\<rparr>) s;
       Some ((0 :: int, Some r), s) }) = Some ((0, Some r), s')"
    "vn_chain s' dir ((n, dir) # (name, r) # xs)" "proc_mem s' = proc_mem ?s"
    using creat_body [OF ch' m' m(2,3) dir, of W name] by blast
  have g: "get_proc s' p = Some (v\<lparr>p_coro_count := p_coro_count v + 1\<rparr>)"
    using s'(3) p0 by (simp add: get_proc_def set_proc_def)
  have "coro_inc p s = Some ?s" using p(2) by (simp add: coro_inc_def upd_proc_def)
  moreover have "\<exists>w. coro_dec p s' = Some (set_proc p w s')" using g by (auto simp: coro_dec_def upd_proc_def)
  ultimately have "\<exists>w. vnfs_creat W dir name 0 s = Some ((0, Some r), set_proc p w s')"
    using p s'(1) unfolding vnfs_creat_def by (auto simp: bind_eq_Some_conv)
  moreover have "vn_chain (set_proc p w s') dir ((n, dir) # (name, r) # xs)" for w
    by (rule vn_chain_cong [OF s'(2)]) simp
  ultimately show ?thesis by blast
qed

section \<open>Properties\<close>

text \<open>A state with the kernel process, a root directory and a file in it.\<close>

definition vfs_example :: sos where
  "vfs_example = sos_example\<lparr>procs := 0x1000 # replicate 31 0, proc_mem := [0x1000 \<mapsto> fresh_proc world_example 0],
     device_list := [(''console'', 0x4000)], root := 0x2000,
     vnode_mem := [0x2000 \<mapsto> \<lparr>vn_refcount = 1, vn_data = Nfs_data \<lparr>nv_path = [], nv_dev_list = [(''console'', 0x4000)],
                      nv_next = 0x3000, nv_nfsfh = 0\<rparr>, vn_ops = Some Nfs_ops\<rparr>,
                   0x3000 \<mapsto> \<lparr>vn_refcount = 1, vn_data = Nfs_data \<lparr>nv_path = ''a'', nv_dev_list = [],
                      nv_next = 0, nv_nfsfh = 7\<rparr>, vn_ops = Some Nfs_ops\<rparr>,
                   0x4000 \<mapsto> \<lparr>vn_refcount = 1, vn_data = Dev_data 0, vn_ops = Some Dev_ops\<rparr>]\<rparr>"

text \<open>
  C12. The chain of vnodes implements a table of names: on a chain that represents the
  table \<open>xs\<close>, \<open>vnfs_creat\<close> with a fresh heap block adds the name behind the directory's own
  entry, and afterwards the search of \<open>vnfs_lookup\<close> finds the new vnode under the new name and
  under every other name what it found before.
\<close>

theorem vnfs_creat_adds_name:
  assumes "proc_get 0 s = Some p" "get_proc s p = Some v" "p_state v \<noteq> ZOMBIE"
    "vn_chain s dir ((n, dir) # xs)" "dir \<notin> snd ` set xs" "name \<noteq> n"
    "malloc 24 s = (r, s1)" "r \<noteq> 0" "r \<notin> insert dir (snd ` set xs)"
  shows "\<exists>s'. vnfs_creat W dir name 0 s = Some ((0, Some r), s') \<and>
    lookup_walk dir name s' = Some r \<and> (\<forall>m. m \<noteq> name \<longrightarrow> lookup_walk dir m s' = lookup_walk dir m s)"
proof -
  obtain s' where s': "vnfs_creat W dir name 0 s = Some ((0, Some r), s')" "vn_chain s' dir ((n, dir) # (name, r) # xs)"
    using vnfs_creat_chain [OF assms(1-4,7-9,5), of W name] by blast
  show ?thesis
    using s'(1) lookup_walk_chain [OF s'(2)] lookup_walk_chain [OF assms(4)] assms(6)
    by (intro exI [of _ s']) (simp add: table_lookup_def)
qed

theorem vnfs_creat_adds_name_witness:
  "\<exists>s'. vnfs_creat world_example 0x2000 ''b'' 0 vfs_example = Some ((0, Some 0x500000), s') \<and>
     lookup_walk 0x2000 ''b'' s' = Some 0x500000 \<and> lookup_walk 0x2000 ''a'' s' = lookup_walk 0x2000 ''a'' vfs_example"
proof -
  have p: "proc_get 0 vfs_example = Some 0x1000" "get_proc vfs_example 0x1000 = Some (fresh_proc world_example 0)"
    "p_state (fresh_proc world_example 0) \<noteq> ZOMBIE"
    by (simp_all add: proc_get_def get_proc_def vfs_example_def world_example_def)
  have ch: "vn_chain vfs_example 0x2000 [([], 0x2000), (''a'', 0x3000)]"
    by (simp add: nfs_data_of_def get_vnode_def vfs_example_def)
  have m: "malloc 24 vfs_example = (0x500000, vfs_example\<lparr>klog := [C_malloc 24]\<rparr>)"
    by (simp add: malloc_def kinvoke_def vfs_example_def sos_example_def)
  show ?thesis
    using vnfs_creat_adds_name [OF p ch _ _ m, of "''b''" world_example] by auto
qed

end
