(* ===== verification/Pool.thy ===== *)
theory Pool
  imports Prelude "HOL-Library.Multiset"
begin

text \<open>
  The contract of a component that hands out identifiers and takes them back: the page file hands
  out blocks, a file table descriptors. A request has parameters of its own, and may be refused.
  \<open>held s U\<close> says that in the state \<open>s\<close> exactly the identifiers of \<open>U\<close> are handed out. The lemmas
  hold for every sequence of requests and are used through the interpretations of the components.
\<close>

datatype (plugins only: code size) ('r, 'i) pool_op = Get 'r | Put 'i

text \<open>
  A run of requests: the identifiers got, the final state, the identifiers then held. Only what
  is held can be given back.
\<close>

fun pool_run ::
  "('r \<Rightarrow> 's \<Rightarrow> ('i option \<times> 's) option) \<Rightarrow> ('i \<Rightarrow> 's \<Rightarrow> 's option) \<Rightarrow> ('r, 'i) pool_op list \<Rightarrow> 's \<Rightarrow> 'i set
     \<Rightarrow> ('i list \<times> 's \<times> 'i set) option" where
  "pool_run alloc free [] s U = Some ([], s, U)"
| "pool_run alloc free (Get r # ops) s U = do {
     (a, s) \<leftarrow> alloc r s;
     (case a of
        None \<Rightarrow> pool_run alloc free ops s U
      | Some i \<Rightarrow> do {
          (is, s, U) \<leftarrow> pool_run alloc free ops s (insert i U);
          Some (i # is, s, U) }) }"
| "pool_run alloc free (Put i # ops) s U =
     (if i \<in> U then do { s \<leftarrow> free i s; pool_run alloc free ops s (U - {i}) } else None)"

locale pool =
  fixes alloc :: "'r \<Rightarrow> 's \<Rightarrow> ('i option \<times> 's) option"
    and free :: "'i \<Rightarrow> 's \<Rightarrow> 's option"
    and held :: "'s \<Rightarrow> 'i set \<Rightarrow> bool"
  assumes alloc_fresh: "held s U \<Longrightarrow> alloc r s = Some (Some i, s') \<Longrightarrow> i \<notin> U"
    and alloc_held: "held s U \<Longrightarrow> alloc r s = Some (Some i, s') \<Longrightarrow> held s' (insert i U)"
    and alloc_refused: "held s U \<Longrightarrow> alloc r s = Some (None, s') \<Longrightarrow> held s' U"
    and free_held: "held s U \<Longrightarrow> i \<in> U \<Longrightarrow> free i s = Some s' \<Longrightarrow> held s' (U - {i})"
begin

lemma run_held: "held s U \<Longrightarrow> pool_run alloc free ops s U = Some (is, s', U') \<Longrightarrow> held s' U'"
proof (induction ops arbitrary: s U "is")
  case (Cons op ops)
  show ?case
  proof (cases op)
    case (Get r)
    then obtain a s1 where a: "alloc r s = Some (a, s1)"
      "(case a of None \<Rightarrow> pool_run alloc free ops s1 U
         | Some i \<Rightarrow> do { (is, s, U) \<leftarrow> pool_run alloc free ops s1 (insert i U); Some (i # is, s, U) }) = Some (is, s', U')"
      using Cons.prems(2) by (auto simp: bind_eq_Some_conv)
    show ?thesis
    proof (cases a)
      case None
      then have "held s1 U" using alloc_refused [OF Cons.prems(1)] a(1) by simp
      then show ?thesis using Cons.IH a(2) None by auto
    next
      case (Some i)
      then obtain js where "pool_run alloc free ops s1 (insert i U) = Some (js, s', U')"
        using a(2) by (auto simp: bind_eq_Some_conv)
      then show ?thesis using Cons.IH a(1) Some alloc_held [OF Cons.prems(1)] by blast
    qed
  next
    case (Put i)
    then obtain s1 where "i \<in> U" "free i s = Some s1" "pool_run alloc free ops s1 (U - {i}) = Some (is, s', U')"
      using Cons.prems(2) by (auto simp: bind_eq_Some_conv split: if_splits)
    then show ?thesis using Cons.IH free_held [OF Cons.prems(1)] by blast
  qed
qed simp

text \<open>Requests alone, without returns, give distinct identifiers that nobody held.\<close>

lemma gets_distinct:
  assumes "held s U" "pool_run alloc free (map Get rs) s U = Some (is, s', U')"
  shows "distinct is \<and> set is \<inter> U = {} \<and> U' = U \<union> set is"
  using assms
proof (induction rs arbitrary: s U "is")
  case (Cons r rs)
  then obtain a s1 where a: "alloc r s = Some (a, s1)"
    "(case a of None \<Rightarrow> pool_run alloc free (map Get rs) s1 U
       | Some i \<Rightarrow> do { (is, s, U) \<leftarrow> pool_run alloc free (map Get rs) s1 (insert i U); Some (i # is, s, U) }) = Some (is, s', U')"
    by (auto simp: bind_eq_Some_conv)
  show ?case
  proof (cases a)
    case None
    then have "held s1 U" using alloc_refused [OF Cons.prems(1)] a(1) by simp
    then show ?thesis using Cons.IH [of s1 U "is"] a(2) None by simp
  next
    case (Some i)
    then obtain js where i: "pool_run alloc free (map Get rs) s1 (insert i U) = Some (js, s', U')" "is = i # js"
      using a(2) by (auto simp: bind_eq_Some_conv)
    have "i \<notin> U" "held s1 (insert i U)" using Cons.prems(1) a(1) Some alloc_fresh alloc_held by blast+
    then show ?thesis using Cons.IH [OF _ i(1)] i(2) by auto
  qed
qed simp

end

end
