(* ===== verification/Pagewalk.thy ===== *)
theory Pagewalk
  imports State Pte
begin

text \<open>
  Reading the frame table and the page tables. A page table is a page of SOS memory whose first
  word points to the page of the top level (\<open>pgd\<close>) and whose second word to the list of kernel
  objects; the tables of the four levels are pages of 512 words. They are read and written in
  the byte memory of the machine.
\<close>

section \<open>Definitions\<close>

subsection \<open>Frame table\<close>

definition vaddr_to_page_num :: "word64 \<Rightarrow> sos \<Rightarrow> word64" where
  "vaddr_to_page_num vaddr s = (vaddr - base_vaddr s) div PAGE_SIZE_4K"

definition page_num_to_vaddr :: "word64 \<Rightarrow> sos \<Rightarrow> word64" where
  "page_num_to_vaddr page s = page * PAGE_SIZE_4K + base_vaddr s"

text \<open>
  \<open>get_frame\<close> gives a null pointer above the size of the table; the entry is then not read. At
  exactly the size it gives the address behind the last entry.
\<close>

definition get_frame :: "word64 \<Rightarrow> sos \<Rightarrow> frame_table_entry option" where
  "get_frame page_num s =
     (if page_num > frame_table_size s then None else rd (frame_table s) (unat page_num))"

definition set_frame :: "word64 \<Rightarrow> frame_table_entry \<Rightarrow> sos \<Rightarrow> sos option" where
  "set_frame page_num e s = do {
     t \<leftarrow> wr (frame_table s) (unat page_num) e;
     Some (s\<lparr>frame_table := t\<rparr>) }"

subsection \<open>Page tables\<close>

definition entry_at :: "word64 \<Rightarrow> word16 \<Rightarrow> word64" where
  "entry_at table i = table + 8 * ucast i"

definition pt_pgd :: "word64 \<Rightarrow> (word64 \<Rightarrow> byte) \<Rightarrow> word64 option" where
  "pt_pgd page_table m = do {
     c_assert (page_table \<noteq> 0);
     let pgd = load64 m page_table;
     c_assert (pgd \<noteq> 0);
     Some pgd }"

text \<open>The address of the entry, 0 if a level is missing.\<close>

definition page_lookup :: "word64 \<Rightarrow> word64 \<Rightarrow> (word64 \<Rightarrow> byte) \<Rightarrow> word64 option" where
  "page_lookup page_table vaddr m = do {
     pgd \<leftarrow> pt_pgd page_table m;
     let ind = get_pt_index vaddr;
     let pud = load64 m (entry_at pgd (l1 ind));
     if pud = 0 then Some 0
     else do {
       let pd = load64 m (entry_at pud (l2 ind));
       if pd = 0 then Some 0
       else do {
         let pt = load64 m (entry_at pd (l3 ind));
         if pt = 0 then Some 0 else Some (entry_at pt (l4 ind)) } } }"

text \<open>The test of \<open>page_table_remove\<close> is the wrong way round: it returns for an entry it finds.\<close>

definition page_table_remove :: "word64 \<Rightarrow> word64 \<Rightarrow> sos \<Rightarrow> (int \<times> sos) option" where
  "page_table_remove page_table vaddr s = do {
     page \<leftarrow> page_lookup page_table vaddr (mem s);
     if page \<noteq> 0 then Some (- 1, s)
     else None }"

end
