(* ===== verification/Observed.thy ===== *)
theory Observed
  imports Vfs
begin

text \<open>
  What the file operations leave alone. An observation is a relation \<open>R\<close> between the states
  before and after a run that every step an operation makes itself respects, the environment
  as well; the locale \<open>observed\<close> states these laws, and inside it every operation of the
  console, of NFS and of the name space is shown to respect \<open>R\<close>, by rules that follow the
  structure of its definition.

  The first observation is the number of running operations of every process. Others are the
  frame table and the table of processes, in the theories that have them.
\<close>

section \<open>Observations\<close>

definition kept :: "(sos \<Rightarrow> sos \<Rightarrow> bool) \<Rightarrow> (sos \<Rightarrow> ('r \<times> sos) option) \<Rightarrow> bool" where
  "kept R f \<longleftrightarrow> (\<forall>s r s'. f s = Some (r, s') \<longrightarrow> R s s')"

definition kept1 :: "(sos \<Rightarrow> sos \<Rightarrow> bool) \<Rightarrow> (sos \<Rightarrow> sos option) \<Rightarrow> bool" where
  "kept1 R f \<longleftrightarrow> (\<forall>s s'. f s = Some s' \<longrightarrow> R s s')"

named_theorems kept_rules \<open>operations that respect an observation\<close>

lemma keptI: "(\<And>s r s'. f s = Some (r, s') \<Longrightarrow> R s s') \<Longrightarrow> kept R f"
  by (simp add: kept_def)

lemma keptD: "kept R f \<Longrightarrow> f s = Some (r, s') \<Longrightarrow> R s s'"
  by (simp add: kept_def)

lemma kept1I: "(\<And>s s'. f s = Some s' \<Longrightarrow> R s s') \<Longrightarrow> kept1 R f"
  by (simp add: kept1_def)

lemma kept1D: "kept1 R f \<Longrightarrow> f s = Some s' \<Longrightarrow> R s s'"
  by (simp add: kept1_def)

lemma kept_fail [kept_rules]: "kept R (\<lambda>s. None)"
  by (simp add: kept_def)

lemma kept_read: "(\<And>x. kept R (g x)) \<Longrightarrow> kept R (\<lambda>s. f s \<bind> (\<lambda>x. g x s))"
  by (fastforce simp: kept_def bind_eq_Some_conv)

lemma kept_let: "(\<And>x. kept R (g x)) \<Longrightarrow> kept R (\<lambda>s. let x = f s in g x s)"
  by (simp add: kept_def)

lemma kept_if: "kept R f \<Longrightarrow> kept R g \<Longrightarrow> kept R (\<lambda>s. if b s then f s else g s)"
  by (simp add: kept_def)

lemma kept_option:
  "kept R f \<Longrightarrow> (\<And>x. kept R (g x)) \<Longrightarrow> kept R (\<lambda>s. case x of None \<Rightarrow> f s | Some x \<Rightarrow> g x s)"
  by (cases x) simp_all

lemma kept_prod: "(\<And>x y. kept R (g x y)) \<Longrightarrow> kept R (\<lambda>s. case z of (x, y) \<Rightarrow> g x y s)"
  by (cases z) simp

lemma kept_case_prod: "(\<And>x y. kept R (g x y)) \<Longrightarrow> kept R (case_prod g z)"
  by (cases z) simp

lemma kept_ops: "kept R f \<Longrightarrow> kept R g \<Longrightarrow> kept R (\<lambda>s. case ops of Dev_ops \<Rightarrow> f s | Nfs_ops \<Rightarrow> g s)"
  by (cases ops) simp_all

lemma kept_arg: "(\<And>x. kept R (f x)) \<Longrightarrow> kept R (\<lambda>s. f (h s) s)"
  by (simp add: kept_def)

lemma kept1_keptD: "kept R f \<Longrightarrow> kept1 R (\<lambda>s. f s \<bind> (\<lambda>(r, s). Some s))"
  by (auto simp: kept_def kept1_def bind_eq_Some_conv)

text \<open>
  Between the increment and the decrement of a count, an operation still owes the decrement:
  \<open>owing R p s s'\<close> says that a run from \<open>s\<close> to \<open>s'\<close> made exactly one decrement for \<open>p\<close>. Every return of
  an operation that has counted itself must pay it.
\<close>

definition owing :: "(sos \<Rightarrow> sos \<Rightarrow> bool) \<Rightarrow> word64 \<Rightarrow> sos \<Rightarrow> sos \<Rightarrow> bool" where
  "owing R p s s' \<longleftrightarrow> (\<exists>t t'. R s t \<and> coro_dec p t = Some t' \<and> R t' s')"

section \<open>The file operations\<close>

locale observed =
  fixes R :: "sos \<Rightarrow> sos \<Rightarrow> bool" and W :: world
  assumes refl: "R s s"
    and trans [trans]: "R s t \<Longrightarrow> R t u \<Longrightarrow> R s u"
    and counting: "coro_inc p s = Some s1 \<Longrightarrow> R s1 s2 \<Longrightarrow> coro_dec p s2 = Some s3 \<Longrightarrow> R s s3"
    and mem_upd: "R s (s\<lparr>mem := m\<rparr>)"
    and klog_upd: "R s (s\<lparr>klog := l\<rparr>)"
    and vnode_upd: "R s (s\<lparr>vnode_mem := vm\<rparr>)"
    and console_upd: "R s (s\<lparr>reading := b, con_curr := cc, nbytes_read := n\<rparr>)"
    and yielding: "yields W e s = Some (w, s') \<Longrightarrow> R s s'"
begin

lemma kept_return [kept_rules]: "kept R (\<lambda>s. Some (r s, s))"
  by (simp add: kept_def refl)

lemma kept_seq:
  "kept R f \<Longrightarrow> (\<And>r. kept R (g r)) \<Longrightarrow> kept R (\<lambda>s. f s \<bind> (\<lambda>(r, s). g r s))"
  by (fastforce simp: kept_def bind_eq_Some_conv intro: trans)

lemma kept_seq1: "kept1 R f \<Longrightarrow> kept R g \<Longrightarrow> kept R (\<lambda>s. f s \<bind> g)"
  by (fastforce simp: kept_def kept1_def bind_eq_Some_conv intro: trans)

lemma owing_dec: "kept R g \<Longrightarrow> kept (owing R p) (\<lambda>s. coro_dec p s \<bind> g)"
  unfolding owing_def by (rule keptI) (auto simp: bind_eq_Some_conv dest!: keptD intro: refl)

lemma owing_after: "R s t \<Longrightarrow> owing R p t u \<Longrightarrow> owing R p s u"
  unfolding owing_def by (blast intro: trans)

lemma owing_seq:
  "kept R f \<Longrightarrow> (\<And>r. kept (owing R p) (g r)) \<Longrightarrow> kept (owing R p) (\<lambda>s. f s \<bind> (\<lambda>(r, s). g r s))"
  by (rule keptI) (auto simp: bind_eq_Some_conv intro: owing_after dest: keptD)

lemma owing_seq1: "kept1 R f \<Longrightarrow> kept (owing R p) g \<Longrightarrow> kept (owing R p) (\<lambda>s. f s \<bind> g)"
  by (rule keptI) (auto simp: bind_eq_Some_conv intro: owing_after dest: keptD kept1D)

lemma counting_kept:
  assumes "kept (owing R p) g"
  shows "kept R (\<lambda>s. coro_inc p s \<bind> g)"
proof (rule keptI)
  fix s r s'
  assume "coro_inc p s \<bind> g = Some (r, s')"
  then obtain s1 where s1: "coro_inc p s = Some s1" "g s1 = Some (r, s')" by (auto simp: bind_eq_Some_conv)
  obtain t t' where "R s1 t" "coro_dec p t = Some t'" "R t' s'" using keptD [OF assms s1(2)] unfolding owing_def by blast
  then show "R s s'" using trans [OF counting [OF s1(1)]] by blast
qed

lemmas kept_steps = counting_kept owing_dec kept_seq1 kept_seq owing_seq owing_seq1 kept_read kept_let kept_if kept_option
  kept_prod kept_case_prod kept_ops

lemma R_set_vnode: "R s (set_vnode p v s)"
  by (simp add: set_vnode_def vnode_upd)

lemma R_kinvoke: "R s (snd (kinvoke c s))"
  by (simp add: kinvoke_def klog_upd)

lemma R_malloc: "malloc n s = (p, s') \<Longrightarrow> R s s'"
  by (auto simp: malloc_def kinvoke_def klog_upd)

lemma vnode_incref_kept [kept_rules]: "kept1 R (vnode_incref v)"
  by (auto simp: kept1_def vnode_incref_def bind_eq_Some_conv R_set_vnode)

lemma set_nfs_data_kept [kept_rules]: "kept1 R (set_nfs_data v d)"
  by (auto simp: kept1_def set_nfs_data_def bind_eq_Some_conv R_set_vnode)

lemma copyin_bytes_kept [kept_rules]: "kept R (copyin_bytes pid bs n)"
  by (rule keptI) (auto simp: copyin_bytes_def bind_eq_Some_conv Let_def mem_upd)

lemma nfs_call_kept [kept_rules]: "kept R (\<lambda>s. nfs_call W (req s) s)"
proof (rule keptI)
  fix s a s'
  assume c: "nfs_call W (req s) s = Some (a, s')"
  show "R s s'"
  proof (cases "nfs_refuses W (req s) s")
    case False
    then obtain w s1 where y: "yields W (On_nfs (req s)) s = Some (w, s1)"
      "(case w of Nfs_answer st d \<Rightarrow> Some (Some (st, d), s1) | _ \<Rightarrow> None) = Some (a, s')"
      using c by (auto simp: nfs_call_def bind_eq_Some_conv)
    then have "s' = s1" by (cases w) auto
    then show ?thesis using y(1) by (simp add: yielding)
  qed (use c in \<open>simp add: nfs_call_def refl\<close>)
qed

lemma nfs_create_vnode_kept [kept_rules]: "kept R (nfs_create_vnode W)"
proof (rule keptI)
  fix s v s'
  assume "nfs_create_vnode W s = Some (v, s')"
  then show "R s s'"
    by (auto simp: nfs_create_vnode_def vnode_init_def bind_eq_Some_conv split: prod.split_asm if_split_asm
        dest!: R_malloc intro: trans R_set_vnode)
qed

lemma console_close_kept [kept_rules]: "kept R (console_close v pid)"
  by (rule keptI) (auto simp: console_close_def bind_eq_Some_conv refl R_set_vnode)

lemma copyin_name_kept [kept_rules]: "kept R (copyin_name pid n)"
  unfolding copyin_name_def by (intro kept_steps kept_rules)

lemma cb_kept [kept_rules]:
  "kept R (nfs_open_cb st d v)" "kept R (nfs_close_cb st v)" "kept R (nfs_read_cb st d u)"
  "kept R (nfs_write_cb st)" "kept R (nfs_create_cb st d v)"
  unfolding nfs_open_cb_def nfs_close_cb_def nfs_read_cb_def nfs_write_cb_def nfs_create_cb_def
  by (intro kept_steps kept_rules)+

lemma vnfs_creat_kept [kept_rules]: "kept R (vnfs_creat W dir name pid)"
  unfolding vnfs_creat_def by (intro kept_steps kept_rules)

lemma VOP_CREAT_kept [kept_rules]: "kept R (VOP_CREAT W v name pid)"
  unfolding VOP_CREAT_def by (intro kept_steps kept_rules)

lemma vnfs_reclaim_kept [kept_rules]: "kept R (vnfs_reclaim W v pid)"
  unfolding vnfs_reclaim_def by (intro kept_steps kept_rules)

lemma VOP_RECLAIM_kept [kept_rules]: "kept R (VOP_RECLAIM W v pid)"
  unfolding VOP_RECLAIM_def dev_reclaim_def by (intro kept_steps kept_rules)

lemma vnode_decref_kept [kept_rules]: "kept1 R (vnode_decref W v pid)"
  by (rule kept1I)
    (auto simp: vnode_decref_def bind_eq_Some_conv R_set_vnode split: if_split_asm dest: keptD [OF VOP_RECLAIM_kept])

lemma vnfs_eachopen_kept [kept_rules]: "kept R (vnfs_eachopen W v flags pid)"
  unfolding vnfs_eachopen_def by (intro kept_steps kept_rules)

lemma vnfs_write_kept [kept_rules]: "kept R (vnfs_write W v u)"
  unfolding vnfs_write_def by (intro kept_steps kept_rules)

lemma vnfs_read_kept [kept_rules]: "kept R (vnfs_read W v u)"
  unfolding vnfs_read_def by (intro kept_steps kept_rules)

lemma vnfs_getdirent_kept [kept_rules]: "kept R (vnfs_getdirent W dir u)"
  unfolding vnfs_getdirent_def by (intro kept_steps kept_rules)

lemma vnfs_stat_kept [kept_rules]: "kept R (vnfs_stat W v buf pid)"
  unfolding vnfs_stat_def by (intro kept_steps kept_rules)

lemma nfs_lookup_cb_kept [kept_rules]: "kept R (nfs_lookup_cb W st d path vn)"
  unfolding nfs_lookup_cb_def by (intro kept_steps kept_rules)

lemma lookup_create_kept [kept_rules]: "kept R (lookup_create W path vn)"
  unfolding lookup_create_def by (intro kept_steps kept_rules)

lemma vnfs_lookup_kept [kept_rules]: "kept R (vnfs_lookup W dir path create pid)"
  unfolding vnfs_lookup_def by (intro kept_steps kept_rules)

lemma serial_send_loop_R: "serial_send_loop data len t s = Some y \<Longrightarrow> R s (snd y)"
proof (induction rule: serial_send_loop.raw_induct [rotated, consumes 1, case_names step])
  case (step loop data len t s y)
  let ?k = "kinvoke (Pico_socket_sendto (serial_socket s) data len) s"
  have "R (snd ?k) (snd y) \<or> snd y = s \<or> snd y = snd ?k"
    using step(2) step(1) [of data len "t + fst ?k" "snd ?k" y] by (auto simp: Let_def split_def split: if_split_asm)
  then show ?case by (elim disjE) (simp_all add: refl R_kinvoke trans [OF R_kinvoke])
qed

lemma dev_kept [kept_rules]:
  "kept R (dev_eachopen v flags pid)" "kept R (dev_write v u)" "kept R (dev_read W v u)"
proof -
  show "kept R (dev_eachopen v flags pid)"
    by (rule keptI) (auto simp: dev_eachopen_def console_open_def c_eq_def bind_eq_Some_conv refl R_set_vnode)
  show "kept R (dev_write v u)"
    by (rule keptI)
      (auto simp: dev_write_def console_write_def serial_send_def bind_eq_Some_conv dest!: serial_send_loop_R)
  show "kept R (dev_read W v u)"
  proof (rule keptI)
    fix s r s'
    assume "dev_read W v u s = Some (r, s')"
    then obtain w s1 n bs m where y: "yields W On_console (s\<lparr>reading := True, con_curr := running s\<rparr>) = Some (w, s1)"
      "copyin_bytes (u_pid u) bs m (s1\<lparr>reading := False, nbytes_read := 0\<rparr>) = Some (n, s')"
      by (auto simp: dev_read_def console_read_def bind_eq_Some_conv Let_def)
    have "R s (s\<lparr>reading := True, con_curr := running s\<rparr>)"
      using console_upd [where s = s and b = True and cc = "running s" and n = "nbytes_read s"] by simp
    also have "R (s\<lparr>reading := True, con_curr := running s\<rparr>) s1" by (rule yielding [OF y(1)])
    also have "R s1 (s1\<lparr>reading := False, nbytes_read := 0\<rparr>)"
      using console_upd [where s = s1 and b = False and cc = "con_curr s1" and n = 0] by simp
    also have "R (s1\<lparr>reading := False, nbytes_read := 0\<rparr>) s'" by (rule keptD [OF copyin_bytes_kept y(2)])
    finally show "R s s'" .
  qed
qed

lemma VOP_kept [kept_rules]:
  "kept R (VOP_READ W vn u)" "kept R (VOP_WRITE W vn u)" "kept R (VOP_GETDIRENTRY W vn u)"
  "kept R (VOP_STAT W vn buf pid)" "kept R (VOP_LOOKUP W vn name create pid)" "kept R (VOP_EACHOPEN W vn flags pid)"
  unfolding VOP_READ_def VOP_WRITE_def VOP_GETDIRENTRY_def VOP_STAT_def VOP_LOOKUP_def VOP_EACHOPEN_def
  by (intro kept_steps kept_rules)+

lemma vfs_lookup_kept [kept_rules]: "kept R (vfs_lookup W path create pid)"
  unfolding vfs_lookup_def
  by (intro kept_steps kept_rules kept_arg [where h = root and f = "\<lambda>r. VOP_LOOKUP W r path create pid"])

lemma vfs_open_kept [kept_rules]: "kept R (vfs_open W path mode pid)"
  unfolding vfs_open_def by (intro kept_steps kept_rules)

lemma vfs_close_kept [kept_rules]: "kept1 R (vfs_close W vn pid)"
  unfolding vfs_close_def by (rule vnode_decref_kept)

lemma nfs_get_statbuf_kept [kept_rules]: "kept R (nfs_get_statbuf W dir path buf pid)"
proof (rule keptI)
  fix s r s'
  assume a: "nfs_get_statbuf W dir path buf pid s = Some (r, s')"
  have inc_dec: "R s s3" if "coro_inc p s = Some s1" "coro_dec p s1 = Some s2" "R s2 s3" for p s s1 s2 s3
    using trans [OF counting [OF that(1) refl that(2)] that(3)] .
  have "ends (\<lambda>(r, s'). R s s') (nfs_get_statbuf W dir path buf pid s)"
    unfolding nfs_get_statbuf_def
    by (intro paths) (auto simp: ends_def refl intro: counting inc_dec dest!: keptD [OF VOP_kept(4)] keptD [OF nfs_call_kept])
  then show "R s s'" using a by (auto dest: endsD)
qed

end

section \<open>The number of running operations\<close>

definition counts :: "sos \<Rightarrow> word64 \<Rightarrow> int option" where
  "counts s q = map_option p_coro_count (get_proc s q)"

text \<open>The environment leaves the count of one process alone while a coroutine waits.\<close>

definition quiet :: "world \<Rightarrow> word64 \<Rightarrow> bool" where
  "quiet W q \<longleftrightarrow> (\<forall>e s w s'. yields W e s = Some (w, s') \<longrightarrow> counts s' q = counts s q)"

definition same_counts :: "world \<Rightarrow> word64 \<Rightarrow> sos \<Rightarrow> sos \<Rightarrow> bool" where
  "same_counts W q s s' \<longleftrightarrow> (quiet W q \<longrightarrow> counts s' q = counts s q)"

lemma inc_dec_counts:
  assumes "coro_inc p s = Some s1" "counts s2 q = counts s1 q" "coro_dec p s2 = Some s3"
  shows "counts s3 q = counts s q"
proof -
  obtain v w where v: "get_proc s p = Some v" "s1 = set_proc p (v\<lparr>p_coro_count := p_coro_count v + 1\<rparr>) s"
    and w: "get_proc s2 p = Some w" "s3 = set_proc p (w\<lparr>p_coro_count := p_coro_count w - 1\<rparr>) s2"
    using assms(1,3) by (auto simp: coro_inc_def coro_dec_def upd_proc_def bind_eq_Some_conv)
  have "p \<noteq> 0" using v(1) by auto
  then show ?thesis using assms(2) v w by (cases "q = p") (auto simp: counts_def)
qed

lemma counts_frame [simp]:
  "counts (s\<lparr>mem := m\<rparr>) = counts s" "counts (s\<lparr>klog := l\<rparr>) = counts s" "counts (s\<lparr>vnode_mem := vm\<rparr>) = counts s"
  "counts (s\<lparr>reading := b, con_curr := c, nbytes_read := n\<rparr>) = counts s"
  by (simp_all add: fun_eq_iff counts_def get_proc_def)

interpretation counting: observed "same_counts W q" W for W q
  by unfold_locales (auto simp: same_counts_def quiet_def intro: inc_dec_counts)

section \<open>Properties\<close>

text \<open>
  C11. The count of running operations, which keeps a process from being reaped, is balanced on
  every path: every file operation that returns, whether the server refuses the request, answers
  it or reports an error, whether a name is found, created or not, and for zombies as well,
  leaves the count of a process as it found it, so none of its returns forgets the decrement.
  This is relative to what runs while the operation waits, which must not change the count of
  that process; a process has one call at a time, so no other coroutine counts for it.
\<close>

theorem vfs_operations_balanced:
  fixes q :: word64 and same :: "sos \<Rightarrow> sos \<Rightarrow> bool"
  defines "same \<equiv> \<lambda>s s'. counts s' q = counts s q"
  assumes "quiet W q"
  shows "kept same (vfs_open W path mode pid) \<and> kept same (vfs_lookup W path create pid) \<and>
    kept same (VOP_READ W vn u) \<and> kept same (VOP_WRITE W vn u) \<and> kept same (VOP_GETDIRENTRY W vn u) \<and>
    kept same (VOP_STAT W vn buf pid) \<and> kept same (nfs_get_statbuf W vn path buf pid) \<and> kept1 same (vfs_close W vn pid)"
proof -
  have "same = same_counts W q" using assms(2) by (simp add: same_def same_counts_def fun_eq_iff)
  then show ?thesis
    by (simp only: counting.vfs_open_kept counting.vfs_lookup_kept counting.VOP_kept counting.nfs_get_statbuf_kept
        counting.vfs_close_kept simp_thms)
qed

text \<open>A server that answers every request with the status 5, while another process starts an operation.\<close>

definition world_busy :: world where
  "world_busy = world_example\<lparr>nfs_refuses := (\<lambda>_ _. False),
     yields := (\<lambda>_ s. Some (Nfs_answer 5 No_data, set_proc 0x1800 ((fresh_proc world_example 0)\<lparr>p_coro_count := 1\<rparr>) s))\<rparr>"

lemma world_busy_quiet: "quiet world_busy 0x1000"
  by (simp add: quiet_def world_busy_def counts_def)

theorem vfs_operations_balanced_witness:
  "\<exists>s'. VOP_WRITE world_busy 0x3000 (uio_init UIO_WRITE 0 0 0) vfs_example = Some (5, s') \<and> counts s' 0x1000 = Some 0"
proof -
  let ?op = "VOP_WRITE world_busy 0x3000 (uio_init UIO_WRITE 0 0 0)"
  have c: "counts vfs_example 0x1000 = Some 0"
    by (simp add: counts_def get_proc_def vfs_example_def world_example_def)
  have "\<exists>s'. ?op vfs_example = Some (5, s')"
    by (simp add: VOP_WRITE_def VOP_def vnfs_write_def coro_inc_def coro_dec_def upd_proc_def set_proc_def nfs_write_cb_def
        proc_get_def get_proc_def get_vnode_def nfs_data_of_def nfs_call_def vfs_example_def world_busy_def world_example_def
        uio_init_def share_buf_check_len_def Let_def)
  then obtain s' where r: "?op vfs_example = Some (5, s')" by blast
  have "kept (\<lambda>s s'. counts s' 0x1000 = counts s 0x1000) ?op"
    using vfs_operations_balanced [OF world_busy_quiet] by blast
  then have "counts s' 0x1000 = counts vfs_example 0x1000" using r by (rule keptD)
  then show ?thesis using r c by auto
qed

end
