(* ===== verification/Pager.thy ===== *)
theory Pager
  imports Observed Pagewalk Pool
begin

text \<open>
  The pager, \<open>sos/src/vm/pager.c\<close>: the page file on the NFS server with its list of free blocks,
  writing a frame out and reading it back. \<open>pf_list\<close> is the struct with the size of the file in
  pages and the indices of the free nodes; \<open>None\<close> is the null pointer before \<open>pager_bootstrap\<close>.

  The lemmas show that the page file never hands a block out twice, and that a page that was
  written out is read back unchanged.
\<close>

section \<open>Definitions\<close>

definition pagefile_open :: "world \<Rightarrow> sos \<Rightarrow> (int \<times> sos) option" where
  "pagefile_open W s = do {
     ((err, vn), s) \<leftarrow> vfs_open W ''pagefile'' O_RDWR KERNEL_PROC s;
     Some (err, (case vn of None \<Rightarrow> s | Some vn \<Rightarrow> s\<lparr>pf_vnode := vn\<rparr>)) }"

definition next_free_node :: "sos \<Rightarrow> (word64 \<times> sos) option" where
  "next_free_node s = do {
     l \<leftarrow> pf_list s;
     (case pf_head l of
        i # rest \<Rightarrow> Some (i, s\<lparr>pf_list := Some (l\<lparr>pf_head := rest\<rparr>)\<rparr>)
      | [] \<Rightarrow> Some (pf_size l, s\<lparr>pf_list := Some (l\<lparr>pf_size := pf_size l + 1\<rparr>)\<rparr>)) }"

text \<open>
  \<open>add_free_list\<close> writes the new node before it tests the pointer, so a failed \<open>malloc\<close> ends the
  run. The loop behind the head never advances \<open>curr\<close>: it inserts behind the first node or, were
  its condition false, would not end.
\<close>

definition add_free_list :: "word64 \<Rightarrow> sos \<Rightarrow> (int \<times> sos) option" where
  "add_free_list entry s = do {
     let (new_node, s) = malloc 16 s;
     c_assert (new_node \<noteq> 0);
     l \<leftarrow> pf_list s;
     (case pf_head l of
        [] \<Rightarrow> Some (0, s\<lparr>pf_list := Some (l\<lparr>pf_head := [entry]\<rparr>)\<rparr>)
      | i # rest \<Rightarrow>
          if entry \<le> i then Some (0, s\<lparr>pf_list := Some (l\<lparr>pf_head := entry # i # rest\<rparr>)\<rparr>)
          else if entry \<ge> i \<or> rest = [] then Some (0, s\<lparr>pf_list := Some (l\<lparr>pf_head := i # entry # rest\<rparr>)\<rparr>)
          else None) }"

text \<open>The first part of \<open>pageout\<close>: the entry of the page that the frame holds.\<close>

definition pageout_pte :: "word64 \<Rightarrow> sos \<Rightarrow> word64 option" where
  "pageout_pte page s = do {
     fte \<leftarrow> get_frame page s;
     c_assert (fte_pid fte \<ge> 0 \<and> fte_pid fte \<le> int MAX_PROCESSES);
     c_assert (\<not> fte_important fte);
     p \<leftarrow> proc_get (fte_pid fte) s;
     v \<leftarrow> get_proc s p;
     as \<leftarrow> p_as v;
     pte \<leftarrow> page_lookup (as_pt as) (fte_user_vaddr fte) (mem s);
     c_assert (pte \<noteq> 0);
     Some pte }"

text \<open>Its second part: a block of the page file, entered into the page table.\<close>

definition pageout_block :: "word64 \<Rightarrow> sos \<Rightarrow> (word64 \<times> sos) option" where
  "pageout_block pte s = do {
     (ind, s) \<leftarrow> next_free_node s;
     let s = s\<lparr>mem := store64 (mem s) pte (page_update_entry P_PAGEFILE ind)\<rparr>;
     c_assert (page_entry_number (load64 (mem s) pte) = ind);
     Some (ind, s) }"

definition pageout :: "world \<Rightarrow> word64 \<Rightarrow> sos \<Rightarrow> (int \<times> sos) option" where
  "pageout W page s = do {
     (err, s) \<leftarrow> (if pf_vnode s = 0 then pagefile_open W s else Some (0, s));
     if err \<noteq> 0 then Some (- 1, s)
     else do {
       pte \<leftarrow> pageout_pte page s;
       (ind, s) \<leftarrow> pageout_block pte s;
       let u = uio_init UIO_WRITE PAGE_SIZE_4K (ind * PAGE_SIZE_4K) 0;
       let (n, s) = sos_copyin KERNEL_PROC (page_num_to_vaddr page s) PAGE_SIZE_4K s;
       c_assert (n = PAGE_SIZE_4K);
       (n, s) \<leftarrow> VOP_WRITE W (pf_vnode s) u s;
       c_assert (n = 4096);
       Some (0, s) } }"

definition pagein :: "world \<Rightarrow> word64 \<Rightarrow> word64 \<Rightarrow> sos \<Rightarrow> (int \<times> sos) option" where
  "pagein W entry kernel_vaddr s = do {
     l \<leftarrow> pf_list s;
     if entry > pf_size l then Some (- 1, s)
     else do {
       let u = uio_init UIO_READ PAGE_SIZE_4K (entry * PAGE_SIZE_4K) 0;
       (n, s) \<leftarrow> VOP_READ W (pf_vnode s) u s;
       c_assert (n = 4096);
       let (n, s) = sos_copyout KERNEL_PROC kernel_vaddr PAGE_SIZE_4K s;
       c_assert (n = PAGE_SIZE_4K);
       (_, s) \<leftarrow> add_free_list entry s;
       Some (0, s) } }"

definition pagefile_remove :: "word64 \<Rightarrow> sos \<Rightarrow> (int \<times> sos) option" where
  "pagefile_remove entry s = do {
     l \<leftarrow> pf_list s;
     if entry > pf_size l then Some (- 1, s)
     else do {
       (_, s) \<leftarrow> add_free_list entry s;
       Some (0, s) } }"

definition pager_bootstrap :: "sos \<Rightarrow> sos" where
  "pager_bootstrap s = s\<lparr>pf_list := Some \<lparr>pf_size = 0, pf_head = []\<rparr>, pf_vnode := 0\<rparr>"

section \<open>The page file as a pool of blocks\<close>

text \<open>
  Every block below the size is either free or in use, and none is both. The assertion of
  \<open>pageout\<close> keeps the indices below \<open>2 ^ 52\<close>, so the size never wraps.
\<close>

definition pf_held :: "sos \<Rightarrow> word64 set \<Rightarrow> bool" where
  "pf_held s U \<longleftrightarrow> (case pf_list s of None \<Rightarrow> False | Some l \<Rightarrow>
     distinct (pf_head l) \<and> set (pf_head l) \<inter> U = {} \<and> set (pf_head l) \<union> U = {i. i < pf_size l})"

definition pf_get :: "word64 \<Rightarrow> sos \<Rightarrow> (word64 option \<times> sos) option" where
  "pf_get pte s = do { (i, s) \<leftarrow> pageout_block pte s; Some (Some i, s) }"

definition pf_put :: "word64 \<Rightarrow> sos \<Rightarrow> sos option" where
  "pf_put i s = do { (_, s) \<leftarrow> pagefile_remove i s; Some s }"

lemma block_small: "take_bit 52 (i :: word64) = i \<Longrightarrow> {j. j < i + 1} = insert i {j. j < i}"
proof -
  assume "take_bit 52 i = i"
  then have "unat i < 2 ^ 52" by (metis take_bit_nat_less_exp unsigned_take_bit_eq)
  then have "unat (i + 1) = unat i + 1" by (subst unat_add64) simp_all
  then show ?thesis by (auto simp: word_less_nat_alt word_unat_eq_iff)
qed

lemma pageout_block_cases:
  assumes "pageout_block pte s = Some (i, s')"
  obtains l rest where "pf_list s = Some l" "pf_head l = i # rest" "pf_list s' = Some (l\<lparr>pf_head := rest\<rparr>)"
  | l where "pf_list s = Some l" "pf_head l = []" "i = pf_size l" "take_bit 52 i = i"
      "pf_list s' = Some (l\<lparr>pf_size := pf_size l + 1\<rparr>)"
proof -
  obtain s1 where n: "next_free_node s = Some (i, s1)" "pf_list s' = pf_list s1" "take_bit 52 i = i"
    using assms by (auto simp: pageout_block_def bind_eq_Some_conv)
  then obtain l where l: "pf_list s = Some l" by (auto simp: next_free_node_def bind_eq_Some_conv)
  show thesis
    by (cases "pf_head l") (use n l that in \<open>auto simp: next_free_node_def\<close>)
qed

lemma pf_put_list:
  assumes "pf_put i s = Some s'" "i < pf_size l" "pf_list s = Some l"
  shows "\<exists>l'. pf_list s' = Some l' \<and> mset (pf_head l') = add_mset i (mset (pf_head l)) \<and> pf_size l' = pf_size l"
  using assms
  by (auto simp: pf_put_def pagefile_remove_def add_free_list_def malloc_def kinvoke_def bind_eq_Some_conv Let_def
      split: list.split_asm if_split_asm)

lemma pf_get_Some: "pf_get pte s = Some (a, s') \<longleftrightarrow> (\<exists>i. a = Some i \<and> pageout_block pte s = Some (i, s'))"
  by (auto simp: pf_get_def bind_eq_Some_conv)

lemma pf_pool: "pool pf_get pf_put pf_held"
proof
  fix s U pte i s'
  assume h: "pf_held s U" and "pf_get pte s = Some (Some i, s')"
  then have a: "pageout_block pte s = Some (i, s')" by (simp add: pf_get_Some)
  show "i \<notin> U" by (rule pageout_block_cases [OF a]) (use h in \<open>auto simp: pf_held_def\<close>)
  show "pf_held s' (insert i U)"
  proof (rule pageout_block_cases [OF a])
    fix l rest
    assume "pf_list s = Some l" "pf_head l = i # rest" "pf_list s' = Some (l\<lparr>pf_head := rest\<rparr>)"
    then show ?thesis using h by (auto simp: pf_held_def)
  next
    fix l
    assume l: "pf_list s = Some l" "pf_head l = []" "i = pf_size l" "take_bit 52 i = i"
      "pf_list s' = Some (l\<lparr>pf_size := pf_size l + 1\<rparr>)"
    then have "{j. j < pf_size l + 1} = insert i {j. j < pf_size l}" using block_small by blast
    then show ?thesis using h l by (simp add: pf_held_def)
  qed
next
  fix s U pte s'
  assume "pf_get pte s = Some (None, s')"
  then show "pf_held s' U" by (simp add: pf_get_Some)
next
  fix s U i s'
  assume h: "pf_held s U" "i \<in> U" and f: "pf_put i s = Some s'"
  then obtain l where l: "pf_list s = Some l" "i < pf_size l" by (auto simp: pf_held_def split: option.split_asm)
  obtain l' where l': "pf_list s' = Some l'" "mset (pf_head l') = add_mset i (mset (pf_head l))" "pf_size l' = pf_size l"
    using pf_put_list [OF f l(2,1)] by blast
  have "set (pf_head l') = insert i (set (pf_head l))" "distinct (pf_head l') \<longleftrightarrow> distinct (pf_head l) \<and> i \<notin> set (pf_head l)"
    using l'(2) by (metis set_mset_add_mset_insert set_mset_mset, metis distinct.simps(2) mset.simps(2) mset_eq_imp_distinct_iff)
  then show "pf_held s' (U - {i})" using h l l' by (auto simp: pf_held_def)
qed

interpretation pf: pool pf_get pf_put pf_held
  by (rule pf_pool)

section \<open>What paging leaves alone\<close>

locale observed_paging = observed +
  assumes pf_upd: "R s (s\<lparr>pf_list := l\<rparr>)" "R s (s\<lparr>pf_vnode := v\<rparr>)"
begin

lemma pagefile_open_kept [kept_rules]: "kept R (pagefile_open W)"
proof (rule keptI)
  fix s r s'
  assume "pagefile_open W s = Some (r, s')"
  then obtain vn t where "vfs_open W ''pagefile'' O_RDWR KERNEL_PROC s = Some ((r, vn), t)" "s' = t \<or> (\<exists>v. s' = t\<lparr>pf_vnode := v\<rparr>)"
    by (auto simp: pagefile_open_def bind_eq_Some_conv split: option.split_asm)
  then show "R s s'" using keptD [OF vfs_open_kept] pf_upd(2) trans by blast
qed

lemma next_free_node_kept [kept_rules]: "kept R next_free_node"
proof (rule keptI)
  fix s r s'
  assume "next_free_node s = Some (r, s')"
  then have "\<exists>l. s' = s\<lparr>pf_list := l\<rparr>"
    by (cases "pf_head (the (pf_list s))") (auto simp: next_free_node_def bind_eq_Some_conv)
  then show "R s s'" using pf_upd(1) by blast
qed

lemma add_free_list_kept [kept_rules]: "kept R (add_free_list i)"
proof (rule keptI)
  fix s r s'
  assume "add_free_list i s = Some (r, s')"
  then have "\<exists>l. s' = s\<lparr>klog := C_malloc 16 # klog s, pf_list := l\<rparr>"
    by (cases "pf_head (the (pf_list s))")
      (auto simp: add_free_list_def malloc_def kinvoke_def bind_eq_Some_conv split: if_split_asm)
  then obtain l where "s' = s\<lparr>klog := C_malloc 16 # klog s, pf_list := l\<rparr>" ..
  then show "R s s'" using trans [OF klog_upd pf_upd(1)] by simp
qed

lemma pageout_block_kept [kept_rules]: "kept R (pageout_block pte)"
  unfolding pageout_block_def
  by (rule keptI) (auto simp: bind_eq_Some_conv Let_def dest!: keptD [OF next_free_node_kept] intro: trans mem_upd)

lemma copy_R: "sos_copyin p a n s = (r, s') \<Longrightarrow> R s s'" "sos_copyout p a n s = (r, s') \<Longrightarrow> R s s'"
  by (auto simp: sos_copyin_def sos_copyout_def Let_def mem_upd)

lemma pageout_kept [kept_rules]: "kept R (pageout W page)"
proof (rule keptI)
  fix s r s'
  assume a: "pageout W page s = Some (r, s')"
  have "ends (\<lambda>(r, s'). R s s') (pageout W page s)"
    unfolding pageout_def
    by (intro paths)
      (auto split: if_split_asm dest!: keptD [OF pagefile_open_kept] keptD [OF pageout_block_kept] copy_R
        keptD [OF VOP_kept(2)] intro: trans)
  then show "R s s'" using a by (auto dest: endsD)
qed

lemma pagein_kept [kept_rules]: "kept R (pagein W entry kva)"
proof (rule keptI)
  fix s r s'
  assume a: "pagein W entry kva s = Some (r, s')"
  have "ends (\<lambda>(r, s'). R s s') (pagein W entry kva s)"
    unfolding pagein_def
    by (intro paths)
      (auto simp: refl split: if_split_asm dest!: copy_R keptD [OF VOP_kept(1)] keptD [OF add_free_list_kept] intro: trans)
  then show "R s s'" using a by (auto dest: endsD)
qed

lemma pagefile_remove_kept [kept_rules]: "kept R (pagefile_remove entry)"
  unfolding pagefile_remove_def by (intro kept_steps kept_rules)

end

interpretation counting_paging: observed_paging "same_counts W q" W for W q
  by unfold_locales (simp_all add: same_counts_def fun_eq_iff counts_def get_proc_def)

section \<open>A page written out is read back\<close>

text \<open>The page file is open with the handle \<open>h\<close>, and the kernel process has its buffer.\<close>

definition kernel_file :: "sos \<Rightarrow> word64 \<Rightarrow> bool" where
  "kernel_file s h \<longleftrightarrow> (\<exists>d p v. nfs_data_of (pf_vnode s) s = Some d \<and> nv_nfsfh d = h \<and> VOP (pf_vnode s) s = Some Nfs_ops \<and>
     proc_get 0 s = Some p \<and> get_proc s p = Some v \<and> p_state v \<noteq> ZOMBIE \<and> p_shared_buf v = get_buf_from_pid 0 s)"

lemma nfs_data_of_frame [simp]:
  "nfs_data_of v (s\<lparr>mem := m\<rparr>) = nfs_data_of v s" "nfs_data_of v (s\<lparr>pf_list := l\<rparr>) = nfs_data_of v s"
  by (simp_all add: nfs_data_of_def get_vnode_def)

lemma VOP_frame [simp]: "VOP v (s\<lparr>mem := m\<rparr>) = VOP v s" "VOP v (s\<lparr>pf_list := l\<rparr>) = VOP v s"
  by (simp_all add: VOP_def get_vnode_def)

lemma kernel_file_frame [simp]:
  "kernel_file (s\<lparr>mem := m\<rparr>) h = kernel_file s h" "kernel_file (s\<lparr>pf_list := l\<rparr>) h = kernel_file s h"
  by (simp_all add: kernel_file_def proc_get_def get_proc_def get_buf_from_pid_def)

text \<open>What the write of a full page sends, and that its answer reaches the caller.\<close>

lemma nfs_call_Some:
  assumes "nfs_call W req s = Some (a, s')"
  shows "a = None \<and> s' = s \<or> (\<exists>st d. a = Some (st, d) \<and> yields W (On_nfs req) s = Some (Nfs_answer st d, s'))"
proof (cases "nfs_refuses W req s")
  case False
  then obtain w s1 where y: "yields W (On_nfs req) s = Some (w, s1)"
    "(case w of Nfs_answer st d \<Rightarrow> Some (Some (st, d), s1) | _ \<Rightarrow> None) = Some (a, s')"
    using assms by (auto simp: nfs_call_def bind_eq_Some_conv)
  then show ?thesis by (cases w) auto
qed (use assms in \<open>simp add: nfs_call_def\<close>)

lemma write_page:
  assumes k: "kernel_file s h" and w: "VOP_WRITE W (pf_vnode s) (uio_init UIO_WRITE 4096 off 0) s = Some (4096, s')"
  shows "\<exists>s0 d s1. yields W (On_nfs (Nfs_pwrite h off (load_list (mem s) (get_buf_from_pid 0 s) 4096))) s0 =
    Some (Nfs_answer 4096 d, s1)"
proof -
  obtain d p v where k': "nfs_data_of (pf_vnode s) s = Some d" "nv_nfsfh d = h" "VOP (pf_vnode s) s = Some Nfs_ops"
    "proc_get 0 s = Some p" "get_proc s p = Some v" "p_state v \<noteq> ZOMBIE" "p_shared_buf v = get_buf_from_pid 0 s"
    using k unfolding kernel_file_def by blast
  have p: "p \<noteq> 0" using k'(5) by auto
  let ?s = "set_proc p (v\<lparr>p_coro_count := p_coro_count v + 1\<rparr>) s"
  let ?req = "Nfs_pwrite h off (load_list (mem s) (get_buf_from_pid 0 s) 4096)"
  obtain st dd s1 s2 where a: "nfs_call W ?req ?s = Some (Some (st, dd), s1)" "nfs_write_cb st s1 = Some (4096, s2)"
    using w k' p
    by (auto simp: VOP_WRITE_def vnfs_write_def coro_inc_def upd_proc_def bind_eq_Some_conv Let_def
        uio_init_def share_buf_check_len_def split: option.split_asm)
  then have "yields W (On_nfs ?req) ?s = Some (Nfs_answer st dd, s1)" using nfs_call_Some [OF a(1)] by auto
  then show ?thesis using a(2) by (auto simp: nfs_write_cb_def bind_eq_Some_conv)
qed

lemma load_list_memcpy:
  assumes "n < 2 ^ 64"
  shows "load_list (memcpy m dst src (word_of_nat n)) dst n = load_list m src n"
  using assms unfolding load_list_def by (intro map_cong) (simp_all add: memcpy_def word_less_nat_alt unat_of_nat64)

lemma load_list_store64:
  assumes "\<And>i. i < n \<Longrightarrow> \<not> a + word_of_nat i - p < 8"
  shows "load_list (store64 m p v) a n = load_list m a n"
  using assms unfolding load_list_def by (intro map_cong) (simp_all add: store64_def)

lemma check_len_4096 [simp]: "share_buf_check_len 4096 = 4096"
  by (simp add: share_buf_check_len_def)

lemma next_free_node_frame: "next_free_node s = Some (i, s') \<Longrightarrow> \<exists>l. s' = s\<lparr>pf_list := l\<rparr>"
  by (cases "pf_head (the (pf_list s))") (auto simp: next_free_node_def bind_eq_Some_conv)

lemma pageout_sends:
  assumes k: "kernel_file s h" "pf_vnode s \<noteq> 0" and o: "pageout W page s = Some (0, s')"
    and pte: "pageout_pte page s = Some pte" "\<And>i. i < 4096 \<Longrightarrow> \<not> page_num_to_vaddr page s + word_of_nat i - pte < 8"
  shows "\<exists>ind s2 s0 d s1. pageout_block pte s = Some (ind, s2) \<and>
    yields W (On_nfs (Nfs_pwrite h (ind * 4096) (load_list (mem s) (page_num_to_vaddr page s) 4096))) s0 =
      Some (Nfs_answer 4096 d, s1)"
proof -
  obtain ind s2 where b: "pageout_block pte s = Some (ind, s2)"
    using o k(2) pte(1) by (auto simp: pageout_def bind_eq_Some_conv)
  then obtain l where f: "s2 = s\<lparr>pf_list := l, mem := store64 (mem s) pte (page_update_entry P_PAGEFILE ind)\<rparr>"
    by (auto simp: pageout_block_def bind_eq_Some_conv Let_def dest!: next_free_node_frame)
  let ?a = "page_num_to_vaddr page s"
  let ?s3 = "s2\<lparr>mem := memcpy (mem s2) (get_buf_from_pid 0 s2) ?a 4096\<rparr>"
  have v: "page_num_to_vaddr page s2 = ?a" by (simp add: f page_num_to_vaddr_def)
  have k3: "kernel_file ?s3 h" using k(1) by (simp add: f)
  have "VOP_WRITE W (pf_vnode ?s3) (uio_init UIO_WRITE 4096 (ind * 4096) 0) ?s3 = Some (4096, s')"
    using o k(2) pte(1) b v by (auto simp: pageout_def bind_eq_Some_conv Let_def sos_copyin_def f)
  from write_page [OF k3 this] obtain s0 d s1 where
    "yields W (On_nfs (Nfs_pwrite h (ind * 4096) (load_list (mem ?s3) (get_buf_from_pid 0 ?s3) 4096))) s0 =
      Some (Nfs_answer 4096 d, s1)" by blast
  moreover have "load_list (mem ?s3) (get_buf_from_pid 0 ?s3) 4096 = load_list (mem s) ?a 4096"
    using load_list_memcpy [of 4096] load_list_store64 [OF pte(2)] by (simp add: f get_buf_from_pid_def)
  ultimately show ?thesis using b by auto
qed

lemma read_page:
  assumes k: "kernel_file s h" and r: "VOP_READ W (pf_vnode s) (uio_init UIO_READ 4096 off 0) s = Some (4096, s')"
    and a: "\<And>t st d t'. yields W (On_nfs (Nfs_pread h off 4096)) t = Some (Nfs_answer st d, t') \<Longrightarrow> d = Bytes bs"
    and bs: "length bs = 4096"
  shows "load_list (mem s') (get_buf_from_pid 0 s') 4096 = bs"
proof -
  obtain d p v where k': "nfs_data_of (pf_vnode s) s = Some d" "nv_nfsfh d = h" "VOP (pf_vnode s) s = Some Nfs_ops"
    "proc_get 0 s = Some p" "get_proc s p = Some v" "p_state v \<noteq> ZOMBIE"
    using k unfolding kernel_file_def by blast
  have p: "p \<noteq> 0" using k'(5) by auto
  let ?s = "set_proc p (v\<lparr>p_coro_count := p_coro_count v + 1\<rparr>) s"
  let ?u = "uio_init UIO_READ 4096 off 0"
  obtain st dd s1 s2 where b: "nfs_call W (Nfs_pread h off 4096) ?s = Some (Some (st, dd), s1)" "coro_dec p s2 = Some s'"
    "nfs_read_cb st dd ?u s1 = Some (4096, s2)"
    using r k' p
    unfolding uio_init_def
    by (auto simp: VOP_READ_def vnfs_read_def coro_inc_def upd_proc_def bind_eq_Some_conv split: option.split_asm)
  then have y: "yields W (On_nfs (Nfs_pread h off 4096)) ?s = Some (Nfs_answer st dd, s1)"
    using nfs_call_Some [OF b(1)] by auto
  have dd: "dd = Bytes bs" by (rule a [OF y])
  obtain n where n: "copyin_bytes 0 bs (word_of_int st) s1 = Some (n, s2)" "uint n = 4096"
    using b(3) dd by (auto simp: nfs_read_cb_def bind_eq_Some_conv uio_init_def)
  then have "n = 4096" by (simp add: word_uint_eq_iff)
  then have "s2 = s1\<lparr>mem := store_list (mem s1) (get_buf_from_pid 0 s1) bs\<rparr>"
    using n(1) bs by (auto simp: copyin_bytes_def bind_eq_Some_conv Let_def)
  moreover have "mem s' = mem s2 \<and> get_buf_from_pid 0 s' = get_buf_from_pid 0 s2"
    using b(2) by (auto simp: coro_dec_def upd_proc_def bind_eq_Some_conv get_buf_from_pid_def)
  ultimately show ?thesis using load_store_list [of bs] bs by (simp add: get_buf_from_pid_def)
qed

lemma add_free_list_mem: "add_free_list i s = Some (r, s') \<Longrightarrow> mem s' = mem s"
  by (cases "pf_head (the (pf_list s))")
    (auto simp: add_free_list_def malloc_def kinvoke_def bind_eq_Some_conv split: if_split_asm)

lemma pagein_delivers:
  assumes k: "kernel_file s h" and i: "pagein W ind kva s = Some (0, s')" 
    and a: "\<And>t st d t'. yields W (On_nfs (Nfs_pread h (ind * 4096) 4096)) t = Some (Nfs_answer st d, t') \<Longrightarrow> d = Bytes bs"
    and bs: "length bs = 4096"
  shows "load_list (mem s') kva 4096 = bs"
proof -
  obtain l where "pf_list s = Some l" "\<not> ind > pf_size l"
    using i by (auto simp: pagein_def bind_eq_Some_conv split: if_split_asm)
  then obtain s1 r s2 where s: "VOP_READ W (pf_vnode s) (uio_init UIO_READ 4096 (ind * 4096) 0) s = Some (4096, s1)"
    "add_free_list ind (snd (sos_copyout 0 kva 4096 s1)) = Some (r, s')"
    using i by (auto simp: pagein_def bind_eq_Some_conv Let_def split_def)
  have "mem s' = memcpy (mem s1) kva (get_buf_from_pid 0 s1) 4096"
    using add_free_list_mem [OF s(2)] by (simp add: sos_copyout_def)
  then show ?thesis
    using read_page [OF k s(1) a bs] load_list_memcpy [of 4096] by simp
qed

section \<open>Properties\<close>

text \<open>
  C26. The page file hands out blocks safely: from a page file in which exactly the blocks \<open>U\<close> are
  in use, any number of page-outs, each for an entry of its own, take pairwise distinct blocks
  outside \<open>U\<close>, and whatever sequence of page-outs and removals runs, exactly the blocks taken and
  not returned are then in use, all of them below the size of the file.
\<close>

theorem pagefile_blocks_distinct:
  assumes "pf_held s U"
  shows "(pool_run pf_get pf_put (map Get ptes) s U = Some (is, s1, U1) \<longrightarrow>
      distinct is \<and> set is \<inter> U = {} \<and> U1 = U \<union> set is) \<and>
    (pool_run pf_get pf_put ops s U = Some (js, s2, U2) \<longrightarrow> pf_held s2 U2)"
  by (rule conjI [OF impI [OF pf.gets_distinct [OF assms]] impI [OF pf.run_held [OF assms]]])

theorem pagefile_blocks_distinct_witness:
  "pf_held (sos_example\<lparr>pf_list := Some \<lparr>pf_size = 2, pf_head = [0]\<rparr>\<rparr>) {1} \<and>
   (\<exists>s2. pool_run pf_get pf_put [Get 0x8000, Get 0x8008, Put 1]
      (sos_example\<lparr>pf_list := Some \<lparr>pf_size = 2, pf_head = [0]\<rparr>\<rparr>) {1} = Some ([0, 2], s2, {0, 2}) \<and> pf_held s2 {0, 2})"
proof -
  let ?s = "sos_example\<lparr>pf_list := Some \<lparr>pf_size = 2, pf_head = [0]\<rparr>\<rparr>"
  have h: "pf_held ?s {1}" by (auto simp: pf_held_def word_less_nat_alt word_unat_eq_iff)
  have n: "insert 2 (insert 0 {1 :: word64}) - {1} = {0, 2}" by auto
  have "\<exists>s2. pool_run pf_get pf_put [Get 0x8000, Get 0x8008, Put 1] ?s {1} = Some ([0, 2], s2, {0, 2})"
    using n by (simp add: pf_get_def pageout_block_def next_free_node_def pf_put_def pagefile_remove_def add_free_list_def
        malloc_def kinvoke_def sos_example_def Let_def)
  then show ?thesis using h pagefile_blocks_distinct [OF h] by blast
qed

text \<open>
  C25. Paging out and in is lossless. A successful \<open>pageout\<close> takes a block and sends exactly the
  4096 bytes of the frame to the server at that block's position, and a later successful
  \<open>pagein\<close> of the block, in whatever state, leaves these bytes at the new frame's address if the
  server answers the read with them. In particular the single buffer that all transfers
  share never mixes two of them.
\<close>

theorem pageout_pagein_round_trip:
  assumes "kernel_file s h" "pf_vnode s \<noteq> 0" "pageout_pte page s = Some pte"
    "\<And>i. i < 4096 \<Longrightarrow> \<not> page_num_to_vaddr page s + word_of_nat i - pte < 8"
    "bs = load_list (mem s) (page_num_to_vaddr page s) 4096"
    "pageout_block pte s = Some (ind, s2)" "pageout W page s = Some (0, s')"
    "\<And>x st d y. yields W (On_nfs (Nfs_pread h (ind * 4096) 4096)) x = Some (Nfs_answer st d, y) \<Longrightarrow> d = Bytes bs"
    "kernel_file t h" "pagein W ind kva t = Some (0, t')"
  shows "(\<exists>x d y. yields W (On_nfs (Nfs_pwrite h (ind * 4096) bs)) x = Some (Nfs_answer 4096 d, y)) \<and>
    load_list (mem t') kva 4096 = load_list (mem s) (page_num_to_vaddr page s) 4096"
  using pageout_sends [OF assms(1,2,7,3,4)] pagein_delivers [OF assms(9,10,8)] assms(5,6) by auto

text \<open>
  A state with one user page: process 1 has a page table at 64 KiB whose entry for the address
  \<open>0x3000\<close> is at \<open>0x14018\<close>, and frame 0 holds the page.
\<close>

definition pager_example :: sos where
  "pager_example = vfs_example\<lparr>procs := [0x1000, 0x1800],
     proc_mem := [0x1000 \<mapsto> (fresh_proc world_example 0)\<lparr>p_shared_buf := 0x80000100000\<rparr>,
       0x1800 \<mapsto> (fresh_proc world_example 0)\<lparr>p_as := Some \<lparr>as_regions = [], as_stack = None, as_heap = None,
          as_buffer = None, as_pt = 0x10000\<rparr>\<rparr>],
     mem := store64 (store64 (store64 (store64 (\<lambda>a. ucast a) 0x10000 0x11000) 0x11000 0x12000) 0x12000 0x13000) 0x13000 0x14000,
     base_vaddr := 0x90000000000, frame_table_size := 1, pf_vnode := 0x3000,
     frame_table := [\<lparr>fte_cap = 5, fte_user_cap = 6, fte_ut = 0, fte_next_free_page = 0, fte_pid = 1, fte_user_vaddr = 0x3000,
       fte_ref_bit = False, fte_important = False\<rparr>]\<rparr>"

definition pager_world :: world where
  "pager_world = world_example\<lparr>nfs_refuses := (\<lambda>_ _. False),
     yields := (\<lambda>e s. case e of On_nfs (Nfs_pread _ _ n) \<Rightarrow> Some (Nfs_answer (int (unat n))
                    (Bytes (load_list (\<lambda>a. ucast a) 0x90000000000 4096)), s)
                | On_nfs (Nfs_pwrite _ _ bs) \<Rightarrow> Some (Nfs_answer (int (length bs)) No_data, s) | _ \<Rightarrow> None)\<rparr>"

lemma far_below:
  assumes "unat p + 8 \<le> unat a" "unat a + n < 2 ^ 64" "i < n"
  shows "\<not> a + word_of_nat i - p < (8 :: word64)"
proof -
  have "unat (word_of_nat i :: word64) = i" using assms by (intro unat_of_nat64) simp
  then have "unat (a + word_of_nat i) = unat a + i" using assms by (subst unat_add64) simp_all
  then show ?thesis using assms by (simp add: word_less_nat_alt unat_sub_if_size)
qed

lemma pager_example_pte: "pageout_pte 0 pager_example = Some 0x14018"
  by (simp add: pageout_pte_def get_frame_def pager_example_def proc_get_def get_proc_def page_lookup_def pt_pgd_def
      get_pt_index_def entry_at_def load64_store64_other aligned_def)



lemma kernel_file_set_proc:
  assumes "proc_get 0 s = Some p" "p \<noteq> 0" "p_state v \<noteq> ZOMBIE" "p_shared_buf v = get_buf_from_pid 0 s" "kernel_file s h"
  shows "kernel_file (set_proc p v s) h"
  using assms by (auto simp: kernel_file_def get_buf_from_pid_def VOP_def get_vnode_def set_proc_def nfs_data_of_def proc_get_def get_proc_def)

lemma pager_world_write:
  assumes k: "kernel_file s h" "get_buf_from_pid 0 s \<noteq> 0"
  shows "\<exists>p v. VOP_WRITE pager_world (pf_vnode s) (uio_init UIO_WRITE 4096 off 0) s = Some (4096, set_proc p v s) \<and>
    kernel_file (set_proc p v s) h"
proof -
  obtain d p v where k': "nfs_data_of (pf_vnode s) s = Some d" "nv_nfsfh d = h" "VOP (pf_vnode s) s = Some Nfs_ops"
    "proc_get 0 s = Some p" "get_proc s p = Some v" "p_state v \<noteq> ZOMBIE" "p_shared_buf v = get_buf_from_pid 0 s"
    using k(1) unfolding kernel_file_def by blast
  have p: "p \<noteq> 0" using k'(5) by auto
  have "VOP_WRITE pager_world (pf_vnode s) (uio_init UIO_WRITE 4096 off 0) s = Some (4096, set_proc p v s)"
    using k' p k(2)
    by (simp add: VOP_WRITE_def vnfs_write_def coro_inc_def coro_dec_def upd_proc_def Let_def
        uio_init_def nfs_call_def pager_world_def nfs_write_cb_def)
  then show ?thesis using kernel_file_set_proc [OF k'(4) p k'(6,7) k(1)] by blast
qed

lemma pager_world_read:
  assumes k: "kernel_file s h"
  shows "\<exists>s'. VOP_READ pager_world (pf_vnode s) (uio_init UIO_READ 4096 off 0) s = Some (4096, s') \<and>
    pf_list s' = pf_list s \<and> kresp s' = kresp s \<and> klog s' = klog s"
proof -
  obtain d p v where k': "nfs_data_of (pf_vnode s) s = Some d" "nv_nfsfh d = h" "VOP (pf_vnode s) s = Some Nfs_ops"
    "proc_get 0 s = Some p" "get_proc s p = Some v" "p_state v \<noteq> ZOMBIE"
    using k unfolding kernel_file_def by blast
  have p: "p \<noteq> 0" using k'(5) by auto
  then show ?thesis
    using k'
    by (simp add: VOP_READ_def vnfs_read_def coro_inc_def coro_dec_def upd_proc_def copyin_bytes_def
        uio_init_def nfs_call_def pager_world_def nfs_read_cb_def)
qed

lemma pager_example_file: "kernel_file pager_example 7" "get_buf_from_pid 0 pager_example \<noteq> 0"
  by (simp_all add: kernel_file_def pager_example_def vfs_example_def sos_example_def world_example_def nfs_data_of_def VOP_def
      get_vnode_def proc_get_def get_proc_def get_buf_from_pid_def buf_offset_def)

lemma pager_example_out: "\<exists>s'. pageout pager_world 0 pager_example = Some (0, s') \<and> kernel_file s' 7 \<and>
   pf_list s' = Some \<lparr>pf_size = 1, pf_head = []\<rparr> \<and> kresp s' = kresp pager_example \<and> klog s' = klog pager_example"
proof -
  let ?s = "pager_example\<lparr>pf_list := Some \<lparr>pf_size = 1, pf_head = []\<rparr>,
    mem := store64 (mem pager_example) 0x14018 (page_update_entry P_PAGEFILE 0)\<rparr>"
  have l: "pf_list pager_example = Some \<lparr>pf_size = 0, pf_head = []\<rparr>" "pf_vnode pager_example \<noteq> 0"
    by (simp_all add: pager_example_def vfs_example_def sos_example_def)
  have b: "pageout_block 0x14018 pager_example = Some (0, ?s)"
    by (simp add: pageout_block_def next_free_node_def l Let_def)
  let ?t = "snd (sos_copyin 0 (page_num_to_vaddr 0 ?s) 4096 ?s)"
  have t: "kernel_file ?t 7" "get_buf_from_pid 0 ?t \<noteq> 0"
    using pager_example_file by (simp_all add: sos_copyin_def get_buf_from_pid_def)
  show ?thesis
    using pager_world_write [OF t, of 0] l
    by (auto simp: pageout_def pager_example_pte b sos_copyin_def Let_def)
qed

theorem pageout_pagein_round_trip_witness:
  "\<exists>s' t'. pageout pager_world 0 pager_example = Some (0, s') \<and> pagein pager_world 0 0x95000 s' = Some (0, t') \<and>
     load_list (mem t') 0x95000 4096 = load_list (mem pager_example) (page_num_to_vaddr 0 pager_example) 4096"
proof -
  obtain s' where o: "pageout pager_world 0 pager_example = Some (0, s')" "kernel_file s' 7"
    "pf_list s' = Some \<lparr>pf_size = 1, pf_head = []\<rparr>" "kresp s' = kresp pager_example" "klog s' = klog pager_example"
    using pager_example_out by blast
  obtain s1 where "VOP_READ pager_world (pf_vnode s') (uio_init UIO_READ 4096 0 0) s' = Some (4096, s1)"
    "pf_list s1 = pf_list s'" "kresp s1 = kresp s'" "klog s1 = klog s'"
    using pager_world_read [OF o(2), of 0] by blast
  then have "\<exists>t'. pagein pager_world 0 0x95000 s' = Some (0, t')"
    using o(3-5) by (simp add: pagein_def sos_copyout_def add_free_list_def malloc_def kinvoke_def Let_def
        pager_example_def vfs_example_def sos_example_def)
  then obtain t' where i: "pagein pager_world 0 0x95000 s' = Some (0, t')" by blast
  have v: "page_num_to_vaddr 0 pager_example = 0x90000000000" by (simp add: page_num_to_vaddr_def pager_example_def)
  have far: "i < 4096 \<Longrightarrow> unat p + 8 \<le> 0x90000000000 \<Longrightarrow> \<not> 0x90000000000 + word_of_nat i - p < (8 :: word64)" for i p
    by (rule far_below [where n = 4096]) simp_all
  have far_store: "unat p + 8 \<le> 0x90000000000 \<Longrightarrow>
      load_list (store64 m p v) 0x90000000000 4096 = load_list m 0x90000000000 4096" for m p v
    by (rule load_list_store64 [OF far])
  have bs: "load_list (mem pager_example) 0x90000000000 4096 = load_list (\<lambda>a. ucast a) 0x90000000000 4096"
    by (simp add: pager_example_def far_store)
  have b: "\<exists>s2. pageout_block 0x14018 pager_example = Some (0, s2)"
    by (simp add: pageout_block_def next_free_node_def Let_def pager_example_def vfs_example_def sos_example_def)
  have y: "d = Bytes (load_list (mem pager_example) 0x90000000000 4096)"
    if "yields pager_world (On_nfs (Nfs_pread 7 (0 * 4096) 4096)) x = Some (Nfs_answer st d, z)" for x st d z
    using that by (simp add: pager_world_def bs)
  have pv: "pf_vnode pager_example \<noteq> 0" by (simp add: pager_example_def)
  show ?thesis
    using b pageout_pagein_round_trip [OF pager_example_file(1) pv pager_example_pte, unfolded v, OF far refl _ o(1) y o(2) i]
      o(1) i v by auto
qed

end
