(* ===== verification/Still.thy ===== *)
theory Still
  imports Ut_Alloc
begin

text \<open>
  What the memory management leaves alone. The operations on untypeds, capability slots and
  mappings change the kernel log, the bootstrap cspace and the table of untypeds; they never
  touch the memory of SOS nor any state of the components above them. \<open>still s s'\<close> says so of
  two states, and the collection \<open>still\<close> holds one rule for every operation.
\<close>

definition still :: "'a ut \<Rightarrow> 'a ut \<Rightarrow> bool" where
  "still s s' \<longleftrightarrow> ut_state.more s' = ut_state.more s \<and> mem s' = mem s \<and> kresp s' = kresp s"

named_theorems still \<open>operations that leave the memory and the state of higher components alone\<close>

lemma still_refl [simp]: "still s s"
  by (simp add: still_def)

lemma still_trans [trans]: "still s t \<Longrightarrow> still t u \<Longrightarrow> still s u"
  by (simp add: still_def)

lemma still_upd [simp]:
  "still s (t\<lparr>ut_table := x\<rparr>) = still s t" "still s (t\<lparr>ut_mem := y\<rparr>) = still s t" "still s (t\<lparr>cspace := c\<rparr>) = still s t"
  "still s (t\<lparr>next_free_vaddr := v\<rparr>) = still s t" "still s (t\<lparr>device_virt := v\<rparr>) = still s t"
  by (simp_all add: still_def)

lemma still_kinvoke [still]: "kinvoke c s = (r, s') \<Longrightarrow> still s s'"
  by (auto simp: still_def kinvoke_def)

lemma still_set_ut [simp]: "still s (set_ut t p u) = still s t"
  by (simp add: set_ut_def)

lemma still_ut_push [still]: "ut_push h new s = Some (r, s') \<Longrightarrow> still s s'"
  by (auto simp: ut_push_def bind_eq_Some_conv)

lemma still_push_untyped [still]: "push_untyped k new s = Some s' \<Longrightarrow> still s s'"
  by (auto simp: push_untyped_def bind_eq_Some_conv dest!: still)

lemma still_pop_untyped [still]: "pop_untyped k s = Some (r, s') \<Longrightarrow> still s s'"
  by (auto simp: pop_untyped_def bind_eq_Some_conv)

lemma still_push_structure [still]: "push_structure new s = Some s' \<Longrightarrow> still s s'"
  by (auto simp: push_structure_def bind_eq_Some_conv dest!: still)

lemma still_pop_structure [still]: "pop_structure s = Some (r, s') \<Longrightarrow> still s s'"
  by (auto simp: pop_structure_def bind_eq_Some_conv)

lemma still_ut_alloc_4k_untyped [still]: "ut_alloc_4k_untyped s = Some (r, q, s') \<Longrightarrow> still s s'"
  by (auto simp: ut_alloc_4k_untyped_def bind_eq_Some_conv split: if_split_asm dest!: still)

lemma still_ut_free [still]: "ut_free p b s = Some s' \<Longrightarrow> still s s'"
  by (auto simp: ut_free_def split: if_split_asm dest!: still)

lemma still_cspace [still]:
  "cspace_delete c p s = (r, s') \<Longrightarrow> still s s'" "cspace_untyped_retype c u p t b s = (r, s') \<Longrightarrow> still s s'"
  "cspace_copy c p c' p' x s = (r, s') \<Longrightarrow> still s s'" "cspace_mint c p c' p' x w s = (r, s') \<Longrightarrow> still s s'"
  "cspace_save_reply_cap c p s = (r, s') \<Longrightarrow> still s s'" "cspace_move c p c' p' s = (r, s') \<Longrightarrow> still s s'"
  by (auto simp: cspace_delete_def cspace_untyped_retype_def cspace_copy_def cspace_mint_def cspace_save_reply_cap_def cspace_move_def
      split: if_split_asm dest!: still)

lemma still_retype_map [still]:
  "retype_map_pt c v a u p s = (r, s') \<Longrightarrow> still s s'" "retype_map_pd c v a u p s = (r, s') \<Longrightarrow> still s s'"
  "retype_map_pud c v a u p s = (r, s') \<Longrightarrow> still s s'"
  by (auto simp: retype_map_pt_def retype_map_pd_def retype_map_pud_def split: if_split_asm prod.split_asm
      dest!: still intro: still_trans)

lemma still_map_level [still]: "map_level f c v a u p e s = (r, s') \<Longrightarrow> still s s'"
  by (auto simp: map_level_def split: if_split_asm dest!: still)

text \<open>The loop of \<open>map_frame_impl\<close> over any provider of slots that is still.\<close>

lemma still_map_frame_loop:
  assumes slot: "\<And>i used s p used' s'. slot_for i used s = Some (p, used', s') \<Longrightarrow> still s s'"
  shows "map_frame_loop slot_for c f v a rt at is e used s = Some (r, used', s') \<Longrightarrow> still s s'"
proof (induction "is" arbitrary: e used s r used' s')
  case (Cons i "is")
  have "ends (\<lambda>(r, used', s'). still s s') (map_frame_loop slot_for c f v a rt at (i # is) e used s)"
    unfolding map_frame_loop.simps
    by (intro paths) (auto simp: ends_def still_def split: if_split_asm dest!: still slot Cons.IH)
  then show ?case using Cons.prems by (auto dest: endsD)
qed simp

text \<open>The callbacks and the slot allocator.\<close>

lemma still_given_slot [still]: "given_slot fs i used s = Some (p, used', s') \<Longrightarrow> still s s'"
  by (auto simp: given_slot_def bind_eq_Some_conv)

lemma still_map_frame_cspace [still]:
  "map_frame_cspace c f v a rt at fs used s = Some (r, used', s') \<Longrightarrow> still s s'"
  by (auto simp: map_frame_cspace_def map_frame_impl_def split: prod.split_asm
      dest!: still still_map_frame_loop [rotated] intro: still_trans)

lemma still_alloc_vaddr [still]: "alloc_vaddr e s = (r, s') \<Longrightarrow> still s s'"
  by (auto simp: alloc_vaddr_def split: if_split_asm)

lemma still_bootstrap_map_frame [still]:
  assumes "bootstrap_cspace_map_frame c f fs used s = Some (r, used', s')"
  shows "still s s'"
proof -
  have "ends (\<lambda>(r, used', s'). still s s') (bootstrap_cspace_map_frame c f fs used s)"
    unfolding bootstrap_cspace_map_frame_def by (intro paths) (auto dest!: still intro: still_trans)
  then show ?thesis using assms by (auto dest: endsD)
qed

lemma still_bootstrap [still]:
  "bootstrap_cspace_alloc_4k_ut s = Some (r, q, s') \<Longrightarrow> still s s'"
  "bootstrap_cspace_free_4k_ut p s = Some s' \<Longrightarrow> still s s'"
  by (auto simp: bootstrap_cspace_alloc_4k_ut_def bootstrap_cspace_free_4k_ut_def bind_eq_Some_conv dest!: still)

subsection \<open>The slot allocator\<close>

lemma still_refill:
  assumes f: "\<And>c s p c' s'. f c s = Some (p, c', s') \<Longrightarrow> still s s'" and r: "refill_watermark f c used s = Some (c', s')"
  shows "still s s'"
  using r by (auto simp: refill_watermark_def bind_eq_Some_conv split: option.split_asm dest!: f)

text \<open>A cspace whose allocation callbacks are still allocates and destroys its slots without touching anything else.\<close>

locale still_alloc =
  fixes A :: "'a ut cspace_alloc_t"
  assumes alloc_4k: "alloc_4k_untyped A c s = Some (r, q, s') \<Longrightarrow> still s s'"
    and free_4k: "free_4k_untyped A c p s = Some s' \<Longrightarrow> still s s'"
    and map_frame: "cs_map_frame A c f fs used s = Some (v, used', s') \<Longrightarrow> still s s'"
begin

lemmas calls = alloc_4k free_4k map_frame

lemma still_retype_helper [still]:
  assumes "retype_helper A c t p s = Some (r, s')"
  shows "still s s'"
proof -
  have "ends (\<lambda>(r, s'). still s s') (retype_helper A c t p s)"
    unfolding retype_helper_def by (intro paths) (auto dest!: still calls intro: still_trans)
  then show ?thesis using assms by (auto dest: endsD)
qed

lemma still_ensure_node [still]:
  assumes "ensure_node A c node used s = Some (ok, used', c', s')"
  shows "still s s'"
proof -
  have "ends (\<lambda>(ok, used', c', s'). still s s') (ensure_node A c node used s)"
    unfolding ensure_node_def by (intro paths) (auto dest!: still calls intro: still_trans)
  then show ?thesis using assms by (auto dest: endsD)
qed

lemma still_ensure_cnode [still]:
  assumes "ensure_cnode A c p s = Some (ok, c', s')"
  shows "still s s'"
proof -
  have "ends (\<lambda>(ok, c', s'). still s s') (ensure_cnode A c p s)"
    unfolding ensure_cnode_def by (intro paths) (auto dest!: still calls intro: still_trans)
  then show ?thesis using assms by (auto dest: endsD)
qed

lemma still_ensure_levels [still]:
  assumes "ensure_levels A c p used s = Some (ok, used', c', s')"
  shows "still s s'"
proof -
  have "ends (\<lambda>(ok, used', c', s'). still s s') (ensure_levels A c p used s)"
    unfolding ensure_levels_def by (intro paths) (auto split: if_split_asm dest!: still intro: still_trans)
  then show ?thesis using assms by (auto dest: endsD)
qed

lemma still_cspace_alloc_slot [still]:
  "cspace_alloc_slot A c s = Some (p, c', s') \<Longrightarrow> still s s'"
proof -
  have "cspace_alloc_slot A' c s = Some y \<Longrightarrow> A' = A \<Longrightarrow> still s (snd (snd y))" for A' y
  proof (induction rule: cspace_alloc_slot.raw_induct [rotated, consumes 1, case_names step])
    case (step f A' c s y)
    have IH: "f A' c s = Some (p, c', s') \<Longrightarrow> still s s'" for c s p c' s'
      using step(1) [of A' c s "(p, c', s')"] step(3) by simp
    show ?case
      unfolding step(3)
      by (rule endsD [OF _ step(2) [unfolded step(3)]], intro paths)
        (auto split: if_split_asm dest!: still still_refill [OF IH [unfolded step(3)], rotated] intro: still_trans)
  qed
  then show "cspace_alloc_slot A c s = Some (p, c', s') \<Longrightarrow> still s s'" by fastforce
qed

lemma still_refill_slots [still]: "refill_watermark (cspace_alloc_slot A) c used s = Some (c', s') \<Longrightarrow> still s s'"
  by (erule still_refill [rotated]) (rule still_cspace_alloc_slot)

lemma still_destroy_cnodes [still]: "destroy_cnodes A c nd i js lst s = Some (r, s') \<Longrightarrow> still s s'"
  by (induction js arbitrary: lst s) (auto simp: bind_eq_Some_conv dest!: free_4k intro: still_trans)

lemma still_destroy_nodes [still]: "destroy_nodes A c is lst s = Some (r, s') \<Longrightarrow> still s s'"
proof (induction "is" arbitrary: lst s r s')
  case (Cons i "is")
  have "ends (\<lambda>(r, s'). still s s') (destroy_nodes A c (i # is) lst s)"
    unfolding destroy_nodes.simps by (intro paths) (auto simp: still_def ends_def dest!: still calls Cons.IH)
  then show ?case using Cons.prems by (auto dest: endsD)
qed simp

end

interpretation boot: still_alloc bootstrap_alloc
  by unfold_locales
    (auto simp: alloc_4k_untyped_def free_4k_untyped_def cs_map_frame_def bootstrap_alloc_def bind_eq_Some_conv dest!: still)

interpretation empty: still_alloc no_alloc
  by unfold_locales
    (auto simp: alloc_4k_untyped_def free_4k_untyped_def cs_map_frame_def no_alloc_def bind_eq_Some_conv)

lemma delete_cnodes_frame [simp]:
  "ut_state.more (delete_cnodes c is s) = ut_state.more s" "mem (delete_cnodes c is s) = mem s"
  "kresp (delete_cnodes c is s) = kresp s"
  by (induction "is" arbitrary: s) (simp_all add: kinvoke_def)

lemma still_malloc [still]: "malloc n s = (p, s') \<Longrightarrow> still s s'"
  by (auto simp: malloc_def still_def kinvoke_def)

lemma still_cspace_destroy [still]:
  assumes "cspace_destroy no_alloc bootstrap_alloc c b s = Some (b', s')"
  shows "still s s'"
proof -
  have "ends (\<lambda>(b', s'). still s s') (cspace_destroy no_alloc bootstrap_alloc c b s)"
    unfolding cspace_destroy_def
    by (intro paths) (auto simp: still_def bind_eq_Some_conv split: if_split_asm prod.split_asm dest!: still boot.free_4k)
  then show ?thesis using assms by (auto dest: endsD)
qed

lemma still_create_fail [still]: "create_fail no_alloc bootstrap_alloc t c s = Some (e, t', c', s') \<Longrightarrow> still s s'"
  by (auto simp: create_fail_def bind_eq_Some_conv dest!: still)

lemma still_create_root [still]:
  assumes "create_root no_alloc bootstrap_alloc t c s = Some (e, t', c', s')"
  shows "still s s'"
proof -
  have "ends (\<lambda>(e, t', c', s'). still s s') (create_root no_alloc bootstrap_alloc t c s)"
    unfolding create_root_def by (intro paths) (auto simp: ends_def still_def dest!: still)
  then show ?thesis using assms by (auto dest: endsD)
qed

lemma still_create_first_slots [still]:
  assumes "create_first_slots no_alloc p t c s = Some (e, t', c', s')"
  shows "still s s'"
proof -
  have "ends (\<lambda>(e, t', c', s'). still s s') (create_first_slots no_alloc p t c s)"
    unfolding create_first_slots_def by (intro paths) (auto simp: ends_def still_def dest!: still)
  then show ?thesis using assms by (auto dest: endsD)
qed

lemma still_cspace_create_one_level [still]:
  assumes "cspace_create_one_level bootstrap_alloc c s = Some (e, t, c', s')"
  shows "still s s'"
proof -
  have "ends (\<lambda>(e, t, c', s'). still s s') (cspace_create_one_level bootstrap_alloc c s)"
    unfolding cspace_create_one_level_def cspace_create_def
    by (intro paths) (auto simp: ends_def still_def split: if_split_asm dest!: still)
  then show ?thesis using assms by (auto dest: endsD)
qed

subsection \<open>The operations of SOS\<close>

lemma still_alloc_slot [still]: "alloc_slot s = Some (p, s') \<Longrightarrow> still s s'"
  by (auto simp: alloc_slot_def bind_eq_Some_conv dest!: still)

lemma still_free_slot [still]: "free_slot p s = Some s' \<Longrightarrow> still s s'"
  by (auto simp: free_slot_def bind_eq_Some_conv)

lemma still_fresh_slot [still]: "fresh_slot i used s = Some (p, used', s') \<Longrightarrow> still s s'"
  by (auto simp: fresh_slot_def bind_eq_Some_conv dest!: still)

lemma still_map_frame [still]:
  assumes "map_frame f v a rt at s = Some (r, s')"
  shows "still s s'"
proof -
  have "ends (\<lambda>(r, s'). still s s') (map_frame f v a rt at s)"
    unfolding map_frame_def map_frame_impl_def
    by (intro paths) (auto split: prod.split_asm dest!: still still_map_frame_loop [rotated] intro: still_trans)
  then show ?thesis using assms by (auto dest: endsD)
qed

lemma still_bootstrap_map [still]: "bootstrap_map_frame cap s = Some (v, s') \<Longrightarrow> still s s'"
  by (auto simp: bootstrap_map_frame_def bind_eq_Some_conv dest!: still intro: still_trans)

lemma still_push_structures [still]: "push_structures ps s = Some s' \<Longrightarrow> still s s'"
  by (induction ps arbitrary: s) (auto simp: bind_eq_Some_conv dest!: still_push_structure intro: still_trans)

lemma still_ensure_new_structures [still]:
  assumes "ensure_new_structures s = Some (r, s')"
  shows "still s s'"
proof -
  have "ends (\<lambda>(r, s'). still s s') (ensure_new_structures s)"
    unfolding ensure_new_structures_def by (intro paths) (auto simp: still_def dest!: still)
  then show ?thesis using assms by (auto dest: endsD)
qed

lemma still_set_cap [still]: "set_cap p c s = Some s' \<Longrightarrow> still s s'"
  by (auto simp: set_cap_def bind_eq_Some_conv)

lemma still_split_fail [still]: "split_fail p s = Some (r, s') \<Longrightarrow> still s s'"
  by (auto simp: split_fail_def bind_eq_Some_conv dest!: still)

lemma still_ut_split_retype [still]:
  assumes "ut_split_retype b l n1 n2 s = Some (r, s')"
  shows "still s s'"
proof -
  have "ends (\<lambda>(r, s'). still s s') (ut_split_retype b l n1 n2 s)"
    unfolding ut_split_retype_def by (intro paths) (auto simp: still_def ends_def dest!: still)
  then show ?thesis using assms by (auto dest: endsD)
qed

lemma still_ut_split [still]:
  assumes "ut_split b l s = Some (r, s')"
  shows "still s s'"
proof -
  have "ends (\<lambda>(r, s'). still s s') (ut_split b l s)"
    unfolding ut_split_def by (intro paths) (auto simp: still_def ends_def dest!: still)
  then show ?thesis using assms by (auto dest: endsD)
qed

lemma still_ut_alloc [still]: "ut_alloc b s = Some (r, s') \<Longrightarrow> still s s'"
proof (induction b s arbitrary: r s' rule: ut_alloc.induct)
  case (1 b s)
  show ?case
  proof (cases "seL4_EndpointBits \<le> b \<and> b < seL4_PageBits")
    case True
    then have "ends (\<lambda>(r, s'). still s s') (ut_alloc b s)"
      unfolding ut_alloc.simps [of b s]
      by (intro paths) (auto simp: still_def ends_def bind_eq_Some_conv split: if_split_asm dest!: still 1(1))
    then show ?thesis using 1(2) by (auto dest: endsD)
  next
    case False
    then show ?thesis
      using 1(2) by (auto simp: ut_alloc.simps [of b s] bind_eq_Some_conv split: if_split_asm dest!: still)
  qed
qed

lemma still_alloc_retype [still]:
  assumes "alloc_retype p0 t b s = Some (r, p, s')"
  shows "still s s'"
proof -
  have "ends (\<lambda>(r, p, s'). still s s') (alloc_retype p0 t b s)"
    unfolding alloc_retype_def by (intro paths) (auto simp: still_def dest!: still)
  then show ?thesis using assms by (auto dest: endsD)
qed

end
