(* ===== verification/Frametable.thy ===== *)
theory Frametable
  imports Pager Still Cspace_Slots
begin

text \<open>
  The frame table, \<open>sos/src/vm/frametable.c\<close>: the pages of memory that SOS hands out, with the
  free list threaded through the entries and a second-chance clock that pages out a victim when
  every frame is in use.

  The lemmas show that the free list and the frames in use partition the table, whatever
  sequence of operations runs, and that the search of the clock ends.
\<close>

section \<open>Definitions\<close>

abbreviation (input) SOS_FRAME_TABLE :: word64 where "SOS_FRAME_TABLE \<equiv> 0x80000000000"
abbreviation (input) sizeof_frame_table_entry :: word64 where "sizeof_frame_table_entry \<equiv> 56"

text \<open>
  The results of \<open>alloc_retype_map\<close>: the untyped (0 on failure), the slot, the address (0 on
  failure) and the physical address.
\<close>

definition alloc_retype_map :: "word64 \<Rightarrow> sos \<Rightarrow> ((word64 \<times> cptr \<times> word64 \<times> word64) \<times> sos) option" where
  "alloc_retype_map vaddr s = do {
     (ut, paddr, s) \<leftarrow> ut_alloc_4k_untyped s;
     if ut = 0 then Some ((0, 0, 0, paddr), s)
     else do {
       (cap, s) \<leftarrow> alloc_slot s;
       if cap = seL4_CapNull then do { s \<leftarrow> ut_free ut seL4_PageBits s; Some ((0, cap, 0, paddr), s) }
       else do {
         u \<leftarrow> get_ut s ut;
         let (err, s) = cspace_untyped_retype (cspace s) (ut_cap u) cap seL4_ARM_SmallPageObject seL4_PageBits s;
         if err \<noteq> seL4_NoError then do {
           s \<leftarrow> ut_free ut seL4_PageBits s;
           let (_, s) = cspace_delete (cspace s) cap s;
           s \<leftarrow> free_slot cap s;
           Some ((0, cap, 0, paddr), s) }
         else do {
           (err, s) \<leftarrow> map_frame cap seL4_CapInitThreadVSpace vaddr seL4_AllRights seL4_ARM_Default_VMAttributes s;
           if err \<noteq> seL4_NoError then do {
             s \<leftarrow> ut_free ut seL4_PageBits s;
             let (_, s) = cspace_delete (cspace s) cap s;
             s \<leftarrow> free_slot cap s;
             Some ((0, cap, 0, paddr), s) }
           else Some ((ut, cap, vaddr, paddr), s) } } } }"

text \<open>
  The pages of the table itself. If one of them cannot be mapped, the initialisation below
  writes to an address that has no page, so the run ends here.
\<close>

primrec map_table_pages :: "nat \<Rightarrow> word64 \<Rightarrow> sos \<Rightarrow> (word64 \<times> sos) option" where
  "map_table_pages 0 vaddr s = Some (vaddr, s)"
| "map_table_pages (Suc n) vaddr s = do {
     ((ut, _, v, paddr), s) \<leftarrow> alloc_retype_map (vaddr + PAGE_SIZE_4K) s;
     c_assert (ut \<noteq> 0);
     map_table_pages n v (s\<lparr>top_paddr := paddr\<rparr>) }"

definition free_entry :: "word64 \<Rightarrow> word64 \<Rightarrow> frame_table_entry" where
  "free_entry ut next = \<lparr>fte_cap = seL4_CapNull, fte_user_cap = seL4_CapNull, fte_ut = ut, fte_next_free_page = next,
     fte_pid = - 1, fte_user_vaddr = 0, fte_ref_bit = False, fte_important = False\<rparr>"

text \<open>
  \<open>0.8 * n\<close> in double precision, truncated, is \<open>4 n / 5\<close> for every \<open>n\<close> below \<open>2 ^ 50\<close>. The
  entries' \<open>ut\<close> is not initialised; fresh frames are zero.
\<close>

definition frame_table_init :: "sos \<Rightarrow> sos option" where
  "frame_table_init s = do {
     let size = 4 * (ut_size s div PAGE_SIZE_4K) div 5;
     let pages = BYTES_TO_4K_PAGES (size * sizeof_frame_table_entry);
     let s = s\<lparr>frame_table_curr_size := 0, frame_table_size := size, frame_table_pages := pages\<rparr>;
     ((ut, _, vaddr, paddr), s) \<leftarrow> alloc_retype_map SOS_FRAME_TABLE s;
     c_assert (ut \<noteq> 0);
     (vaddr, s) \<leftarrow> map_table_pages (unat pages - 1) vaddr (s\<lparr>top_paddr := paddr\<rparr>);
     c_assert (size > 0);
     let n = unat size;
     let t = map (\<lambda>i. free_entry 0 (word_of_nat (i + 1))) [0..<n - 1] @ [free_entry 0 0];
     let top = top_paddr s - PAGE_SIZE_4K;
     Some (s\<lparr>base_vaddr := vaddr + PAGE_SIZE_4K, frame_table := t, top_paddr := top, bot_paddr := top - ut_size s,
             clock_curr := 0\<rparr>) }"

definition delete_user_cap :: "cptr \<Rightarrow> sos \<Rightarrow> sos option" where
  "delete_user_cap cap s = do {
     let (_, s) = kinvoke (ARM_Page_Unmap cap) s;
     let (_, s) = cspace_delete (cspace s) cap s;
     free_slot cap s }"

definition frame_free :: "word64 \<Rightarrow> sos \<Rightarrow> sos option" where
  "frame_free page s =
     (if page > frame_table_size s then Some s
      else do {
        e \<leftarrow> rd (frame_table s) (unat page);
        c_assert (fte_cap e \<noteq> seL4_CapNull);
        let s = s\<lparr>frame_table := (frame_table s)[unat page := e\<lparr>fte_next_free_page := next_free_page s\<rparr>]\<rparr>;
        s \<leftarrow> delete_user_cap (fte_cap e) s;
        s \<leftarrow> (if fte_user_cap e \<noteq> 0 then delete_user_cap (fte_user_cap e) s else Some s);
        s \<leftarrow> ut_free (fte_ut e) PAGE_BITS_4K s;
        e \<leftarrow> rd (frame_table s) (unat page);
        s \<leftarrow> set_frame page (e\<lparr>fte_cap := seL4_CapNull, fte_user_cap := seL4_CapNull, fte_user_vaddr := 0, fte_pid := - 1\<rparr>) s;
        Some (s\<lparr>frame_table_curr_size := frame_table_curr_size s - 1, next_free_page := page\<rparr>) })"

text \<open>One round of the clock at an entry whose reference bit is set.\<close>

definition clock_step :: "frame_table_entry \<Rightarrow> sos \<Rightarrow> sos option" where
  "clock_step e s = do {
     s \<leftarrow> (if \<not> fte_important e \<or> fte_pid e \<le> int MAX_PROCESSES then do {
             s \<leftarrow> set_frame (clock_curr s) (e\<lparr>fte_ref_bit := False\<rparr>) s;
             Some (if fte_user_cap e \<noteq> seL4_CapNull then snd (kinvoke (ARM_Page_Unmap (fte_user_cap e)) s) else s) }
           else Some s);
     Some (s\<lparr>clock_curr := (clock_curr s + 1) mod frame_table_size s\<rparr>) }"

partial_function (option) clock_loop :: "sos \<Rightarrow> sos option" where
  "clock_loop s = do {
     e \<leftarrow> rd (frame_table s) (unat (clock_curr s));
     if fte_ref_bit e then do { s \<leftarrow> clock_step e s; clock_loop s } else Some s }"

declare clock_loop.simps [code]

definition evict :: "world \<Rightarrow> sos \<Rightarrow> (word64 \<times> sos) option" where
  "evict W s = do {
     s \<leftarrow> clock_loop s;
     (_, s) \<leftarrow> pageout W (clock_curr s) s;
     s \<leftarrow> frame_free (clock_curr s) s;
     Some (clock_curr s, s) }"

text \<open>The entry of a frame that is handed out.\<close>

definition frame_entry :: "bool \<Rightarrow> cptr \<Rightarrow> word64 \<Rightarrow> frame_table_entry \<Rightarrow> frame_table_entry" where
  "frame_entry important cap ut e = e\<lparr>fte_cap := cap, fte_ut := ut, fte_important := important, fte_user_vaddr := 0,
     fte_pid := - 1, fte_user_cap := 0, fte_ref_bit := True\<rparr>"

text \<open>
  \<open>frame_alloc\<close> and \<open>frame_alloc_important\<close> differ in the \<open>important\<close> flag. The results are the
  page number, 0 on failure, and \<open>*vaddr\<close>.
\<close>

definition frame_alloc_as :: "bool \<Rightarrow> world \<Rightarrow> sos \<Rightarrow> ((word64 \<times> word64) \<times> sos) option" where
  "frame_alloc_as important W s = do {
     let page = next_free_page s;
     c_assert (frame_table_curr_size s \<le> frame_table_size s);
     (page, s) \<leftarrow> (if frame_table_curr_size s = frame_table_size s then evict W s else Some (page, s));
     ((ut, cap, vaddr, _), s) \<leftarrow> alloc_retype_map (page_num_to_vaddr page s) s;
     if ut = 0 then Some ((0, vaddr), s)
     else do {
       let s = s\<lparr>mem := memset (mem s) vaddr 0 PAGE_SIZE_4K\<rparr>;
       e \<leftarrow> rd (frame_table s) (unat page);
       s \<leftarrow> set_frame page (frame_entry important cap ut e) s;
       Some ((page, vaddr), s\<lparr>next_free_page := fte_next_free_page e,
                              frame_table_curr_size := frame_table_curr_size s + 1\<rparr>) } }"

definition frame_alloc :: "world \<Rightarrow> sos \<Rightarrow> ((word64 \<times> word64) \<times> sos) option" where
  "frame_alloc W s = frame_alloc_as False W s"

definition frame_alloc_important :: "world \<Rightarrow> sos \<Rightarrow> ((word64 \<times> word64) \<times> sos) option" where
  "frame_alloc_important W s = frame_alloc_as True W s"

section \<open>Lemmas\<close>

subsection \<open>What allocating memory leaves alone\<close>

lemma still_sos:
  fixes s s' :: sos
  assumes "still s s'"
  shows "frame_table s' = frame_table s" "next_free_page s' = next_free_page s" "frame_table_size s' = frame_table_size s"
    "frame_table_curr_size s' = frame_table_curr_size s" "base_vaddr s' = base_vaddr s" "clock_curr s' = clock_curr s"
    "procs s' = procs s" "proc_mem s' = proc_mem s" "vnode_mem s' = vnode_mem s" "pf_list s' = pf_list s"
    "shared_buf_begin s' = shared_buf_begin s" "mrs s' = mrs s" "mem s' = mem s" "kresp s' = kresp s"
    "reap_list s' = reap_list s" "curr_pid s' = curr_pid s" "ep s' = ep s" "held_procs s' = held_procs s"
    "parked_procs s' = parked_procs s"
  using assms unfolding still_def by (cases s; cases s'; simp)+

lemma still_alloc_retype_map [still]:
  assumes "alloc_retype_map vaddr s = Some (r, s')"
  shows "still s s'"
proof -
  have "ends (\<lambda>(r, s'). still s s') (alloc_retype_map vaddr s)"
    unfolding alloc_retype_map_def by (intro paths) (auto simp: still_def dest!: still)
  then show ?thesis using assms by (auto dest: endsD)
qed

lemma still_delete_user_cap [still]: "delete_user_cap cap s = Some s' \<Longrightarrow> still s s'"
proof -
  have "ends (still s) (delete_user_cap cap s)"
    unfolding delete_user_cap_def by (intro paths) (auto simp: still_def ends_def dest!: still)
  then show "delete_user_cap cap s = Some s' \<Longrightarrow> still s s'" by (rule endsD)
qed

lemma alloc_retype_map_result:
  assumes "alloc_retype_map vaddr s = Some ((ut, cap, v, pa), s')"
  shows "if ut = 0 then v = 0 else cap \<noteq> 0 \<and> v = vaddr"
proof -
  have "ends (\<lambda>((ut, cap, v, pa), s'). if ut = 0 then v = 0 else cap \<noteq> 0 \<and> v = vaddr) (alloc_retype_map vaddr s)"
    unfolding alloc_retype_map_def by (intro paths) simp_all
  then show ?thesis using assms by (auto dest: endsD)
qed

text \<open>The frame table after \<open>frame_free\<close>.\<close>

lemma frame_free_effect:
  assumes "frame_free page s = Some s'" "\<not> page > frame_table_size s"
  shows "\<exists>e. unat page < length (frame_table s) \<and> e = frame_table s ! unat page \<and> fte_cap e \<noteq> 0 \<and>
    frame_table s' = (frame_table s)[unat page := e\<lparr>fte_next_free_page := next_free_page s, fte_cap := 0, fte_user_cap := 0,
      fte_user_vaddr := 0, fte_pid := - 1\<rparr>] \<and>
    next_free_page s' = page \<and> frame_table_curr_size s' = frame_table_curr_size s - 1 \<and>
    frame_table_size s' = frame_table_size s \<and> base_vaddr s' = base_vaddr s \<and> mem s' = mem s \<and> clock_curr s' = clock_curr s \<and>
    procs s' = procs s \<and> proc_mem s' = proc_mem s \<and> pf_list s' = pf_list s"
proof -
  obtain e s2 s3 s4 e4 s5 where a: "rd (frame_table s) (unat page) = Some e" "fte_cap e \<noteq> 0"
    "delete_user_cap (fte_cap e) (s\<lparr>frame_table := (frame_table s)[unat page := e\<lparr>fte_next_free_page := next_free_page s\<rparr>]\<rparr>) = Some s2"
    "(if fte_user_cap e \<noteq> 0 then delete_user_cap (fte_user_cap e) s2 else Some s2) = Some s3"
    "ut_free (fte_ut e) PAGE_BITS_4K s3 = Some s4" "rd (frame_table s4) (unat page) = Some e4"
    "set_frame page (e4\<lparr>fte_cap := 0, fte_user_cap := 0, fte_user_vaddr := 0, fte_pid := - 1\<rparr>) s4 = Some s5"
    "s' = s5\<lparr>frame_table_curr_size := frame_table_curr_size s5 - 1, next_free_page := page\<rparr>"
    using assms by (auto simp: frame_free_def bind_eq_Some_conv Let_def)
  let ?s1 = "s\<lparr>frame_table := (frame_table s)[unat page := e\<lparr>fte_next_free_page := next_free_page s\<rparr>]\<rparr>"
  have "still ?s1 s4" using a(3-5) by (auto simp: still_def split: if_split_asm dest!: still)
  note st = still_sos [OF this]
  have "unat page < length (frame_table s)" "e = frame_table s ! unat page" using a(1) by (simp_all add: rd_Some)
  then show ?thesis
    using a(2,6-8)
    by (intro exI [of _ e]) (auto simp: set_frame_def bind_eq_Some_conv rd_Some wr_Some st)
qed

subsection \<open>The free list and the frames in use partition the table\<close>

fun ft_chain :: "frame_table_entry list \<Rightarrow> word64 \<Rightarrow> nat list \<Rightarrow> bool" where
  "ft_chain t p [] \<longleftrightarrow> True"
| "ft_chain t p (x # xs) \<longleftrightarrow> unat p = x \<and> x < length t \<and> ft_chain t (fte_next_free_page (t ! x)) xs"

definition frames_used :: "frame_table_entry list \<Rightarrow> nat set" where
  "frames_used t = {i. i < length t \<and> fte_cap (t ! i) \<noteq> 0}"

definition free_list_ok :: "sos \<Rightarrow> bool" where
  "free_list_ok s \<longleftrightarrow> (let t = frame_table s in length t = unat (frame_table_size s) \<and>
     unat (frame_table_curr_size s) = card (frames_used t) \<and>
     (\<exists>fs. ft_chain t (next_free_page s) fs \<and> distinct fs \<and> set fs = {..<length t} - frames_used t))"

lemma free_list_okI:
  assumes "length (frame_table s) = unat (frame_table_size s)"
    "unat (frame_table_curr_size s) = card (frames_used (frame_table s))"
    "ft_chain (frame_table s) (next_free_page s) fs" "distinct fs"
    "set fs = {..<length (frame_table s)} - frames_used (frame_table s)"
  shows "free_list_ok s"
  using assms unfolding free_list_ok_def Let_def by blast

lemma free_list_ok_frame [simp]:
  "free_list_ok (s\<lparr>mem := m\<rparr>) = free_list_ok s" "free_list_ok (s\<lparr>klog := l\<rparr>) = free_list_ok s" "free_list_ok (s\<lparr>vnode_mem := vm\<rparr>) = free_list_ok s"
  "free_list_ok (s\<lparr>reading := b, con_curr := c, nbytes_read := n\<rparr>) = free_list_ok s" "free_list_ok (s\<lparr>pf_list := f\<rparr>) = free_list_ok s"
  "free_list_ok (s\<lparr>pf_vnode := v\<rparr>) = free_list_ok s" "free_list_ok (s\<lparr>proc_mem := pm\<rparr>) = free_list_ok s"
  "free_list_ok (s\<lparr>procs := ps\<rparr>) = free_list_ok s" "free_list_ok (s\<lparr>clock_curr := cc\<rparr>) = free_list_ok s"
  by (simp_all add: free_list_ok_def)

lemma free_list_ok_cong:
  "frame_table s' = frame_table s \<Longrightarrow> next_free_page s' = next_free_page s \<Longrightarrow> frame_table_size s' = frame_table_size s \<Longrightarrow>
   frame_table_curr_size s' = frame_table_curr_size s \<Longrightarrow> free_list_ok s' = free_list_ok s"
  by (simp add: free_list_ok_def)

lemma free_list_ok_set_proc [simp]: "free_list_ok (set_proc p v s) = free_list_ok s"
  by (simp add: set_proc_def)

lemma free_list_ok_still: "still s s' \<Longrightarrow> free_list_ok s' = free_list_ok s"
  by (rule free_list_ok_cong) (simp_all add: still_sos)

text \<open>The invariant: the free list, and the hand of the clock does not leave the table.\<close>

definition frames_ok :: "sos \<Rightarrow> bool" where
  "frames_ok s \<longleftrightarrow> free_list_ok s \<and> clock_curr s \<le> frame_table_size s"

lemma frames_ok_set_proc [simp]: "frames_ok (set_proc p v s) = frames_ok s"
  by (simp add: frames_ok_def set_proc_def)

lemma frames_ok_frame [simp]:
  "frames_ok (s\<lparr>mem := m\<rparr>) = frames_ok s" "frames_ok (s\<lparr>klog := l\<rparr>) = frames_ok s" "frames_ok (s\<lparr>vnode_mem := vm\<rparr>) = frames_ok s"
  "frames_ok (s\<lparr>reading := b, con_curr := c, nbytes_read := n\<rparr>) = frames_ok s" "frames_ok (s\<lparr>pf_list := f\<rparr>) = frames_ok s"
  "frames_ok (s\<lparr>pf_vnode := v\<rparr>) = frames_ok s" "frames_ok (s\<lparr>proc_mem := pm\<rparr>) = frames_ok s"
  "frames_ok (s\<lparr>procs := ps\<rparr>) = frames_ok s"
  by (simp_all add: frames_ok_def)

lemma frames_ok_still: "still s s' \<Longrightarrow> frames_ok s' = frames_ok s"
  by (simp add: frames_ok_def free_list_ok_still still_sos)

text \<open>The environment keeps the invariant, so paging does.\<close>

definition frames_stable :: "world \<Rightarrow> bool" where
  "frames_stable W \<longleftrightarrow> (\<forall>e s w s'. yields W e s = Some (w, s') \<longrightarrow> frames_ok s \<longrightarrow> frames_ok s')"

definition frames_kept :: "world \<Rightarrow> sos \<Rightarrow> sos \<Rightarrow> bool" where
  "frames_kept W s s' \<longleftrightarrow> (frames_stable W \<longrightarrow> frames_ok s \<longrightarrow> frames_ok s')"

interpretation frames: observed_paging "frames_kept W" W for W
  by unfold_locales
    (auto simp: frames_kept_def frames_stable_def coro_inc_def coro_dec_def upd_proc_def bind_eq_Some_conv)

lemma ft_chain_other: "i \<notin> set fs \<Longrightarrow> ft_chain (t[i := e]) p fs = ft_chain t p fs"
  by (induction fs arbitrary: p) auto

lemma frames_used_update:
  assumes "i < length t"
  shows "frames_used (t[i := e]) = (if fte_cap e = 0 then frames_used t - {i} else insert i (frames_used t))"
  using assms by (auto simp: frames_used_def nth_list_update split: if_split_asm)

lemma frames_used_finite [simp]: "finite (frames_used t)"
  by (simp add: frames_used_def)

lemma frames_used_bound: "card (frames_used t) \<le> length t"
  using card_mono [of "{..<length t}" "frames_used t"] by (force simp: frames_used_def)

lemma frame_free_ok:
  assumes ok: "free_list_ok s" and f: "frame_free page s = Some s'" "\<not> page > frame_table_size s"
  shows "free_list_ok s' \<and> frames_used (frame_table s') = frames_used (frame_table s) - {unat page} \<and>
    unat page \<in> frames_used (frame_table s) \<and> frame_table_curr_size s' < frame_table_size s'"
proof -
  let ?t = "frame_table s"
  obtain e where e: "unat page < length ?t" "e = ?t ! unat page" "fte_cap e \<noteq> 0"
    "frame_table s' = ?t[unat page := e\<lparr>fte_next_free_page := next_free_page s, fte_cap := 0, fte_user_cap := 0,
      fte_user_vaddr := 0, fte_pid := - 1\<rparr>]" "next_free_page s' = page"
    "frame_table_curr_size s' = frame_table_curr_size s - 1" "frame_table_size s' = frame_table_size s"
    using frame_free_effect [OF f] by blast
  have used: "unat page \<in> frames_used ?t" using e by (simp add: frames_used_def)
  obtain fs where fs: "ft_chain ?t (next_free_page s) fs" "distinct fs" "set fs = {..<length ?t} - frames_used ?t"
    and len: "length ?t = unat (frame_table_size s)" "unat (frame_table_curr_size s) = card (frames_used ?t)"
    using ok by (auto simp: free_list_ok_def Let_def)
  have u: "frames_used (frame_table s') = frames_used ?t - {unat page}" using e by (simp add: frames_used_update)
  have pos: "0 < card (frames_used ?t)" using used card_gt_0_iff by fastforce
  have curr: "unat (frame_table_curr_size s') = card (frames_used ?t) - 1"
    using pos len(2) e(6) by (simp add: unat_sub_if_size)
  have nin: "unat page \<notin> set fs" using fs(3) used by simp
  have chain: "ft_chain (frame_table s') (next_free_page s') (unat page # fs)"
    using e fs(1) nin by (simp add: ft_chain_other)
  have lt: "length (frame_table s') = length ?t" using e(4) by simp
  have "set (unat page # fs) = {..<length (frame_table s')} - frames_used (frame_table s')"
    unfolding u lt using fs(3) used e(1) by auto
  moreover have "distinct (unat page # fs)" using nin fs(2) by simp
  ultimately have "free_list_ok s'"
    using chain len(1) e(7) lt curr u used
    by (intro free_list_okI [where fs = "unat page # fs"]) (simp_all add: card_Diff_singleton)
  moreover have "frame_table_curr_size s' < frame_table_size s'"
    using curr pos len e(7) frames_used_bound [of ?t] by (simp add: word_less_nat_alt)
  ultimately show ?thesis using u used by blast
qed

text \<open>Taking the head of the free list.\<close>

lemma free_list_ok_head:
  assumes ok: "free_list_ok s" and free: "frame_table_curr_size s < frame_table_size s"
  shows "unat (next_free_page s) < length (frame_table s) \<and> unat (next_free_page s) \<notin> frames_used (frame_table s)"
proof -
  let ?t = "frame_table s"
  obtain fs where fs: "ft_chain ?t (next_free_page s) fs" "set fs = {..<length ?t} - frames_used ?t"
    and len: "length ?t = unat (frame_table_size s)" "unat (frame_table_curr_size s) = card (frames_used ?t)"
    using ok by (auto simp: free_list_ok_def Let_def)
  have "card (frames_used ?t) < card {..<length ?t}"
    unfolding card_lessThan len(1) using free len(2) by (simp add: word_less_nat_alt)
  then have "frames_used ?t \<noteq> {..<length ?t}" by fastforce
  moreover have "frames_used ?t \<subseteq> {..<length ?t}" by (auto simp: frames_used_def)
  ultimately have "set fs \<noteq> {}" using fs(2) by auto
  then show ?thesis using fs by (cases fs) auto
qed

lemma frame_take_ok:
  assumes ok: "free_list_ok s" and free: "frame_table_curr_size s < frame_table_size s"
    and s': "frame_table s' = (frame_table s)[unat (next_free_page s) := e]" "fte_cap e \<noteq> 0"
      "next_free_page s' = fte_next_free_page (frame_table s ! unat (next_free_page s))"
      "frame_table_curr_size s' = frame_table_curr_size s + 1" "frame_table_size s' = frame_table_size s"
  shows "free_list_ok s' \<and> frames_used (frame_table s') = insert (unat (next_free_page s)) (frames_used (frame_table s))"
proof -
  let ?t = "frame_table s" and ?p = "unat (next_free_page s)"
  have p: "?p < length ?t" "?p \<notin> frames_used ?t" using free_list_ok_head [OF ok free] by simp_all
  obtain fs where fs: "ft_chain ?t (next_free_page s) fs" "distinct fs" "set fs = {..<length ?t} - frames_used ?t"
    and len: "length ?t = unat (frame_table_size s)" "unat (frame_table_curr_size s) = card (frames_used ?t)"
    using ok by (auto simp: free_list_ok_def Let_def)
  obtain xs where xs: "fs = ?p # xs" using fs p by (cases fs) auto
  have u: "frames_used (frame_table s') = insert ?p (frames_used ?t)" using s'(1,2) p by (simp add: frames_used_update)
  have curr: "unat (frame_table_curr_size s') = card (frames_used ?t) + 1"
  proof -
    have "unat (frame_table_curr_size s) + 1 < 18446744073709551616"
      using free unat_less_2p64 [of "frame_table_size s"] by (simp only: word_less_nat_alt)
    then show ?thesis using s'(4) len(2) by (simp add: unat_add64)
  qed
  have lt: "length (frame_table s') = length ?t" using s'(1) by simp
  have "set xs = set fs - {?p}" using fs(2) xs by auto
  then have set: "set xs = {..<length (frame_table s')} - frames_used (frame_table s')"
    unfolding u lt fs(3) by auto
  have chain: "ft_chain (frame_table s') (next_free_page s') xs"
    using fs(1,2) xs s'(1,3) by (simp add: ft_chain_other)
  have card: "unat (frame_table_curr_size s') = card (frames_used (frame_table s'))"
    unfolding u curr using p(2) by simp
  have "free_list_ok s'"
    by (rule free_list_okI [OF _ card chain _ set]) (use lt len(1) s'(5) fs(2) xs in simp_all)
  then show ?thesis using u by blast
qed

subsection \<open>The clock\<close>

text \<open>What the clock changes: reference bits, its hand and the kernel log.\<close>

definition noref :: "frame_table_entry \<Rightarrow> frame_table_entry" where
  "noref e = e\<lparr>fte_ref_bit := False\<rparr>"

definition erase :: "sos \<Rightarrow> sos" where
  "erase s = s\<lparr>klog := [], frame_table := map noref (frame_table s), clock_curr := 0\<rparr>"

lemma erase_sel:
  assumes "erase s' = erase s"
  shows "map noref (frame_table s') = map noref (frame_table s)" "next_free_page s' = next_free_page s"
    "frame_table_size s' = frame_table_size s" "frame_table_curr_size s' = frame_table_curr_size s"
    "mem s' = mem s" "base_vaddr s' = base_vaddr s" "procs s' = procs s" "proc_mem s' = proc_mem s" "pf_list s' = pf_list s"
    "kresp s' = kresp s" "pf_vnode s' = pf_vnode s"
  using assms unfolding erase_def by (cases s; cases s'; simp)+

lemma erase_nth:
  assumes "erase s' = erase s" "i < length (frame_table s)"
  shows "frame_table s' ! i = (frame_table s ! i)\<lparr>fte_ref_bit := fte_ref_bit (frame_table s' ! i)\<rparr>"
proof -
  have m: "map noref (frame_table s') = map noref (frame_table s)" by (rule erase_sel [OF assms(1)])
  then have l: "length (frame_table s') = length (frame_table s)" by (metis length_map)
  have "noref (frame_table s' ! i) = noref (frame_table s ! i)" using m assms(2) l by (metis nth_map)
  then have "(noref (frame_table s' ! i))\<lparr>fte_ref_bit := fte_ref_bit (frame_table s' ! i)\<rparr> =
      (noref (frame_table s ! i))\<lparr>fte_ref_bit := fte_ref_bit (frame_table s' ! i)\<rparr>" by simp
  then show ?thesis by (simp add: noref_def)
qed

lemma clock_step_effect:
  assumes "clock_step e s = Some s'" "rd (frame_table s) (unat (clock_curr s)) = Some e"
  shows "erase s' = erase s \<and> clock_curr s' = (clock_curr s + 1) mod frame_table_size s \<and>
    frame_table s' = (frame_table s)[unat (clock_curr s) :=
      e\<lparr>fte_ref_bit := fte_ref_bit e \<and> \<not> (\<not> fte_important e \<or> fte_pid e \<le> int MAX_PROCESSES)\<rparr>]"
proof -
  let ?i = "unat (clock_curr s)"
  have e: "?i < length (frame_table s)" "e = frame_table s ! ?i" using assms(2) by (simp_all add: rd_Some)
  have m: "(map noref (frame_table s))[?i := noref (e\<lparr>fte_ref_bit := b\<rparr>)] = map noref (frame_table s)" for b
    using e by (simp add: list_update_same_conv noref_def)
  show ?thesis
    using assms(1) e m
    by (auto simp: clock_step_def set_frame_def bind_eq_Some_conv wr_Some kinvoke_def erase_def map_update
        split: if_split_asm)
qed

lemma noref_sel [simp]: "fte_next_free_page (noref e) = fte_next_free_page e" "fte_cap (noref e) = fte_cap e"
  by (simp_all add: noref_def)

lemma ft_chain_noref: "ft_chain (map noref t) p fs = ft_chain t p fs"
  by (induction fs arbitrary: p) (simp_all cong: conj_cong)

lemma frames_used_noref: "frames_used (map noref t) = frames_used t"
  by (auto simp: frames_used_def)

lemma free_list_ok_erase: "erase s' = erase s \<Longrightarrow> free_list_ok s' = free_list_ok s"
proof -
  have "free_list_ok (erase s) = free_list_ok s" for s
    by (simp add: free_list_ok_def erase_def ft_chain_noref frames_used_noref Let_def)
  then show "erase s' = erase s \<Longrightarrow> free_list_ok s' = free_list_ok s" by metis
qed

lemma clock_loop_effect:
  "clock_loop s = Some s' \<Longrightarrow> erase s' = erase s \<and> (\<exists>e. rd (frame_table s') (unat (clock_curr s')) = Some e \<and> \<not> fte_ref_bit e)"
proof (induction rule: clock_loop.raw_induct [rotated, consumes 1, case_names step])
  case (step loop s s')
  obtain e where e: "rd (frame_table s) (unat (clock_curr s)) = Some e" using step(2) by (auto simp: bind_eq_Some_conv)
  show ?case
  proof (cases "fte_ref_bit e")
    case True
    then obtain s1 where "clock_step e s = Some s1" "loop s1 = Some s'"
      using step(2) e by (auto simp: bind_eq_Some_conv)
    then show ?thesis using step(1) clock_step_effect [OF _ e] by metis
  qed (use step(2) e in auto)
qed

text \<open>
  The clock ends: every entry the hand passes loses its reference bit, so after one round at most
  the hand is at an entry without one.
\<close>

lemma filter_update_less:
  assumes "i < length t" "P (t ! i)" "\<not> P e"
  shows "length (filter P (t[i := e])) < length (filter P t)"
  using assms by (subst (2) id_take_nth_drop [of i t]) (auto simp: upd_conv_take_nth_drop)

lemma clock_loop_terminates:
  assumes "length (frame_table s) = unat (frame_table_size s)" "unat (clock_curr s) < length (frame_table s)"
    "\<forall>e \<in> set (frame_table s). \<not> fte_important e \<or> fte_pid e \<le> int MAX_PROCESSES"
  shows "\<exists>s'. clock_loop s = Some s'"
  using assms
proof (induction "length (filter fte_ref_bit (frame_table s))" arbitrary: s rule: less_induct)
  case less
  let ?t = "frame_table s" and ?i = "unat (clock_curr s)"
  let ?e = "?t ! ?i"
  have e: "rd ?t ?i = Some ?e" using less.prems(2) by simp
  show ?case
  proof (cases "fte_ref_bit ?e")
    case True
    have c: "\<not> fte_important ?e \<or> fte_pid ?e \<le> int MAX_PROCESSES" using less.prems(2,3) by (metis nth_mem)
    then obtain s1 where s1: "clock_step ?e s = Some s1"
      using less.prems(2) by (auto simp: clock_step_def set_frame_def)
    have ef: "clock_curr s1 = (clock_curr s + 1) mod frame_table_size s" "frame_table s1 = ?t[?i := ?e\<lparr>fte_ref_bit := False\<rparr>]"
      "frame_table_size s1 = frame_table_size s"
      using clock_step_effect [OF s1 e] c erase_sel(3) [of s1 s] by auto
    have cc: "unat (clock_curr s1) < length (frame_table s1)"
      using ef less.prems(1,2) by (simp add: unat_mod_distrib)
    have "\<forall>e \<in> set (frame_table s1). \<not> fte_important e \<or> fte_pid e \<le> int MAX_PROCESSES"
      unfolding ef(2) using less.prems(3) c set_update_subset_insert [of ?t ?i] by fastforce
    moreover have "length (filter fte_ref_bit (frame_table s1)) < length (filter fte_ref_bit ?t)"
      unfolding ef(2) using less.prems(2) True by (intro filter_update_less) simp_all
    ultimately obtain s2 where "clock_loop s1 = Some s2"
      using less.hyps [of s1] cc ef less.prems(1) by auto
    then show ?thesis using e True s1 by (subst clock_loop.simps) simp
  qed (use e in \<open>subst clock_loop.simps, simp\<close>)
qed

subsection \<open>Allocation\<close>

lemma clock_loop_ok:
  "clock_loop s = Some s' \<Longrightarrow> frames_ok s \<Longrightarrow> frames_ok s'"
proof (induction rule: clock_loop.raw_induct [rotated, consumes 1, case_names step])
  case (step loop s s')
  obtain e where e: "rd (frame_table s) (unat (clock_curr s)) = Some e" using step(2) by (auto simp: bind_eq_Some_conv)
  show ?case
  proof (cases "fte_ref_bit e")
    case True
    then obtain s1 where s1: "clock_step e s = Some s1" "loop s1 = Some s'"
      using step(2) e by (auto simp: bind_eq_Some_conv)
    have ef: "erase s1 = erase s" "clock_curr s1 = (clock_curr s + 1) mod frame_table_size s"
      using clock_step_effect [OF s1(1) e] by blast+
    have "length (frame_table s) = unat (frame_table_size s)"
      using step(3) by (simp add: frames_ok_def free_list_ok_def Let_def)
    then have "frame_table_size s \<noteq> 0" using e by (auto simp: rd_Some)
    then have "clock_curr s1 \<le> frame_table_size s1"
      using ef(2) erase_sel(3) [OF ef(1)] by (simp add: order_less_imp_le word_mod_less_divisor word_gt_0)
    then have "frames_ok s1" using step(3) free_list_ok_erase [OF ef(1)] by (simp add: frames_ok_def)
    then show ?thesis using step(1) s1(2) by blast
  qed (use step(2,3) e in auto)
qed

lemma evict_ok:
  assumes ok: "frames_ok s" and st: "frames_stable W" and e: "evict W s = Some (page, s')"
  shows "frames_ok s' \<and> frame_table_curr_size s' < frame_table_size s' \<and> page = next_free_page s'"
proof -
  obtain s1 r s2 where s: "clock_loop s = Some s1" "pageout W (clock_curr s1) s1 = Some (r, s2)"
    "frame_free (clock_curr s2) s2 = Some s'" "page = clock_curr s'"
    using e by (auto simp: evict_def bind_eq_Some_conv)
  have "frames_ok s2"
    using keptD [OF frames.pageout_kept s(2)] clock_loop_ok [OF s(1) ok] st by (simp add: frames_kept_def)
  then have ok2: "free_list_ok s2" "\<not> clock_curr s2 > frame_table_size s2" by (simp_all add: frames_ok_def not_less)
  have ef: "clock_curr s' = clock_curr s2" "next_free_page s' = clock_curr s2" "frame_table_size s' = frame_table_size s2"
    using frame_free_effect [OF s(3) ok2(2)] by auto
  then show ?thesis using frame_free_ok [OF ok2(1) s(3) ok2(2)] s(4) ok2(2) by (simp add: frames_ok_def)
qed

text \<open>The effect of filling the entry \<open>page\<close>, which was free in \<open>s\<close>.\<close>

definition frame_filled :: "bool \<Rightarrow> word64 \<Rightarrow> word64 \<Rightarrow> sos \<Rightarrow> sos \<Rightarrow> bool" where
  "frame_filled important page vaddr s s' \<longleftrightarrow>
    frames_ok s' \<and> frames_used (frame_table s') = insert (unat page) (frames_used (frame_table s)) \<and>
    unat page \<notin> frames_used (frame_table s) \<and> vaddr = page_num_to_vaddr page s' \<and>
    fte_important (frame_table s' ! unat page) = important \<and> (\<forall>i < 4096. mem s' (vaddr + word_of_nat i) = 0) \<and>
    mem s' = memset (mem s) vaddr 0 4096 \<and> base_vaddr s' = base_vaddr s \<and> frame_table_size s' = frame_table_size s \<and>
    frame_table_curr_size s' = frame_table_curr_size s + 1"

lemma memset_zero: "i < 4096 \<Longrightarrow> memset m a 0 4096 (a + word_of_nat i) = 0"
proof -
  assume "i < 4096"
  then have "(word_of_nat i :: word64) < 4096" by (simp add: word_less_nat_alt unat_of_nat64)
  then show ?thesis by (simp add: memset_def)
qed

text \<open>The second half of \<open>frame_alloc\<close>, from a state in which \<open>page\<close> heads the free list.\<close>

lemma frame_fill_ok:
  assumes ok: "frames_ok s" and free: "frame_table_curr_size s < frame_table_size s" and p: "page = next_free_page s"
    and a: "alloc_retype_map (page_num_to_vaddr page s) s = Some ((ut, cap, vaddr, pa), s1)" and ut: "ut \<noteq> 0"
    and e: "rd (frame_table s1) (unat page) = Some e"
    and s2: "set_frame page (frame_entry important cap ut e) (s1\<lparr>mem := memset (mem s1) vaddr 0 4096\<rparr>) = Some s2"
    and s': "s' = s2\<lparr>next_free_page := fte_next_free_page e, frame_table_curr_size := frame_table_curr_size s2 + 1\<rparr>"
  shows "frame_filled important page vaddr s s'"
proof -
  note st = still_sos [OF still_alloc_retype_map [OF a]]
  have r: "cap \<noteq> 0" "vaddr = page_num_to_vaddr page s" using alloc_retype_map_result [OF a] ut by simp_all
  have ft: "frame_table s' = (frame_table s)[unat page := frame_entry important cap ut e]" "clock_curr s' = clock_curr s"
    "frame_table_size s' = frame_table_size s" "frame_table_curr_size s' = frame_table_curr_size s + 1"
    "base_vaddr s' = base_vaddr s" "mem s' = memset (mem s) vaddr 0 4096" "e = frame_table s ! unat page"
    "unat page < length (frame_table s)" "next_free_page s' = fte_next_free_page e"
    using e s2 by (auto simp: s' set_frame_def bind_eq_Some_conv wr_Some rd_Some st)
  have "free_list_ok s' \<and> frames_used (frame_table s') = insert (unat (next_free_page s)) (frames_used (frame_table s))"
    by (rule frame_take_ok [where e = "frame_entry important cap ut e"])
      (use ok free ft r p in \<open>simp_all add: frames_ok_def frame_entry_def\<close>)
  moreover have "unat page \<notin> frames_used (frame_table s)"
    using free_list_ok_head [of s] ok free p by (simp add: frames_ok_def)
  ultimately show ?thesis
    using ok ft r p by (simp add: frame_filled_def frames_ok_def page_num_to_vaddr_def memset_zero frame_entry_def)
qed

text \<open>The two outcomes of an allocation, from the state \<open>s1\<close> that has a free frame.\<close>

lemma frame_alloc_cases:
  assumes ok: "frames_ok s" and w: "frame_table_curr_size s < frame_table_size s \<or> frames_stable W"
    and fa: "frame_alloc_as important W s = Some ((page, vaddr), s')"
  obtains s1 where "frames_ok s1" "frame_table_curr_size s < frame_table_size s \<Longrightarrow> s1 = s" "page = 0" "vaddr = 0" "still s1 s'"
  | s1 where "frames_ok s1" "frame_table_curr_size s < frame_table_size s \<Longrightarrow> s1 = s" "frame_filled important page vaddr s1 s'"
proof -
  let ?start = "if frame_table_curr_size s = frame_table_size s then evict W s else Some (next_free_page s, s)"
  have le: "frame_table_curr_size s \<le> frame_table_size s"
    using fa by (auto simp: frame_alloc_as_def bind_eq_Some_conv)
  obtain p s1 ut cap v pa s2 where a: "?start = Some (p, s1)"
    "alloc_retype_map (page_num_to_vaddr p s1) s1 = Some ((ut, cap, v, pa), s2)" and
    r: "(if ut = 0 then Some ((0, v), s2) else do {
       let s = s2\<lparr>mem := memset (mem s2) v 0 PAGE_SIZE_4K\<rparr>;
       e \<leftarrow> rd (frame_table s) (unat p);
       s \<leftarrow> set_frame p (frame_entry important cap ut e) s;
       Some ((p, v), s\<lparr>next_free_page := fte_next_free_page e, frame_table_curr_size := frame_table_curr_size s + 1\<rparr>) }) =
      Some ((page, vaddr), s')"
    using fa by (auto simp: frame_alloc_as_def bind_eq_Some_conv)
  have s1: "frames_ok s1" "frame_table_curr_size s1 < frame_table_size s1" "p = next_free_page s1"
    using a(1) le evict_ok [OF ok] ok w by (auto split: if_split_asm)
  have nf: "frame_table_curr_size s < frame_table_size s \<Longrightarrow> s1 = s" using a(1) by (auto split: if_split_asm)
  show thesis
  proof (cases "ut = 0")
    case True
    then have "page = 0" "vaddr = 0" "s' = s2" using r alloc_retype_map_result [OF a(2)] by simp_all
    then show ?thesis using that(1) [OF s1(1) nf] still_alloc_retype_map [OF a(2)] by simp
  next
    case False
    then obtain e s3 where e: "rd (frame_table s2) (unat p) = Some e"
      "set_frame p (frame_entry important cap ut e) (s2\<lparr>mem := memset (mem s2) v 0 4096\<rparr>) = Some s3"
      "s' = s3\<lparr>next_free_page := fte_next_free_page e, frame_table_curr_size := frame_table_curr_size s3 + 1\<rparr>"
      "page = p" "vaddr = v"
      using r by (auto simp: bind_eq_Some_conv)
    show ?thesis
      using that(2) [OF s1(1) nf] frame_fill_ok [OF s1 a(2) False e(1-3)] e(4,5) by simp
  qed
qed

subsection \<open>Initialisation\<close>

lemma map_table_pages_effect:
  "map_table_pages n v s = Some (v', s') \<Longrightarrow>
     next_free_page s' = next_free_page s \<and> frame_table_size s' = frame_table_size s \<and>
     frame_table_curr_size s' = frame_table_curr_size s"
proof (induction n arbitrary: v s)
  case (Suc n)
  then obtain ut cap v1 pa s1 where a: "alloc_retype_map (v + PAGE_SIZE_4K) s = Some ((ut, cap, v1, pa), s1)"
    "map_table_pages n v1 (s1\<lparr>top_paddr := pa\<rparr>) = Some (v', s')"
    by (auto simp: bind_eq_Some_conv)
  show ?case using Suc.IH [OF a(2)] still_sos [OF still_alloc_retype_map [OF a(1)]] by simp
qed simp

definition initial_table :: "nat \<Rightarrow> frame_table_entry list" where
  "initial_table n = map (\<lambda>i. free_entry 0 (word_of_nat (i + 1))) [0..<n - 1] @ [free_entry 0 0]"

lemma initial_table_chain:
  assumes "n < 2 ^ 64" "k \<le> n" "0 < n"
  shows "ft_chain (initial_table n) (word_of_nat (n - k)) [n - k..<n]"
  using assms(2)
proof (induction k)
  case (Suc k)
  have l: "length (initial_table n) = n" using assms(3) by (simp add: initial_table_def)
  have w: "unat (word_of_nat (n - Suc k) :: word64) = n - Suc k" using assms(1) by (intro unat_of_nat64) simp
  have u: "[n - Suc k..<n] = (n - Suc k) # [n - k..<n]" using Suc.prems by (simp add: upt_conv_Cons Suc_diff_Suc)
  show ?case
  proof (cases "k = 0")
    case True
    then show ?thesis unfolding u ft_chain.simps w using assms l by simp
  next
    case False
    then have "n - Suc k < n - 1" using Suc.prems by simp
    then have "fte_next_free_page (initial_table n ! (n - Suc k)) = word_of_nat (n - k)"
      using Suc.prems by (simp add: initial_table_def nth_append free_entry_def Suc_diff_Suc del: of_nat_Suc)
    then show ?thesis unfolding u ft_chain.simps w using Suc assms l by simp
  qed
qed simp

lemma initial_table_used: "frames_used (initial_table n) = {}"
  by (auto simp: frames_used_def initial_table_def nth_append free_entry_def)

section \<open>Properties\<close>

text \<open>
  C22. Initialisation establishes the invariant of the frame table: if \<open>frame_table_init\<close> returns,
  all of its entries, four fifths of the pages of free memory, are free and on the free list.
\<close>

theorem frame_table_init_ok:
  assumes "frame_table_init s = Some s'" "next_free_page s = 0"
  shows "frames_ok s' \<and> frames_used (frame_table s') = {} \<and>
    length (frame_table s') = unat (4 * (ut_size s div PAGE_SIZE_4K) div 5)"
proof -
  let ?n = "4 * (ut_size s div PAGE_SIZE_4K) div 5"
  let ?s = "s\<lparr>frame_table_curr_size := 0, frame_table_size := ?n,
    frame_table_pages := BYTES_TO_4K_PAGES (?n * sizeof_frame_table_entry)\<rparr>"
  obtain ut cap v pa s1 v2 s2 m where a: "alloc_retype_map SOS_FRAME_TABLE ?s = Some ((ut, cap, v, pa), s1)"
    "map_table_pages m v (s1\<lparr>top_paddr := pa\<rparr>) = Some (v2, s2)" "?n > 0"
    "frame_table s' = initial_table (unat ?n)" "next_free_page s' = next_free_page s2"
    "frame_table_size s' = frame_table_size s2" "frame_table_curr_size s' = frame_table_curr_size s2" "clock_curr s' = 0"
    using assms(1) by (auto simp: frame_table_init_def initial_table_def bind_eq_Some_conv Let_def)
  have f: "next_free_page s' = 0" "frame_table_size s' = ?n" "frame_table_curr_size s' = 0"
    using a(5-7) map_table_pages_effect [OF a(2)] still_sos [OF still_alloc_retype_map [OF a(1)]] assms(2) by simp_all
  have pos: "0 < unat ?n" using a(3) by (simp only: word_less_nat_alt unat_0)
  have l: "length (initial_table (unat ?n)) = unat ?n" using pos by (simp add: initial_table_def)
  have "ft_chain (frame_table s') (next_free_page s') [0..<unat ?n]"
    using initial_table_chain [of "unat ?n" "unat ?n"] pos f(1) a(4) by simp
  then have "free_list_ok s'"
    by (rule free_list_okI [rotated 2]) (use a(4) f l initial_table_used in \<open>simp_all add: atLeast0LessThan\<close>)
  then show ?thesis using a(4,8) f l initial_table_used by (simp add: frames_ok_def)
qed

definition boot_example :: sos where
  "boot_example = sos_example\<lparr>cspace := zero_cspace\<lparr>top_lvl_size_bits := CNODE_SIZE_BITS, top_bf := [3, 0]\<rparr>,
     ut_table := \<lparr>first_paddr = 0, untypeds = 0x600, free_untypeds = [0, 0, 0, 0, 0, 0, 0, 0, 0x600], n_4k_untyped = 5, free_structures = 0\<rparr>\<rparr>"

theorem frame_table_init_ok_witness:
  "\<exists>s'. frame_table_init boot_example = Some s' \<and> frames_ok s' \<and> length (frame_table s') = 4"
proof -
  have n: "next_free_page boot_example = 0" by (simp add: boot_example_def sos_example_def)
  have "\<exists>s'. frame_table_init boot_example = Some s'"
    by (simp add: frame_table_init_def boot_example_def sos_example_def alloc_retype_map_def ut_alloc_4k_untyped_def
        pop_untyped_def ut_pop_def get_ut_def SIZE_BITS_TO_INDEX_def alloc_slot_def cspace_eval zero_cspace_def
        cspace_untyped_retype_def kinvoke_def map_frame_def map_frame_impl_def ut_size_def BYTES_TO_4K_PAGES_def upt_rec)
  moreover have "unat (4 * (ut_size boot_example div PAGE_SIZE_4K) div 5) = 4"
    by (simp add: ut_size_def boot_example_def)
  ultimately show ?thesis using frame_table_init_ok [OF _ n] by auto
qed

text \<open>
  C13. Frames are handed out safely. In a state whose free list and frames in use partition the
  table, \<open>frame_alloc\<close> and \<open>frame_alloc_important\<close> keep this partition, whether or not they have
  to page out a victim. Either they fail and report page 0 at address 0, or the frame they
  report is in use from then on, mapped at its own address and filled with zeros. While the
  table is not full they return a frame that was not in use and take no other.
\<close>

theorem frame_alloc_correct:
  assumes "frames_ok s" "frames_stable W" "frame_alloc_as important W s = Some ((page, vaddr), s')"
  shows "frames_ok s' \<and>
    (page = 0 \<and> vaddr = 0 \<or>
     unat page \<in> frames_used (frame_table s') \<and> vaddr = page_num_to_vaddr page s' \<and>
     fte_important (frame_table s' ! unat page) = important \<and> (\<forall>i < 4096. mem s' (vaddr + word_of_nat i) = 0)) \<and>
    (frame_table_curr_size s < frame_table_size s \<longrightarrow>
     frame_table s' = frame_table s \<or> unat page \<notin> frames_used (frame_table s) \<and>
     frames_used (frame_table s') = insert (unat page) (frames_used (frame_table s)))"
proof (rule frame_alloc_cases [OF assms(1) disjI2 [OF assms(2)] assms(3)])
  fix s1
  assume "frames_ok s1" "frame_table_curr_size s < frame_table_size s \<Longrightarrow> s1 = s" "page = 0" "vaddr = 0" "still s1 s'"
  then show ?thesis using frames_ok_still [of s1 s'] still_sos(1) [of s1 s'] by auto
next
  fix s1
  assume "frame_table_curr_size s < frame_table_size s \<Longrightarrow> s1 = s" "frame_filled important page vaddr s1 s'"
  then show ?thesis by (auto simp: frame_filled_def)
qed

text \<open>A table of two free frames, one free untyped and a cspace of one level.\<close>

definition frames_example :: sos where
  "frames_example = sos_example\<lparr>frame_table := [free_entry 0 1, free_entry 0 0], frame_table_size := 2,
     cspace := zero_cspace\<lparr>top_lvl_size_bits := CNODE_SIZE_BITS, top_bf := [3, 0]\<rparr>,
     ut_table := \<lparr>first_paddr = 0, untypeds = 0x600, free_untypeds = [0, 0, 0, 0, 0, 0, 0, 0, 0x600], n_4k_untyped = 1, free_structures = 0\<rparr>\<rparr>"

lemma frames_example_ok: "frames_ok frames_example"
proof -
  have u: "frames_used [free_entry 0 1, free_entry 0 0] = {}" by (auto simp: frames_used_def free_entry_def nth_Cons')
  have "free_list_ok frames_example"
    by (rule free_list_okI [where fs = "[0, 1]"])
      (auto simp: frames_example_def sos_example_def u, auto simp: free_entry_def)
  then show ?thesis by (simp add: frames_ok_def frames_example_def sos_example_def)
qed

lemma world_example_frames: "frames_stable world_example"
  by (simp add: frames_stable_def world_example_def)

theorem frame_alloc_correct_witness:
  "\<exists>s'. frame_alloc_as False world_example frames_example = Some ((0, 0x80000100000), s') \<and> frames_used (frame_table s') = {0} \<and> frames_ok s'"
proof -
  have "\<exists>s'. frame_alloc_as False world_example frames_example = Some ((0, 0x80000100000), s')"
    by (simp add: frame_alloc_as_def frames_example_def sos_example_def alloc_retype_map_def ut_alloc_4k_untyped_def
        pop_untyped_def ut_pop_def get_ut_def SIZE_BITS_TO_INDEX_def alloc_slot_def cspace_eval zero_cspace_def
        cspace_untyped_retype_def kinvoke_def map_frame_def map_frame_impl_def page_num_to_vaddr_def set_frame_def upt_rec)
  then obtain s' where s': "frame_alloc_as False world_example frames_example = Some ((0, 0x80000100000), s')" by blast
  have u: "frames_used (frame_table frames_example) = {}"
    by (auto simp: frames_example_def frames_used_def free_entry_def nth_Cons')
  have "frame_table_curr_size frames_example < frame_table_size frames_example"
    by (simp add: frames_example_def sos_example_def)
  then show ?thesis
    using frame_alloc_correct [OF frames_example_ok world_example_frames s'] s' u by auto
qed

text \<open>
  C23. The search of the clock for a victim always ends: if every entry is of an ordinary frame
  or has a process number up to the maximum, as \<open>frame_alloc\<close> and the page tables set them, then
  the loop returns, with the hand at an entry whose reference bit is clear; no frame is moved,
  and the entries change in nothing but their reference bits.
\<close>

theorem clock_finds_victim:
  assumes "length (frame_table s) = unat (frame_table_size s)" "unat (clock_curr s) < length (frame_table s)"
    "\<forall>e \<in> set (frame_table s). \<not> fte_important e \<or> fte_pid e \<le> int MAX_PROCESSES"
  shows "\<exists>s'. clock_loop s = Some s' \<and>
    (\<exists>e. rd (frame_table s') (unat (clock_curr s')) = Some e \<and> \<not> fte_ref_bit e) \<and>
    map noref (frame_table s') = map noref (frame_table s) \<and> mem s' = mem s"
proof -
  obtain s' where s': "clock_loop s = Some s'" using clock_loop_terminates [OF assms] by blast
  then show ?thesis using clock_loop_effect [OF s'] erase_sel(1,5) by blast
qed

definition referenced :: "frame_table_entry \<Rightarrow> frame_table_entry" where
  "referenced e = e\<lparr>fte_ref_bit := True, fte_important := True\<rparr>"

definition full_example :: sos where
  "full_example = frames_example\<lparr>frame_table := [referenced (free_entry 0 1), referenced (free_entry 0 0)], pf_vnode := 0x3000,
     frame_table_curr_size := 2\<rparr>"

theorem clock_finds_victim_witness:
  "\<exists>s'. clock_loop full_example = Some s' \<and> map noref (frame_table s') = map noref (frame_table full_example)"
proof -
  have t: "frame_table full_example = [referenced (free_entry 0 1), referenced (free_entry 0 0)]"
    "frame_table_size full_example = 2" "clock_curr full_example = 0"
    by (simp_all add: full_example_def frames_example_def sos_example_def)
  have "\<forall>e \<in> set (frame_table full_example). \<not> fte_important e \<or> fte_pid e \<le> int MAX_PROCESSES"
    unfolding t by (simp add: referenced_def free_entry_def)
  then show ?thesis using clock_finds_victim [of full_example] t by auto
qed

text \<open>A frame table in which the frames that \<open>imp\<close> says are important, and no others.\<close>

definition mark_entries :: "(nat \<Rightarrow> bool) \<Rightarrow> frame_table_entry list \<Rightarrow> frame_table_entry list" where
  "mark_entries imp es = map (\<lambda>i. (es ! i)\<lparr>fte_important := imp i\<rparr>) [0..<length es]"

definition mark :: "(nat \<Rightarrow> bool) \<Rightarrow> sos \<Rightarrow> sos" where
  "mark imp s = s\<lparr>frame_table := mark_entries imp (frame_table s)\<rparr>"

lemma length_mark [simp]: "length (mark_entries imp es) = length es"
  by (simp add: mark_entries_def)

lemma nth_mark [simp]: "i < length es \<Longrightarrow> mark_entries imp es ! i = (es ! i)\<lparr>fte_important := imp i\<rparr>"
  by (simp add: mark_entries_def)

lemma mark_update: "mark_entries imp (es[i := e]) = (mark_entries imp es)[i := e\<lparr>fte_important := imp i\<rparr>]"
  by (rule nth_equalityI; simp; case_tac "ia = i") (simp_all add: nth_list_update)

lemma mark_frame [simp]:
  "clock_curr (mark imp s) = clock_curr s" "frame_table_size (mark imp s) = frame_table_size s" "pf_vnode (mark imp s) = pf_vnode s"
  "frame_table (mark imp s) = mark_entries imp (frame_table s)" "frame_table_curr_size (mark imp s) = frame_table_curr_size s"
  by (simp_all add: mark_def)

lemma rd_mark: "rd (mark_entries imp es) i = map_option (\<lambda>e. e\<lparr>fte_important := imp i\<rparr>) (rd es i)"
  by (simp add: rd_def)

lemma clock_step_mark:
  assumes "clock_step e s = Some s'" "fte_pid e \<le> int MAX_PROCESSES"
  shows "clock_step (e\<lparr>fte_important := imp (unat (clock_curr s))\<rparr>) (mark imp s) = Some (mark imp s')"
  using assms
  by (cases s; cases e) (auto simp: clock_step_def set_frame_def bind_eq_Some_conv wr_Some mark_def mark_update kinvoke_def)

lemma clock_loop_mark:
  "clock_loop s = Some s' \<Longrightarrow> \<forall>e \<in> set (frame_table s). fte_pid e \<le> int MAX_PROCESSES \<Longrightarrow>
     clock_loop (mark imp s) = Some (mark imp s')"
proof (induction rule: clock_loop.raw_induct [rotated, consumes 1, case_names step])
  case (step loop s s')
  obtain e where e: "rd (frame_table s) (unat (clock_curr s)) = Some e" using step(2) by (auto simp: bind_eq_Some_conv)
  have pid: "fte_pid e \<le> int MAX_PROCESSES" using e step(3) by (auto simp: rd_Some)
  show ?case
  proof (cases "fte_ref_bit e")
    case True
    then obtain s1 where s1: "clock_step e s = Some s1" "loop s1 = Some s'" using step(2) e by (auto simp: bind_eq_Some_conv)
    have "set (frame_table s1) \<subseteq> insert (e\<lparr>fte_ref_bit := False\<rparr>) (set (frame_table s))"
      using clock_step_effect [OF s1(1) e] pid set_update_subset_insert [of "frame_table s" "unat (clock_curr s)"]
      by (auto split: if_split_asm)
    then have "\<forall>e \<in> set (frame_table s1). fte_pid e \<le> int MAX_PROCESSES" using step(3) pid by auto
    then have "clock_loop (mark imp s1) = Some (mark imp s')" by (rule step(1) [OF s1(2)])
    then show ?thesis using clock_step_mark [OF s1(1) pid] e True by (subst clock_loop.simps) (simp add: rd_mark)
  next
    case False
    then have "s' = s" using step(2) e by simp
    then show ?thesis using e False by (subst clock_loop.simps) (simp add: rd_mark)
  qed
qed

lemma important_victim_aborts:
  assumes "frame_table_curr_size s = frame_table_size s" "clock_loop s = Some s1" "pf_vnode s1 \<noteq> 0"
    "rd (frame_table s1) (unat (clock_curr s1)) = Some e" "fte_important e"
  shows "frame_alloc W s = None \<and> frame_alloc_important W s = None"
proof -
  have "pageout_pte (clock_curr s1) s1 = None"
    using assms(4,5) by (auto simp: pageout_pte_def get_frame_def)
  then have "evict W s = None" using assms(2,3) by (simp add: evict_def pageout_def)
  then show ?thesis using assms(1) by (simp add: frame_alloc_def frame_alloc_important_def frame_alloc_as_def)
qed

text \<open>
  C24. Being important does not save a frame from the clock. In a full table whose process numbers
  are at most the maximum, as all that the code sets are, the search returns, and it stops at the
  same frame whichever frames are important; so if that frame is an important one, the next
  \<open>frame_alloc\<close> or \<open>frame_alloc_important\<close> runs into the assertion of \<open>pageout\<close> and SOS stops. The
  page file has to be open, which the first page-out does.
\<close>

theorem frame_alloc_important_victim:
  assumes "length (frame_table s) = unat (frame_table_size s)" "unat (clock_curr s) < length (frame_table s)"
    "\<forall>e \<in> set (frame_table s). fte_pid e \<le> int MAX_PROCESSES" "frame_table_curr_size s = frame_table_size s" "pf_vnode s \<noteq> 0"
  shows "\<exists>s1. clock_loop s = Some s1 \<and> (\<forall>imp. clock_loop (mark imp s) = Some (mark imp s1) \<and>
    (imp (unat (clock_curr s1)) \<longrightarrow> frame_alloc W (mark imp s) = None \<and> frame_alloc_important W (mark imp s) = None))"
proof -
  obtain s1 where s1: "clock_loop s = Some s1" using clock_loop_terminates [OF assms(1,2)] assms(3) by blast
  obtain e where e: "rd (frame_table s1) (unat (clock_curr s1)) = Some e" and "erase s1 = erase s"
    using clock_loop_effect [OF s1] by blast
  then have pf: "pf_vnode s1 \<noteq> 0" using assms(5) erase_sel by metis
  have "clock_loop (mark imp s) = Some (mark imp s1)" for imp by (rule clock_loop_mark [OF s1 assms(3)])
  moreover have "frame_alloc W (mark imp s) = None \<and> frame_alloc_important W (mark imp s) = None"
    if "imp (unat (clock_curr s1))" for imp
    by (rule important_victim_aborts [OF _ clock_loop_mark [OF s1 assms(3)], where e = "e\<lparr>fte_important := True\<rparr>"])
      (use assms(4) pf e that in \<open>simp_all add: rd_mark\<close>)
  ultimately show ?thesis using s1 by blast
qed

theorem frame_alloc_important_victim_witness:
  "frame_alloc world_example (mark (\<lambda>i. True) full_example) = None \<and> frame_alloc_important world_example (mark (\<lambda>i. True) full_example) = None"
proof -
  have t: "frame_table full_example = [referenced (free_entry 0 1), referenced (free_entry 0 0)]"
    "frame_table_size full_example = 2" "clock_curr full_example = 0" "pf_vnode full_example \<noteq> 0"
    "frame_table_curr_size full_example = 2"
    by (simp_all add: full_example_def frames_example_def sos_example_def)
  have "\<forall>e \<in> set (frame_table full_example). fte_pid e \<le> int MAX_PROCESSES"
    unfolding t by (simp add: referenced_def free_entry_def)
  then show ?thesis using frame_alloc_important_victim [of full_example world_example] t by auto
qed

end
