(* ===== verification/Pagetable.thy ===== *)
theory Pagetable
  imports Frametable
begin

text \<open>
  Page tables and page faults: \<open>sos/src/vm/pagetable.c\<close>, \<open>sos_map_frame\<close> of \<open>sos/src/mapping.c\<close>,
  the mapping of the shared buffers of \<open>sos/src/vm/shared_buf.c\<close> and the creation of address
  spaces of \<open>sos/src/vm/address_space.c\<close>.

  The tables are pages of SOS memory and are read and written there: a page table has the
  address of its top level at offset 0 and the address of its list of kernel objects at offset
  8; a page of that list has its size at 0, the next page at 8 and 16-byte objects from 16 on.
\<close>

section \<open>Definitions\<close>

abbreviation (input) PAGE_OBJECT_SIZE :: word64 where "PAGE_OBJECT_SIZE \<equiv> 253"

definition set_word :: "word64 \<Rightarrow> word64 \<Rightarrow> sos \<Rightarrow> sos" where
  "set_word a v s = s\<lparr>mem := store64 (mem s) a v\<rparr>"

definition upd_frame :: "word64 \<Rightarrow> (frame_table_entry \<Rightarrow> frame_table_entry) \<Rightarrow> sos \<Rightarrow> sos option" where
  "upd_frame page f s = do { e \<leftarrow> get_frame page s; set_frame page (f e) s }"

subsection \<open>Creating page tables\<close>

definition page_table_init :: "world \<Rightarrow> sos \<Rightarrow> (word64 \<times> sos) option" where
  "page_table_init W s = do {
     ((_, page_table), s) \<leftarrow> frame_alloc_important W s;
     ((_, pgd), s) \<leftarrow> frame_alloc_important W s;
     c_assert (page_table \<noteq> 0);
     Some (page_table, set_word page_table pgd s) }"

text \<open>
  One level of \<open>page_table_insert\<close>: the table at the slot \<open>a\<close>, a new one if there is none; 0 if no
  frame is left. \<open>fill\<close> prepares a new table before it is entered. The slot is found by walking
  from the top level, before the frame is allocated and again after it.
\<close>

definition level_get :: "world \<Rightarrow> (word64 \<Rightarrow> sos \<Rightarrow> sos) \<Rightarrow> ((word64 \<Rightarrow> byte) \<Rightarrow> word64) \<Rightarrow> sos \<Rightarrow> (word64 \<times> sos) option" where
  "level_get W fill slot s =
     (let t = load64 (mem s) (slot (mem s))
      in if t \<noteq> 0 then Some (t, s)
         else do {
           ((_, t), s) \<leftarrow> frame_alloc_important W s;
           if t = 0 then Some (0, s)
           else do {
             let s = fill t s;
             Some (t, set_word (slot (mem s)) t s) } })"

definition pud_slot :: "word64 \<Rightarrow> pt_index \<Rightarrow> (word64 \<Rightarrow> byte) \<Rightarrow> word64" where
  "pud_slot pgd ind m = entry_at pgd (l1 ind)"

definition pd_slot :: "word64 \<Rightarrow> pt_index \<Rightarrow> (word64 \<Rightarrow> byte) \<Rightarrow> word64" where
  "pd_slot pgd ind m = entry_at (load64 m (pud_slot pgd ind m)) (l2 ind)"

definition pt_slot :: "word64 \<Rightarrow> pt_index \<Rightarrow> (word64 \<Rightarrow> byte) \<Rightarrow> word64" where
  "pt_slot pgd ind m = entry_at (load64 m (pd_slot pgd ind m)) (l3 ind)"

definition invalidate_all :: "word64 \<Rightarrow> sos \<Rightarrow> sos" where
  "invalidate_all pt s =
     fold (\<lambda>i s. set_word (entry_at pt (word_of_nat i)) (page_update_entry P_INVALID 0) s) [0..<PAGE_INDEX_SIZE] s"

definition page_table_insert :: "world \<Rightarrow> word64 \<Rightarrow> word64 \<Rightarrow> word64 \<Rightarrow> sos \<Rightarrow> (int \<times> sos) option" where
  "page_table_insert W page_table vaddr page_num s = do {
     pgd \<leftarrow> pt_pgd page_table (mem s);
     let ind = get_pt_index vaddr;
     (pud, s) \<leftarrow> level_get W (\<lambda>_ s. s) (pud_slot pgd ind) s;
     if pud = 0 then Some (- 1, s)
     else do {
       (pd, s) \<leftarrow> level_get W (\<lambda>_ s. s) (pd_slot pgd ind) s;
       if pd = 0 then Some (- 1, s)
       else do {
         (pt, s) \<leftarrow> level_get W invalidate_all (pt_slot pgd ind) s;
         if pt = 0 then Some (- 1, s)
         else Some (0, set_word (entry_at pt (l4 ind)) page_num s) } } }"

subsection \<open>The list of kernel objects\<close>

partial_function (option) last_objects :: "word64 \<Rightarrow> sos \<Rightarrow> word64 option" where
  "last_objects frame s =
     (if load64 (mem s) (frame + 8) = 0 then Some frame else last_objects (load64 (mem s) (frame + 8)) s)"

declare last_objects.simps [code]

text \<open>The page of the list with room, 0 where the C code goes on with an uninitialised pointer.\<close>

definition objects_frame :: "world \<Rightarrow> word64 \<Rightarrow> sos \<Rightarrow> (word64 \<times> sos) option" where
  "objects_frame W page_table s =
     (if load64 (mem s) (page_table + 8) = 0 then do {
        ((_, frame), s) \<leftarrow> frame_alloc_important W s;
        let s = set_word (page_table + 8) frame s;
        Some (if frame = 0 then (0, s) else (frame, set_word (frame + 8) 0 (set_word frame 0 s))) }
      else do {
        frame \<leftarrow> last_objects (load64 (mem s) (page_table + 8)) s;
        if load64 (mem s) frame = PAGE_OBJECT_SIZE then do {
          ((_, next), s) \<leftarrow> frame_alloc_important W s;
          let s = set_word (frame + 8) next s;
          Some (if next = 0 then (frame, s) else (next, set_word (next + 8) 0 (set_word next 0 s))) }
        else Some (frame, s) })"

definition save_seL4_info :: "world \<Rightarrow> word64 \<Rightarrow> word64 \<Rightarrow> cptr \<Rightarrow> sos \<Rightarrow> sos option" where
  "save_seL4_info W page_table ut slot s = do {
     c_assert (page_table \<noteq> 0);
     (frame, s) \<leftarrow> objects_frame W page_table s;
     c_assert (frame \<noteq> 0);
     let ind = load64 (mem s) frame;
     let s = set_word frame (ind + 1) s;
     c_assert (ind < PAGE_OBJECT_SIZE);
     Some (set_word (frame + 16 + 16 * ind + 8) slot (set_word (frame + 16 + 16 * ind) ut s)) }"

subsection \<open>Mapping into a process\<close>

primrec sos_map_loop ::
  "world \<Rightarrow> word64 \<Rightarrow> cptr \<Rightarrow> cptr \<Rightarrow> word64 \<Rightarrow> int \<Rightarrow> int \<Rightarrow> nat \<Rightarrow> int \<Rightarrow> sos \<Rightarrow> ((bool \<times> int) \<times> sos) option" where
  "sos_map_loop W page_table frame_cap vspace vaddr rights attr 0 err s = Some ((True, err), s)"
| "sos_map_loop W page_table frame_cap vspace vaddr rights attr (Suc n) err s =
     (if err \<noteq> seL4_FailedLookup then Some ((True, err), s)
      else do {
        let (failed, s) = kinvoke MappingFailedLookupLevel s;
        (ut, _, s) \<leftarrow> ut_alloc_4k_untyped s;
        if ut = 0 then Some ((False, - 1), s)
        else do {
          (slot, s) \<leftarrow> alloc_slot s;
          if slot = seL4_CapNull then Some ((False, - 1), s)
          else do {
            u \<leftarrow> get_ut s ut;
            let (err, s) = map_level failed (cspace s) vspace vaddr (ut_cap u) slot err s;
            s \<leftarrow> save_seL4_info W page_table ut slot s;
            let (err, s) =
              (if err = 0 then kinvoke (ARM_Page_Map frame_cap vspace vaddr rights attr) s else (err, s));
            sos_map_loop W page_table frame_cap vspace vaddr rights attr n err s } } })"

definition sos_map_frame ::
  "world \<Rightarrow> word64 \<Rightarrow> cptr \<Rightarrow> cptr \<Rightarrow> word64 \<Rightarrow> int \<Rightarrow> int \<Rightarrow> word64 \<Rightarrow> bool \<Rightarrow> sos \<Rightarrow> (int \<times> sos) option" where
  "sos_map_frame W page_table frame_cap vspace vaddr rights attr page is_sos_addr s = do {
     let (err, s) = kinvoke (ARM_Page_Map frame_cap vspace vaddr rights attr) s;
     ((go, err), s) \<leftarrow> sos_map_loop W page_table frame_cap vspace vaddr rights attr MAPPING_SLOTS err s;
     if go \<and> is_sos_addr then page_table_insert W page_table vaddr page s else Some (err, s) }"

subsection \<open>Destroying a page table\<close>

text \<open>The entry \<open>l\<close> of a last-level table.\<close>

definition destroy_entry :: "word64 \<Rightarrow> nat \<Rightarrow> sos \<Rightarrow> sos option" where
  "destroy_entry pt l s =
     (let pte = load64 (mem s) (entry_at pt (word_of_nat l)); entry = page_entry_number pte; bits = page_get_bits pte
      in if P_INVALID AND bits \<noteq> 0 then Some s
         else if P_PAGEFILE AND bits \<noteq> 0 then do { (_, s) \<leftarrow> pagefile_remove entry s; Some s }
         else frame_free entry s)"

text \<open>A table of a level: \<open>sub\<close> for each of its entries that is not null, then the table's own frame.\<close>

definition destroy_level :: "(word64 \<Rightarrow> sos \<Rightarrow> sos option) \<Rightarrow> word64 \<Rightarrow> sos \<Rightarrow> sos option" where
  "destroy_level sub t s =
     for_each (\<lambda>i s.
       let e = load64 (mem s) (entry_at t (word_of_nat i))
       in if e = 0 then Some s
          else do {
            s \<leftarrow> sub e s;
            frame_free (vaddr_to_page_num (load64 (mem s) (entry_at t (word_of_nat i))) s) s })
     [0..<PAGE_INDEX_SIZE] s"

definition destroy_pt :: "word64 \<Rightarrow> sos \<Rightarrow> sos option" where
  "destroy_pt pt s = for_each (destroy_entry pt) [0..<PAGE_INDEX_SIZE] s"

definition destroy_object :: "word64 \<Rightarrow> nat \<Rightarrow> sos \<Rightarrow> sos option" where
  "destroy_object frame i s = do {
     c_assert (i < unat PAGE_OBJECT_SIZE);
     let ut = load64 (mem s) (frame + 16 + 16 * word_of_nat i);
     let cap = load64 (mem s) (frame + 16 + 16 * word_of_nat i + 8);
     s \<leftarrow> ut_free ut PAGE_BITS_4K s;
     let (_, s) = cspace_delete (cspace s) cap s;
     free_slot cap s }"

partial_function (option) destroy_objects :: "word64 \<Rightarrow> sos \<Rightarrow> sos option" where
  "destroy_objects frame s =
     (if frame = 0 then Some s
      else do {
        s \<leftarrow> for_each (destroy_object frame) [0..<unat (load64 (mem s) frame)] s;
        let next = load64 (mem s) (frame + 8);
        s \<leftarrow> frame_free (vaddr_to_page_num frame s) s;
        destroy_objects next s })"

declare destroy_objects.simps [code]

definition page_table_destroy :: "word64 \<Rightarrow> sos \<Rightarrow> sos option" where
  "page_table_destroy page_table s = do {
     pgd \<leftarrow> pt_pgd page_table (mem s);
     s \<leftarrow> destroy_level (destroy_level (destroy_level destroy_pt)) pgd s;
     s \<leftarrow> destroy_objects (load64 (mem s) (page_table + 8)) s;
     s \<leftarrow> frame_free (vaddr_to_page_num pgd s) s;
     frame_free (vaddr_to_page_num page_table s) s }"

subsection \<open>The size of a process\<close>

text \<open>The number of entries of a level: \<open>sub\<close> of each entry that is not null.\<close>

definition count_level :: "(word64 \<Rightarrow> int) \<Rightarrow> (word64 \<Rightarrow> byte) \<Rightarrow> word64 \<Rightarrow> int" where
  "count_level sub m t =
     sum_list (map (\<lambda>i. let e = load64 m (entry_at t (word_of_nat i)) in if e \<noteq> 0 then sub e else 0) [0..<PAGE_INDEX_SIZE])"

definition count_pt :: "word64 \<Rightarrow> int" where
  "count_pt pt = sum_list (map (\<lambda>l. if entry_at pt (word_of_nat l) \<noteq> 0 then 1 else 0) [0..<PAGE_INDEX_SIZE])"

definition get_proc_size :: "proc \<Rightarrow> sos \<Rightarrow> int option" where
  "get_proc_size v s = do {
     as \<leftarrow> p_as v;
     pgd \<leftarrow> pt_pgd (as_pt as) (mem s);
     Some (count_level (count_level (count_level count_pt (mem s)) (mem s)) (mem s) pgd) }"

subsection \<open>Shared buffers\<close>

primrec alloc_buffers :: "nat \<Rightarrow> world \<Rightarrow> word64 \<Rightarrow> sos \<Rightarrow> (word64 \<times> sos) option" where
  "alloc_buffers 0 W vaddr s = Some (vaddr, s)"
| "alloc_buffers (Suc n) W vaddr s = do {
     ((_, vaddr), s) \<leftarrow> frame_alloc_important W s;
     alloc_buffers n W vaddr s }"

definition shared_buf_init :: "world \<Rightarrow> sos \<Rightarrow> sos option" where
  "shared_buf_init W s = do {
     ((_, first_frame), s) \<leftarrow> frame_alloc_important W s;
     (vaddr, s) \<leftarrow> alloc_buffers (SHARE_BUF_SIZE * MAX_PROCESSES - 1) W 0 s;
     c_assert (first_frame \<noteq> 0);
     c_assert (vaddr \<noteq> 0);
     Some (s\<lparr>shared_buf_begin := first_frame\<rparr>) }"

definition map_buf_page :: "world \<Rightarrow> pid_t \<Rightarrow> word64 \<Rightarrow> region \<Rightarrow> nat \<Rightarrow> sos \<Rightarrow> sos option" where
  "map_buf_page W pid p reg i s = do {
     let page = vaddr_to_page_num (get_buf_from_pid pid s + word_of_nat i * PAGE_SIZE_4K) s;
     fte \<leftarrow> get_frame page s;
     (slot, s) \<leftarrow> alloc_slot s;
     let (_, s) = cspace_copy (cspace s) slot (cspace s) (fte_cap fte) seL4_AllRights s;
     v \<leftarrow> get_proc s p;
     as \<leftarrow> p_as v;
     (_, s) \<leftarrow> sos_map_frame W (as_pt as) slot (p_vspace v) (vbase reg + word_of_nat i * PAGE_SIZE_4K) seL4_AllRights
                seL4_ARM_Default_VMAttributes page False s;
     upd_frame page (\<lambda>e. e\<lparr>fte_user_cap := slot\<rparr>) s }"

definition sos_map_buf :: "world \<Rightarrow> pid_t \<Rightarrow> sos \<Rightarrow> sos option" where
  "sos_map_buf W pid s = do {
     p \<leftarrow> proc_get pid s;
     s \<leftarrow> upd_proc p (\<lambda>v. v\<lparr>p_shared_buf := get_buf_from_pid pid s\<rparr>) s;
     v \<leftarrow> get_proc s p;
     as \<leftarrow> p_as v;
     reg \<leftarrow> as_seek_region as PROCESS_SHARED_BUF_TOP;
     for_each (map_buf_page W pid p reg) [0..<SHARE_BUF_SIZE] s }"

definition unmap_buf_page :: "pid_t \<Rightarrow> nat \<Rightarrow> sos \<Rightarrow> sos option" where
  "unmap_buf_page pid i s = do {
     let page = vaddr_to_page_num (get_buf_from_pid pid s + word_of_nat i * PAGE_SIZE_4K) s;
     fte \<leftarrow> get_frame page s;
     let (err, s) = kinvoke (ARM_Page_Unmap (fte_user_cap fte)) s;
     let user_cap = (word_of_int err :: word64);
     let (_, s) = cspace_delete (cspace s) user_cap s;
     s \<leftarrow> free_slot user_cap s;
     upd_frame page (\<lambda>e. e\<lparr>fte_user_cap := seL4_CapNull\<rparr>) s }"

definition sos_unmap_buf :: "pid_t \<Rightarrow> sos \<Rightarrow> sos option" where
  "sos_unmap_buf pid s = do {
     p \<leftarrow> proc_get pid s;
     s \<leftarrow> upd_proc p (\<lambda>v. v\<lparr>p_shared_buf := 0\<rparr>) s;
     s \<leftarrow> for_each (unmap_buf_page pid) [0..<SHARE_BUF_SIZE] s;
     Some (zero_buf pid s) }"

subsection \<open>Address spaces\<close>

text \<open>The fields that \<open>as_create\<close> leaves unset are set before they are read.\<close>

definition as_create :: "world \<Rightarrow> sos \<Rightarrow> (addrspace option \<times> sos) option" where
  "as_create W s = do {
     let (p, s) = malloc 40 s;
     if p = 0 then Some (None, s)
     else do {
       (pt, s) \<leftarrow> page_table_init W s;
       Some (Some \<lparr>as_regions = [], as_stack = None, as_heap = None, as_buffer = None, as_pt = pt\<rparr>, s) } }"

subsection \<open>Page faults\<close>

text \<open>A page whose reference bit the clock cleared is mapped again.\<close>

definition fault_remap :: "word64 \<Rightarrow> pid_t \<Rightarrow> word64 \<Rightarrow> word64 \<Rightarrow> sos \<Rightarrow> sos option" where
  "fault_remap p pid vaddr entry s = do {
     e \<leftarrow> get_frame entry s;
     c_assert (\<not> fte_ref_bit e);
     s \<leftarrow> upd_frame entry (\<lambda>e. e\<lparr>fte_pid := pid\<rparr>) s;
     c_assert (pid \<noteq> 0);
     v \<leftarrow> get_proc s p;
     let (_, s) = kinvoke (ARM_Page_Map (fte_user_cap e) (p_vspace v) vaddr seL4_AllRights seL4_ARM_Default_VMAttributes) s;
     upd_frame entry (\<lambda>e. e\<lparr>fte_ref_bit := True\<rparr>) s }"

text \<open>
  A new frame for the page, mapped into the process with a copy of its capability: the page
  number, its address in SOS and the copy. The page number is used even if the allocation
  failed and reported page 0.
\<close>

definition fault_frame :: "world \<Rightarrow> word64 \<Rightarrow> addrspace \<Rightarrow> word64 \<Rightarrow> sos \<Rightarrow> ((word64 \<times> word64 \<times> cptr) \<times> sos) option" where
  "fault_frame W p as vaddr s = do {
     ((page, kvaddr), s) \<leftarrow> frame_alloc W s;
     e \<leftarrow> get_frame page s;
     (slot, s) \<leftarrow> alloc_slot s;
     let (_, s) = cspace_copy (cspace s) slot (cspace s) (fte_cap e) seL4_AllRights s;
     v \<leftarrow> get_proc s p;
     (_, s) \<leftarrow> sos_map_frame W (as_pt as) slot (p_vspace v) vaddr seL4_AllRights seL4_ARM_Default_VMAttributes page True s;
     Some ((page, kvaddr, slot), s) }"

definition fault_pagein :: "world \<Rightarrow> word64 \<Rightarrow> pid_t \<Rightarrow> addrspace \<Rightarrow> word64 \<Rightarrow> word64 \<Rightarrow> sos \<Rightarrow> sos option" where
  "fault_pagein W p pid as vaddr entry s = do {
     ((page, kvaddr, slot), s) \<leftarrow> fault_frame W p as vaddr s;
     (_, s) \<leftarrow> pagein W entry kvaddr s;
     let (_, s) = sos_copyin pid (shared_buf_begin s) PAGE_SIZE_4K s;
     upd_frame page (\<lambda>e. e\<lparr>fte_user_cap := slot, fte_pid := pid, fte_user_vaddr := vaddr\<rparr>) s }"

definition fault_fresh :: "world \<Rightarrow> word64 \<Rightarrow> pid_t \<Rightarrow> addrspace \<Rightarrow> word64 \<Rightarrow> sos \<Rightarrow> sos option" where
  "fault_fresh W p pid as vaddr s = do {
     ((page, kvaddr, slot), s) \<leftarrow> fault_frame W p as vaddr s;
     upd_frame page (\<lambda>e. e\<lparr>fte_pid := pid, fte_user_vaddr := vaddr, fte_user_cap := slot\<rparr>) s }"

definition fault_map :: "world \<Rightarrow> word64 \<Rightarrow> pid_t \<Rightarrow> addrspace \<Rightarrow> word64 \<Rightarrow> sos \<Rightarrow> sos option" where
  "fault_map W p pid as vaddr s = do {
     pte \<leftarrow> page_lookup (as_pt as) vaddr (mem s);
     let bits = (if pte = 0 then P_INVALID else page_get_bits (load64 (mem s) pte));
     let entry = page_entry_number (load64 (mem s) pte);
     if bits = 0 then fault_remap p pid vaddr entry s
     else if bits AND P_PAGEFILE \<noteq> 0 then fault_pagein W p pid as vaddr entry s
     else fault_fresh W p pid as vaddr s }"

definition vm_fault :: "world \<Rightarrow> pid_t \<Rightarrow> sos \<Rightarrow> sos option" where
  "vm_fault W pid s = do {
     p \<leftarrow> proc_get pid s;
     v \<leftarrow> get_proc s p;
     let faultaddress = GetMR 1 s;
     as \<leftarrow> p_as v;
     (reply, s) \<leftarrow> alloc_slot s;
     let (_, s) = cspace_save_reply_cap (cspace s) reply s;
     reg \<leftarrow> as_seek_region as faultaddress;
     c_assert (and (accmode reg) READ \<noteq> 0 \<or> and (accmode reg) WRITE \<noteq> 0);
     s \<leftarrow> fault_map W p pid as (PAGE_ALIGN_4K faultaddress) s;
     let s = SetMR 0 0 s;
     let (_, s) = kinvoke (Send_Reply reply 1) s;
     free_slot reply s }"

end
