(* ===== verification/Pagemap.thy ===== *)
theory Pagemap
  imports Pagetable
begin

text \<open>
  A page table is a map from pages to entries. The tables of a process form a tree of pages,
  each reached by one list of indices; \<open>page_table_insert\<close> adds the missing tables and changes
  exactly one entry of the map, as long as it does not have to page anything out.
\<close>

section \<open>The tree of tables\<close>

fun node :: "(word64 \<Rightarrow> byte) \<Rightarrow> word64 \<Rightarrow> word16 list \<Rightarrow> word64" where
  "node m t [] = t"
| "node m t (i # is) = (if t = 0 then 0 else node m (load64 m (entry_at t i)) is)"

definition index_ok :: "word16 \<Rightarrow> bool" where
  "index_ok i \<longleftrightarrow> unat i < PAGE_INDEX_SIZE"

definition path_ok :: "word16 list \<Rightarrow> bool" where
  "path_ok p \<longleftrightarrow> length p \<le> 3 \<and> (\<forall>i \<in> set p. index_ok i)"

definition tree :: "(word64 \<Rightarrow> byte) \<Rightarrow> word64 \<Rightarrow> bool" where
  "tree m pgd \<longleftrightarrow> pgd \<noteq> 0 \<and> (\<forall>p. path_ok p \<longrightarrow> aligned 12 (node m pgd p)) \<and>
     (\<forall>p q. path_ok p \<longrightarrow> path_ok q \<longrightarrow> node m pgd p \<noteq> 0 \<longrightarrow> node m pgd p = node m pgd q \<longrightarrow> p = q)"

definition tables :: "(word64 \<Rightarrow> byte) \<Rightarrow> word64 \<Rightarrow> word64 set" where
  "tables m pgd = {node m pgd p | p. path_ok p \<and> node m pgd p \<noteq> 0}"

lemma node_0 [simp]: "node m 0 p = 0"
  by (cases p) simp_all

lemma node_snoc: "node m t (p @ [i]) = (if node m t p = 0 then 0 else load64 m (entry_at (node m t p) i))"
  by (induction p arbitrary: t) simp_all

lemma path_ok_snoc [simp]: "path_ok (p @ [i]) \<longleftrightarrow> length p < 3 \<and> path_ok p \<and> index_ok i"
  by (auto simp: path_ok_def)

lemma treeD:
  assumes "tree m pgd"
  shows "pgd \<noteq> 0" "path_ok p \<Longrightarrow> aligned 12 (node m pgd p)"
    "path_ok p \<Longrightarrow> path_ok q \<Longrightarrow> node m pgd p \<noteq> 0 \<Longrightarrow> node m pgd p = node m pgd q \<Longrightarrow> p = q"
  using assms unfolding tree_def by blast+

section \<open>Entries of pages\<close>

lemma entry_offset: "index_ok i \<Longrightarrow> unat (8 * ucast i :: word64) = 8 * unat i"
proof -
  assume i: "index_ok i"
  have u: "unat (ucast i :: word64) = unat i"
    using i by (simp add: unsigned_ucast_eq index_ok_def take_bit_nat_eq_self)
  show ?thesis using i by (subst unat_mult64) (simp_all add: u index_ok_def)
qed

lemma entry_aligned: "aligned 12 t \<Longrightarrow> aligned 3 (entry_at t i)"
  unfolding entry_at_def
  by (rule aligned_add) (auto simp: aligned_def unat_word_ariths dvd_mod dest: aligned_weaken [of 12 t 3])

text \<open>The bytes of an entry of one page are outside every other page.\<close>

lemma entry_other_page:
  assumes "aligned 12 t" "aligned 12 u" "t \<noteq> u" "index_ok i" "k < 8"
  shows "\<not> entry_at t i + word_of_nat k - u < 4096"
proof -
  have k: "unat (word_of_nat k :: word64) = k" using assms(5) by (simp add: unat_of_nat64)
  have o: "unat (8 * ucast i + word_of_nat k :: word64) = 8 * unat i + k"
    using entry_offset [OF assms(4)] assms(4,5) k by (subst unat_add64) (simp_all add: index_ok_def)
  have "2 ^ 12 \<le> unat (t + (8 * ucast i + word_of_nat k) - u)"
    by (rule aligned_offset_disjoint [OF assms(1-3)]) (use o assms(4,5) in \<open>simp_all add: index_ok_def\<close>)
  then show ?thesis by (simp add: entry_at_def word_less_nat_alt add.assoc)
qed

lemma entry_inj:
  assumes "aligned 12 t" "aligned 12 u" "index_ok i" "index_ok j" "entry_at t i = entry_at u j"
  shows "t = u \<and> i = j"
proof -
  have "t = u"
  proof (rule ccontr)
    assume "t \<noteq> u"
    then have "\<not> entry_at t i + word_of_nat 0 - u < 4096" using assms by (intro entry_other_page) simp_all
    moreover have "entry_at u j - u < 4096"
      using entry_offset [OF assms(4)] assms(4) by (simp add: entry_at_def word_less_nat_alt index_ok_def)
    ultimately show False using assms(5) by simp
  qed
  then have "8 * ucast i = (8 * ucast j :: word64)" using assms(5) by (simp add: entry_at_def)
  then have "8 * unat i = 8 * unat j" using entry_offset assms(3,4) by metis
  then show ?thesis using \<open>t = u\<close> by (simp add: word_unat_eq_iff)
qed

lemma load_entry_outside:
  assumes "aligned 12 t" "aligned 12 u" "t \<noteq> u" "index_ok i" "\<And>x. \<not> x - u < 4096 \<Longrightarrow> m' x = m x"
  shows "load64 m' (entry_at t i) = load64 m (entry_at t i)"
  by (rule load64_cong) (use entry_other_page [OF assms(1-4)] assms(5) in simp)

text \<open>The bytes of an entry are inside its page.\<close>

lemma entry_inside: "index_ok i \<Longrightarrow> x - entry_at t i < 8 \<Longrightarrow> x - t < 4096"
proof -
  assume i: "index_ok i" and x: "x - entry_at t i < 8"
  have e: "x - t = (x - entry_at t i) + 8 * ucast i" by (simp add: entry_at_def)
  have "unat (x - entry_at t i) < 8" using x by (simp add: word_less_nat_alt)
  then have "unat (x - t) = unat (x - entry_at t i) + 8 * unat i"
    unfolding e using entry_offset [OF i] i by (subst unat_add64) (simp_all add: index_ok_def)
  then show ?thesis using \<open>unat (x - entry_at t i) < 8\<close> i by (simp add: word_less_nat_alt index_ok_def)
qed

section \<open>Adding a table\<close>

text \<open>
  \<open>m'\<close> is \<open>m\<close> after a new page \<open>t\<close> was filled and entered as entry \<open>i\<close> of the table at path \<open>p\<close>.
\<close>

definition table_added ::
  "(word64 \<Rightarrow> byte) \<Rightarrow> (word64 \<Rightarrow> byte) \<Rightarrow> word64 \<Rightarrow> word64 \<Rightarrow> word16 list \<Rightarrow> word16 \<Rightarrow> bool" where
  "table_added m m' pgd t p i \<longleftrightarrow> tree m pgd \<and>
     path_ok p \<and> length p < 3 \<and> index_ok i \<and> node m pgd p \<noteq> 0 \<and> node m pgd (p @ [i]) = 0 \<and>
     t \<noteq> 0 \<and> aligned 12 t \<and> t \<notin> tables m pgd \<and>
     load64 m' (entry_at (node m pgd p) i) = t \<and>
     (\<forall>u j. aligned 12 u \<longrightarrow> index_ok j \<longrightarrow> u \<noteq> t \<longrightarrow> entry_at u j \<noteq> entry_at (node m pgd p) i \<longrightarrow>
        load64 m' (entry_at u j) = load64 m (entry_at u j)) \<and>
     (\<forall>j. length p < 2 \<longrightarrow> index_ok j \<longrightarrow> load64 m' (entry_at t j) = 0)"

lemma table_addedD:
  assumes "table_added m m' pgd t p i"
  shows "tree m pgd" "path_ok p" "length p < 3" "index_ok i" "node m pgd p \<noteq> 0" "node m pgd (p @ [i]) = 0"
    "t \<noteq> 0" "aligned 12 t" "t \<notin> tables m pgd" "load64 m' (entry_at (node m pgd p) i) = t"
    "\<And>u j. aligned 12 u \<Longrightarrow> index_ok j \<Longrightarrow> u \<noteq> t \<Longrightarrow> entry_at u j \<noteq> entry_at (node m pgd p) i \<Longrightarrow>
      load64 m' (entry_at u j) = load64 m (entry_at u j)"
    "\<And>j. length p < 2 \<Longrightarrow> index_ok j \<Longrightarrow> load64 m' (entry_at t j) = 0"
  using assms unfolding table_added_def by blast+

lemma node_new:
  assumes "table_added m m' pgd t p i"
  shows "path_ok q \<Longrightarrow> node m' pgd q =
    (if q = p @ [i] then t else if take (length p + 1) q = p @ [i] then 0 else node m pgd q)"
proof (induction q rule: rev_induct)
  note tree = table_addedD(1) [OF assms] and path = table_addedD(2-6) [OF assms] and fresh = table_addedD(7-9) [OF assms]
    and slot = table_addedD(10) [OF assms] and others = table_addedD(11) [OF assms] and zero = table_addedD(12) [OF assms]
  case (snoc j q)
  let ?e = "entry_at (node m pgd p) i"
  have q: "path_ok q" "length q < 3" "index_ok j" using snoc.prems by simp_all
  note IH = snoc.IH [OF q(1)]
  consider "q = p @ [i]" | "take (length p + 1) q = p @ [i]" "q \<noteq> p @ [i]" | "q = p" | "take (length p + 1) q \<noteq> p @ [i]" "q \<noteq> p"
    by blast
  then show ?case
  proof cases
    case 1
    then have nq: "node m' pgd q = t" and z: "load64 m' (entry_at t j) = 0" using IH q zero [of j] by simp_all
    have "node m' pgd (q @ [j]) = 0" unfolding node_snoc nq using z by simp
    then show ?thesis using 1 by simp
  next
    case 2
    then have "length p + 1 \<le> length q" by (metis length_append_singleton length_take min.absorb_iff2 Suc_eq_plus1 min.commute)
    then show ?thesis using 2 IH by (auto simp: node_snoc dest: arg_cong [where f = length])
  next
    case 3
    then have n: "node m' pgd q = node m pgd p" using IH by simp
    show ?thesis
    proof (cases "j = i")
      case True
      then show ?thesis using 3 n slot path(4) by (simp add: node_snoc)
    next
      case False
      have "entry_at (node m pgd p) j \<noteq> ?e"
        using entry_inj treeD(2) [OF tree path(1)] q(3) path(3) False by blast
      then have "load64 m' (entry_at (node m pgd p) j) = load64 m (entry_at (node m pgd p) j)"
        using others treeD(2) [OF tree path(1)] q(3) fresh(3) path(1,4) by (force simp: tables_def)
      then show ?thesis using 3 n False by (simp add: node_snoc)
    qed
  next
    case 4
    then have n: "node m' pgd q = node m pgd q" using IH by (metis length_append_singleton Suc_eq_plus1 order_refl take_all)
    have tk: "take (length p + 1) (q @ [j]) \<noteq> p @ [i]" using 4 by (cases "length q < length p + 1") auto
    have "node m pgd q = 0 \<or> load64 m' (entry_at (node m pgd q) j) = load64 m (entry_at (node m pgd q) j)"
    proof (cases "node m pgd q = 0")
      case False
      have "node m pgd q \<noteq> node m pgd p" using treeD(3) [OF tree q(1) path(1) False] 4 by blast
      then have "entry_at (node m pgd q) j \<noteq> ?e"
        using entry_inj treeD(2) [OF tree path(1)] treeD(2) [OF tree q(1)] q(3) path(3) by blast
      then show ?thesis using others treeD(2) [OF tree q(1)] q fresh(3) False by (force simp: tables_def)
    qed simp
    then show ?thesis using n tk by (auto simp: node_snoc)
  qed
qed (use treeD(1) table_addedD(1) [OF assms] in simp)

lemma tree_added:
  assumes a: "table_added m m' pgd t p i"
  shows "tree m' pgd" "tables m' pgd \<subseteq> insert t (tables m pgd)"
proof -
  note n = node_new [OF a]
  have old: "node m' pgd q = t \<or> node m' pgd q = 0 \<or> node m' pgd q = node m pgd q" if "path_ok q" for q
    using n [OF that] by auto
  show "tables m' pgd \<subseteq> insert t (tables m pgd)"
    using old by (force simp: tables_def)
  have fresh: "path_ok q \<Longrightarrow> node m pgd q \<noteq> t" for q
    using table_addedD(7,9) [OF a] by (auto simp: tables_def)
  have "q = r" if q: "path_ok q" "path_ok r" "node m' pgd q \<noteq> 0" "node m' pgd q = node m' pgd r" for q r
  proof -
    have "(q = p @ [i]) = (r = p @ [i])"
      using q n [OF q(1)] n [OF q(2)] fresh [OF q(1)] fresh [OF q(2)] by (auto split: if_split_asm)
    then show ?thesis
      using q n [OF q(1)] n [OF q(2)] treeD(3) [OF table_addedD(1) [OF a] q(1,2)] by (auto split: if_split_asm)
  qed
  moreover have "aligned 12 (node m' pgd q)" if "path_ok q" for q
    using old [OF that] treeD(2) [OF table_addedD(1) [OF a] that] table_addedD(8) [OF a] by auto
  ultimately show "tree m' pgd"
    unfolding tree_def using treeD(1) [OF table_addedD(1) [OF a]] by blast
qed

text \<open>Changing an entry of a last-level table leaves the tables alone.\<close>

lemma node_leaf:
  assumes tr: "tree m pgd" and p: "path_ok p" "length p = 3" "node m pgd p \<noteq> 0" "index_ok i"
  shows "path_ok q \<Longrightarrow> node (store64 m (entry_at (node m pgd p) i) v) pgd q = node m pgd q"
proof (induction q rule: rev_induct)
  case (snoc j q)
  have q: "path_ok q" "length q < 3" "index_ok j" using snoc.prems by simp_all
  let ?m = "store64 m (entry_at (node m pgd p) i) v"
  have "load64 ?m (entry_at (node m pgd q) j) = load64 m (entry_at (node m pgd q) j)"
  proof (rule load64_store64_other)
    show "aligned 3 (entry_at (node m pgd p) i)" "aligned 3 (entry_at (node m pgd q) j)"
      using entry_aligned treeD(2) [OF tr] p(1) q(1) by blast+
    have "q \<noteq> p" using q(2) p(2) by auto
    then have "node m pgd p \<noteq> node m pgd q" using treeD(3) [OF tr p(1) q(1) p(3)] by blast
    then show "entry_at (node m pgd p) i \<noteq> entry_at (node m pgd q) j"
      using entry_inj treeD(2) [OF tr p(1)] treeD(2) [OF tr q(1)] p(4) q(3) by blast
  qed
  then show ?case using snoc.IH [OF q(1)] by (simp add: node_snoc)
qed simp

lemma tree_leaf:
  assumes "tree m pgd" "path_ok p" "length p = 3" "node m pgd p \<noteq> 0" "index_ok i"
  shows "tree (store64 m (entry_at (node m pgd p) i) v) pgd"
    "tables (store64 m (entry_at (node m pgd p) i) v) pgd = tables m pgd"
proof -
  note n = node_leaf [OF assms]
  show "tree (store64 m (entry_at (node m pgd p) i) v) pgd"
    using assms(1) unfolding tree_def by (auto simp: n)
  show "tables (store64 m (entry_at (node m pgd p) i) v) pgd = tables m pgd"
    unfolding tables_def using n by (auto intro: exI) (metis n)+
qed

section \<open>The map of a page table\<close>

definition pt_path :: "word64 \<Rightarrow> word16 list" where
  "pt_path v = [l1 (get_pt_index v), l2 (get_pt_index v), l3 (get_pt_index v)]"

text \<open>The entry of the page of \<open>v\<close>; where a table is missing it counts as invalid, as \<open>vm_fault\<close> does.\<close>

definition pte_of :: "(word64 \<Rightarrow> byte) \<Rightarrow> word64 \<Rightarrow> word64 \<Rightarrow> word64" where
  "pte_of m page_table v =
     (case page_lookup page_table v m of
        Some a \<Rightarrow> if a = 0 then page_update_entry P_INVALID 0 else load64 m a
      | None \<Rightarrow> 0)"

definition same_page :: "word64 \<Rightarrow> word64 \<Rightarrow> bool" where
  "same_page v w \<longleftrightarrow> pt_path v = pt_path w \<and> l4 (get_pt_index v) = l4 (get_pt_index w)"

lemma pt_index_ok [simp]:
  "index_ok (l1 (get_pt_index v))" "index_ok (l2 (get_pt_index v))" "index_ok (l3 (get_pt_index v))" "index_ok (l4 (get_pt_index v))"
  using pt_index_bounds [of v] by (simp_all add: index_ok_def)

lemma pt_path_ok [simp]: "path_ok (pt_path v)" "length (pt_path v) = 3"
  by (simp_all add: path_ok_def pt_path_def)

lemma entry_nonzero: "aligned 12 t \<Longrightarrow> t \<noteq> 0 \<Longrightarrow> index_ok i \<Longrightarrow> entry_at t i \<noteq> 0"
proof
  assume a: "aligned 12 t" "t \<noteq> 0" "index_ok i" "entry_at t i = 0"
  have "\<not> entry_at t i + word_of_nat 0 - 0 < 4096" by (rule entry_other_page) (use a in simp_all)
  then show False using a(4) by simp
qed

lemma page_lookup_node:
  assumes "page_table \<noteq> 0" "load64 m page_table \<noteq> 0"
  shows "page_lookup page_table v m =
    (let t = node m (load64 m page_table) (pt_path v) in if t = 0 then Some 0 else Some (entry_at t (l4 (get_pt_index v))))"
  using assms by (simp add: page_lookup_def pt_pgd_def pt_path_def Let_def)

lemma pte_of_node:
  assumes "page_table \<noteq> 0" "tree m (load64 m page_table)"
  shows "pte_of m page_table v =
    (let t = node m (load64 m page_table) (pt_path v)
     in if t = 0 then page_update_entry P_INVALID 0 else load64 m (entry_at t (l4 (get_pt_index v))))"
  using page_lookup_node [OF assms(1) treeD(1) [OF assms(2)], of v] treeD(2) [OF assms(2), of "pt_path v"]
  by (simp add: pte_of_def Let_def entry_nonzero)

section \<open>Page tables in the frames of SOS\<close>

definition frames_fit :: "sos \<Rightarrow> bool" where
  "frames_fit s \<longleftrightarrow> aligned 12 (base_vaddr s) \<and> base_vaddr s \<noteq> 0 \<and>
     unat (base_vaddr s) + 4096 * unat (frame_table_size s) < 2 ^ 64"

definition pt_ok :: "sos \<Rightarrow> word64 \<Rightarrow> bool" where
  "pt_ok s page_table \<longleftrightarrow> (let pgd = load64 (mem s) page_table in
     page_table \<noteq> 0 \<and> aligned 12 page_table \<and> tree (mem s) pgd \<and> page_table \<notin> tables (mem s) pgd \<and>
     (\<forall>t \<in> insert page_table (tables (mem s) pgd).
        \<exists>page. unat page \<in> frames_used (frame_table s) \<and> t = page_num_to_vaddr page s))"

lemma page_vaddr:
  assumes "frames_fit s" "unat page < unat (frame_table_size s)"
  shows "unat (page_num_to_vaddr page s) = unat (base_vaddr s) + 4096 * unat page"
    "aligned 12 (page_num_to_vaddr page s)" "page_num_to_vaddr page s \<noteq> 0"
proof -
  have f: "unat (base_vaddr s) + 4096 * unat page < 2 ^ 64" using assms by (simp add: frames_fit_def)
  have m: "unat (page * 4096 :: word64) = unat page * 4096" using f by (subst unat_mult64) simp_all
  show u: "unat (page_num_to_vaddr page s) = unat (base_vaddr s) + 4096 * unat page"
    unfolding page_num_to_vaddr_def using f m by (subst unat_add64) simp_all
  show "aligned 12 (page_num_to_vaddr page s)"
    using assms(1) by (simp add: aligned_def u frames_fit_def)
  have "0 < unat (base_vaddr s)" using assms(1) by (simp add: frames_fit_def word_unat_eq_iff)
  then have "unat (page_num_to_vaddr page s) \<noteq> 0" unfolding u by simp
  then show "page_num_to_vaddr page s \<noteq> 0" by (metis unat_0)
qed

lemma page_vaddr_inj:
  assumes "frames_fit s" "unat page < unat (frame_table_size s)" "unat page' < unat (frame_table_size s)"
    "page_num_to_vaddr page s = page_num_to_vaddr page' s"
  shows "page = page'"
  using page_vaddr(1) [OF assms(1,2)] page_vaddr(1) [OF assms(1,3)] assms(4) by (simp add: word_unat_eq_iff)

lemma used_less: "frames_ok s \<Longrightarrow> i \<in> frames_used (frame_table s) \<Longrightarrow> i < unat (frame_table_size s)"
  by (simp add: frames_ok_def free_list_ok_def frames_used_def Let_def)

text \<open>A frame just allocated is none of the tables.\<close>

lemma filled_fresh:
  assumes pt: "pt_ok s page_table" and ok: "frames_ok s" "frames_fit s" and f: "frame_filled imp page t s s'"
  shows "t \<noteq> 0" "aligned 12 t" "t \<notin> insert page_table (tables (mem s) (load64 (mem s) page_table))"
proof -
  have v: "t = page_num_to_vaddr page s" "unat page \<notin> frames_used (frame_table s)"
    "unat page < unat (frame_table_size s)"
    using f used_less [of s' "unat page"] by (simp_all add: frame_filled_def page_num_to_vaddr_def)
  show "t \<noteq> 0" "aligned 12 t" using page_vaddr [OF ok(2) v(3)] v(1) by simp_all
  show "t \<notin> insert page_table (tables (mem s) (load64 (mem s) page_table))"
  proof
    assume "t \<in> insert page_table (tables (mem s) (load64 (mem s) page_table))"
    then obtain q where q: "unat q \<in> frames_used (frame_table s)" "t = page_num_to_vaddr q s"
      using pt unfolding pt_ok_def Let_def by blast
    have "q = page"
      by (rule page_vaddr_inj [OF ok(2) used_less [OF ok(1) q(1)] v(3) trans [OF q(2) [symmetric] v(1)]])
    then show False using q(1) v(2) by simp
  qed
qed

text \<open>The loop that marks the entries of a new last-level table invalid.\<close>

primrec inval :: "word64 \<Rightarrow> word64 \<Rightarrow> nat \<Rightarrow> (word64 \<Rightarrow> byte) \<Rightarrow> (word64 \<Rightarrow> byte)" where
  "inval pt w 0 m = m"
| "inval pt w (Suc n) m = store64 (inval pt w n m) (entry_at pt (word_of_nat n)) w"

lemma fold_set_word: "fold (\<lambda>i s. set_word (entry_at pt (word_of_nat i)) w s) [0..<n] s = s\<lparr>mem := inval pt w n (mem s)\<rparr>"
  by (induction n) (simp_all add: set_word_def)

lemma invalidate_all_eq: "invalidate_all pt s = s\<lparr>mem := inval pt (page_update_entry P_INVALID 0) 512 (mem s)\<rparr>"
  by (simp only: invalidate_all_def fold_set_word)

lemma small_index: "n < 512 \<Longrightarrow> unat (word_of_nat n :: word16) = n" "n < 512 \<Longrightarrow> index_ok (word_of_nat n)"
  by (simp_all add: unat_of_nat index_ok_def)

lemma inval_outside: "n \<le> 512 \<Longrightarrow> \<not> x - pt < 4096 \<Longrightarrow> inval pt w n m x = m x"
proof (induction n)
  case (Suc n)
  then have "\<not> x - entry_at pt (word_of_nat n) < 8"
    using entry_inside [OF small_index(2) [of n], of x pt] by auto
  then show ?case using Suc by (simp add: store64_def)
qed simp

lemma inval_inside: "aligned 12 pt \<Longrightarrow> n \<le> 512 \<Longrightarrow> unat j < n \<Longrightarrow> load64 (inval pt w n m) (entry_at pt j) = w"
proof (induction n)
  case (Suc n)
  show ?case
  proof (cases "unat j = n")
    case True
    then have "j = word_of_nat n" by auto
    then show ?thesis by simp
  next
    case False
    have j: "index_ok j" "unat j < n" using Suc.prems False by (simp_all add: index_ok_def)
    have "j \<noteq> word_of_nat n" using j(2) small_index(1) [of n] Suc.prems(2) by auto
    then have "entry_at pt (word_of_nat n) \<noteq> entry_at pt j"
      using entry_inj [OF Suc.prems(1,1) j(1) small_index(2) [of n]] Suc.prems(2) by fastforce
    then have "load64 (store64 (inval pt w n m) (entry_at pt (word_of_nat n)) w) (entry_at pt j) =
        load64 (inval pt w n m) (entry_at pt j)"
      by (rule load64_store64_other [OF entry_aligned entry_aligned, OF Suc.prems(1,1)])
    then show ?thesis using Suc.IH Suc.prems j(2) by simp
  qed
qed simp

section \<open>One level of an insertion\<close>

definition new_page :: "(word64 \<Rightarrow> byte) \<Rightarrow> (word64 \<Rightarrow> byte) \<Rightarrow> word64 \<Rightarrow> bool" where
  "new_page m m' t \<longleftrightarrow> (\<forall>x. \<not> x - t < 4096 \<longrightarrow> m' x = m x)"

lemma load_new_page:
  "new_page m m' t \<Longrightarrow> aligned 12 t \<Longrightarrow> aligned 12 u \<Longrightarrow> u \<noteq> t \<Longrightarrow> index_ok j \<Longrightarrow>
     load64 m' (entry_at u j) = load64 m (entry_at u j)"
  unfolding new_page_def by (rule load_entry_outside [of u t]) auto

text \<open>Filling a page that is no table changes no node.\<close>

lemma node_new_page:
  assumes "new_page m m' t" "tree m pgd" "aligned 12 t" "t \<notin> tables m pgd"
  shows "path_ok q \<Longrightarrow> node m' pgd q = node m pgd q"
proof (induction q rule: rev_induct)
  case (snoc j q)
  have q: "path_ok q" "length q < 3" "index_ok j" using snoc.prems by simp_all
  have "node m pgd q = 0 \<or> load64 m' (entry_at (node m pgd q) j) = load64 m (entry_at (node m pgd q) j)"
    using load_new_page [OF assms(1,3) treeD(2) [OF assms(2) q(1)] _ q(3)] assms(4) q(1) by (auto simp: tables_def)
  then show ?case using snoc.IH [OF q(1)] by (auto simp: node_snoc)
qed simp

text \<open>The memory after a new table was filled and entered.\<close>

lemma enter_table:
  assumes tr: "tree m pgd" and p: "path_ok p" "length p < 3" "index_ok i" "node m pgd p \<noteq> 0" "node m pgd (p @ [i]) = 0"
    and t: "t \<noteq> 0" "aligned 12 t" "t \<notin> tables m pgd" and np: "new_page m m1 t"
    and z: "length p < 2 \<longrightarrow> (\<forall>j. index_ok j \<longrightarrow> load64 m1 (entry_at t j) = 0)"
  shows "table_added m (store64 m1 (entry_at (node m pgd p) i) t) pgd t p i"
    "\<And>u j. aligned 12 u \<Longrightarrow> index_ok j \<Longrightarrow> u \<noteq> node m pgd p \<or> j \<noteq> i \<Longrightarrow>
      load64 (store64 m1 (entry_at (node m pgd p) i) t) (entry_at u j) = load64 m1 (entry_at u j)"
proof -
  have a: "aligned 12 (node m pgd p)" by (rule treeD(2) [OF tr p(1)])
  show s: "load64 (store64 m1 (entry_at (node m pgd p) i) t) (entry_at u j) = load64 m1 (entry_at u j)"
    if u: "aligned 12 u" "index_ok j" "u \<noteq> node m pgd p \<or> j \<noteq> i" for u j
  proof (rule load64_store64_other)
    show "aligned 3 (entry_at (node m pgd p) i)" "aligned 3 (entry_at u j)" using entry_aligned a u(1) by blast+
    show "entry_at (node m pgd p) i \<noteq> entry_at u j" using entry_inj [OF a u(1) p(3) u(2)] u(3) by blast
  qed
  have np': "node m pgd p \<noteq> t" using t(3) p(1,4) by (auto simp: tables_def)
  have "load64 (store64 m1 (entry_at (node m pgd p) i) t) (entry_at u j) = load64 m (entry_at u j)"
    if "aligned 12 u" "index_ok j" "u \<noteq> t" "entry_at u j \<noteq> entry_at (node m pgd p) i" for u j
    using s [OF that(1,2)] load_new_page [OF np t(2) that(1,3,2)] that(4) by auto
  moreover have "load64 (store64 m1 (entry_at (node m pgd p) i) t) (entry_at t j) = 0" if "length p < 2" "index_ok j" for j
    using s [OF t(2) that(2)] z that np' by simp
  ultimately show "table_added m (store64 m1 (entry_at (node m pgd p) i) t) pgd t p i"
    unfolding table_added_def using tr p t by simp
qed

text \<open>What a level keeps of the map: the entries do not change.\<close>

definition same_map :: "(word64 \<Rightarrow> byte) \<Rightarrow> (word64 \<Rightarrow> byte) \<Rightarrow> word64 \<Rightarrow> bool" where
  "same_map m m' page_table \<longleftrightarrow> (\<forall>v. pte_of m' page_table v = pte_of m page_table v)"

lemma path_node_0: "node m t p = 0 \<Longrightarrow> node m t (p @ q) = 0"
  by (induction p arbitrary: t) (auto split: if_splits)

lemma enter_table_same_map:
  assumes pt: "page_table \<noteq> 0" "aligned 12 page_table" "page_table \<notin> tables m (load64 m page_table)" "page_table \<noteq> t"
    and tr: "tree m (load64 m page_table)" and pgd: "pgd = load64 m page_table"
    and p: "path_ok p" "length p < 3" "index_ok i" "node m pgd p \<noteq> 0" "node m pgd (p @ [i]) = 0"
    and t: "t \<noteq> 0" "aligned 12 t" "t \<notin> tables m pgd" and np: "new_page m m1 t"
    and z: "length p < 2 \<longrightarrow> (\<forall>j. index_ok j \<longrightarrow> load64 m1 (entry_at t j) = 0)"
    and inv: "length p = 2 \<longrightarrow> (\<forall>j. index_ok j \<longrightarrow> load64 m1 (entry_at t j) = page_update_entry P_INVALID 0)"
    and m': "m' = store64 m1 (entry_at (node m pgd p) i) t"
  shows "load64 m' page_table = pgd" "same_map m m' page_table"
proof -
  have trp: "tree m pgd" using tr pgd by simp
  note ta = enter_table(1) [OF trp p t np z, folded m'] and s = enter_table(2) [OF trp p t np z, folded m']
  have i0: "index_ok 0" "entry_at page_table 0 = page_table" by (simp_all add: index_ok_def entry_at_def)
  have pn: "page_table \<noteq> node m pgd p" using pt(3) pgd p(1,4) by (auto simp: tables_def)
  show root: "load64 m' page_table = pgd"
    using s [OF pt(2) i0(1)] pn load_new_page [OF np t(2) pt(2,4) i0(1)] pgd by (simp add: i0(2))
  have tr': "tree m' (load64 m' page_table)" using tree_added(1) [OF ta] root by simp
  have "pte_of m' page_table v = pte_of m page_table v" for v
  proof -
    let ?q = "pt_path v" and ?l = "l4 (get_pt_index v)"
    have n: "node m' pgd ?q = (if ?q = p @ [i] then t else if take (length p + 1) ?q = p @ [i] then 0 else node m pgd ?q)"
      by (rule node_new [OF ta]) simp
    consider "?q = p @ [i]" | "?q \<noteq> p @ [i]" "take (length p + 1) ?q = p @ [i]" | "take (length p + 1) ?q \<noteq> p @ [i]"
      by blast
    then show ?thesis
    proof cases
      case 1
      then have "length p = 2" using pt_path_ok(2) [of v] by simp
      then have "load64 m' (entry_at t ?l) = page_update_entry P_INVALID 0"
        using s [OF t(2), where j = ?l] inv t(3) p(1,4) by (auto simp: tables_def)
      then show ?thesis
        using n 1 p(5) t(1) by (simp add: pte_of_node [OF pt(1) tr'] pte_of_node [OF pt(1) tr] root pgd [symmetric] Let_def)
    next
      case 2
      then have "node m pgd ?q = 0" using path_node_0 [OF p(5), of "drop (length p + 1) ?q"] by (metis append_take_drop_id)
      then show ?thesis
        using n 2 by (simp add: pte_of_node [OF pt(1) tr'] pte_of_node [OF pt(1) tr] root pgd [symmetric] Let_def)
    next
      case 3
      then have n': "node m' pgd ?q = node m pgd ?q" using n by (metis length_append_singleton Suc_eq_plus1 order_refl take_all)
      have "node m pgd ?q = 0 \<or> load64 m' (entry_at (node m pgd ?q) ?l) = load64 m (entry_at (node m pgd ?q) ?l)"
      proof (cases "node m pgd ?q = 0")
        case False
        have "?q \<noteq> p" using p(2) pt_path_ok(2) [of v] by auto
        then have "node m pgd ?q \<noteq> node m pgd p" using treeD(3) [OF trp pt_path_ok(1) p(1) False] by blast
        moreover have "node m pgd ?q \<noteq> t" using t(3) False by (auto simp: tables_def)
        ultimately show ?thesis
          using s [OF treeD(2) [OF trp pt_path_ok(1)], where j = ?l] load_new_page [OF np t(2) treeD(2) [OF trp pt_path_ok(1)], where j = ?l] by simp
      qed simp
      then show ?thesis
        using n' by (auto simp: pte_of_node [OF pt(1) tr'] pte_of_node [OF pt(1) tr] root pgd [symmetric] Let_def)
    qed
  qed
  then show "same_map m m' page_table" by (simp add: same_map_def)
qed

definition level_ok :: "sos \<Rightarrow> word64 \<Rightarrow> bool" where
  "level_ok s page_table \<longleftrightarrow> pt_ok s page_table \<and> frames_ok s \<and> frames_fit s"

definition level_kept :: "sos \<Rightarrow> sos \<Rightarrow> word64 \<Rightarrow> bool" where
  "level_kept s s' page_table \<longleftrightarrow> level_ok s' page_table \<and> load64 (mem s') page_table = load64 (mem s) page_table \<and>
     same_map (mem s) (mem s') page_table \<and> frame_table_size s' = frame_table_size s \<and>
     unat (frame_table_curr_size s') \<le> unat (frame_table_curr_size s) + 1"

lemma level_kept_still: "level_ok s page_table \<Longrightarrow> still s s' \<Longrightarrow> level_kept s s' page_table"
  by (simp add: level_kept_def level_ok_def frames_ok_still still_sos pt_ok_def frames_fit_def same_map_def page_num_to_vaddr_def)

lemma filled_new_page: "frame_filled imp page t s s' \<Longrightarrow> new_page (mem s) (mem s') t"
  by (simp add: frame_filled_def new_page_def memset_def)

lemma filled_zero: "frame_filled imp page t s s' \<Longrightarrow> index_ok j \<Longrightarrow> load64 (mem s') (entry_at t j) = 0"
proof -
  assume f: "frame_filled imp page t s s'" and j: "index_ok j"
  have "mem s' (entry_at t j + word_of_nat k) = 0" if "k < 8" for k
  proof -
    have e: "entry_at t j + word_of_nat k = t + word_of_nat (8 * unat j + k)"
      by (simp add: entry_at_def unsigned_ucast_eq algebra_simps)
    have "8 * unat j + k < 4096" using that j by (simp add: index_ok_def)
    moreover have "\<forall>i < 4096. mem s' (t + word_of_nat i) = 0" using f unfolding frame_filled_def by blast
    ultimately show ?thesis unfolding e by blast
  qed
  then show ?thesis by (rule load64_zero)
qed


text \<open>The two ways \<open>page_table_insert\<close> prepares a new table.\<close>

definition fill_ok :: "nat \<Rightarrow> (word64 \<Rightarrow> sos \<Rightarrow> sos) \<Rightarrow> bool" where
  "fill_ok n fill \<longleftrightarrow> n < 2 \<and> fill = (\<lambda>_ s. s) \<or> n = 2 \<and> fill = invalidate_all"

lemma fill_effect:
  assumes "fill_ok (length p) fill" "frame_filled imp page t s s1"
  obtains m1 where "fill t s1 = s1\<lparr>mem := m1\<rparr>" "new_page (mem s) m1 t"
    "length p < 2 \<longrightarrow> (\<forall>j. index_ok j \<longrightarrow> load64 m1 (entry_at t j) = 0)"
    "aligned 12 t \<Longrightarrow> length p = 2 \<longrightarrow> (\<forall>j. index_ok j \<longrightarrow> load64 m1 (entry_at t j) = page_update_entry P_INVALID 0)"
proof (cases "length p < 2")
  case True
  then show ?thesis
    using assms(1) that [of "mem s1"] filled_new_page [OF assms(2)] filled_zero [OF assms(2)] by (auto simp: fill_ok_def)
next
  case False
  let ?m = "inval t (page_update_entry P_INVALID 0) 512 (mem s1)"
  have "new_page (mem s) ?m t"
    using filled_new_page [OF assms(2)] inval_outside [of 512] by (auto simp: new_page_def)
  then show ?thesis
    using that [of ?m] False assms(1) inval_inside [of t 512] by (auto simp: fill_ok_def invalidate_all_eq index_ok_def)
qed

text \<open>The tables after a frame was filled and entered are frames in use.\<close>

lemma pt_ok_entered:
  assumes l: "level_ok s page_table" and f: "frame_filled imp page t s s1" and pgd: "pgd = load64 (mem s) page_table"
    and a: "table_added (mem s) m' pgd t p i" and r: "load64 m' page_table = pgd" and sm: "same_map (mem s) m' page_table"
    and c: "frame_table_curr_size s < frame_table_size s"
  shows "level_kept s (s1\<lparr>mem := m'\<rparr>) page_table"
proof -
  have pt: "pt_ok s page_table" and ok: "frames_ok s" "frames_fit s" using l by (simp_all add: level_ok_def)
  have s1: "frames_ok s1" "frames_used (frame_table s1) = insert (unat page) (frames_used (frame_table s))"
    "t = page_num_to_vaddr page s1" "base_vaddr s1 = base_vaddr s" "frame_table_size s1 = frame_table_size s"
    "frame_table_curr_size s1 = frame_table_curr_size s + 1"
    using f unfolding frame_filled_def by blast+
  have used: "\<exists>q. unat q \<in> frames_used (frame_table s1) \<and> u = page_num_to_vaddr q s1"
    if "u \<in> insert page_table (tables m' pgd)" for u
  proof -
    have "u = t \<or> u \<in> insert page_table (tables (mem s) pgd)" using that tree_added(2) [OF a] by blast
    then show ?thesis using pt s1 unfolding pt_ok_def Let_def pgd page_num_to_vaddr_def by auto
  qed
  have "page_table \<notin> tables m' pgd" using tree_added(2) [OF a] pt filled_fresh(3) [OF pt ok f] by (auto simp: pt_ok_def pgd Let_def)
  then have "pt_ok (s1\<lparr>mem := m'\<rparr>) page_table"
    using pt used tree_added(1) [OF a] by (simp add: pt_ok_def Let_def r page_num_to_vaddr_def)
  moreover have "unat (frame_table_size s) < 18446744073709551616"
    by (rule order_less_le_trans [OF unsigned_less]) simp
  then have "unat (frame_table_curr_size s) + unat (1 :: word64) < 18446744073709551616"
    using c unfolding word_less_nat_alt unsigned_1 by linarith
  then have "unat (frame_table_curr_size s + 1) = unat (frame_table_curr_size s) + 1"
    by (simp only: unat_add64 unsigned_1)
  ultimately show ?thesis
    using s1 ok r sm pgd by (simp add: level_kept_def level_ok_def frames_fit_def)
qed


lemma level_get_step:
  assumes l: "level_ok s page_table" and pgd: "pgd = load64 (mem s) page_table"
    and c: "frame_table_curr_size s < frame_table_size s"
    and p: "path_ok p" "length p < 3" "index_ok i" "node (mem s) pgd p \<noteq> 0"
    and slot: "\<And>m. node m pgd p \<noteq> 0 \<Longrightarrow> slot m = entry_at (node m pgd p) i" and fill: "fill_ok (length p) fill"
    and g: "level_get W fill slot s = Some (t, s')"
  shows "level_kept s s' page_table \<and> (t \<noteq> 0 \<longrightarrow> node (mem s') pgd (p @ [i]) = t)"
proof (cases "load64 (mem s) (slot (mem s)) = 0")
  case False
  then have "s' = s" "t = load64 (mem s) (slot (mem s))" using g by (auto simp: level_get_def Let_def)
  then show ?thesis
    using l p(4) slot [OF p(4)] by (simp add: level_kept_def same_map_def node_snoc)
next
  case True
  have n0: "node (mem s) pgd (p @ [i]) = 0" using True slot [OF p(4)] p(4) by (simp add: node_snoc)
  have pt: "pt_ok s page_table" and ok: "frames_ok s" "frames_fit s" using l by (simp_all add: level_ok_def)
  obtain page v s1 where fa: "frame_alloc_as True W s = Some ((page, v), s1)" and
    r: "(if v = 0 then Some (0, s1) else let s = fill v s1 in Some (v, set_word (slot (mem s)) v s)) = Some (t, s')"
    using g True by (auto simp: level_get_def Let_def bind_eq_Some_conv frame_alloc_important_def)
  show ?thesis
  proof (rule frame_alloc_cases [OF ok(1) disjI1 [OF c] fa])
    fix s2 assume "frame_table_curr_size s < frame_table_size s \<Longrightarrow> s2 = s" "v = 0" "still s2 s1"
    then show ?thesis using c r level_kept_still [OF l] by simp
  next
    fix s2 assume s2: "frame_table_curr_size s < frame_table_size s \<Longrightarrow> s2 = s" "frame_filled True page v s2 s1"
    then have f: "frame_filled True page v s s1" using c by simp
    note fr = filled_fresh [OF pt ok f]
    obtain m1 where m1: "fill v s1 = s1\<lparr>mem := m1\<rparr>" "new_page (mem s) m1 v"
      "length p < 2 \<longrightarrow> (\<forall>j. index_ok j \<longrightarrow> load64 m1 (entry_at v j) = 0)"
      "length p = 2 \<longrightarrow> (\<forall>j. index_ok j \<longrightarrow> load64 m1 (entry_at v j) = page_update_entry P_INVALID 0)"
      using fill_effect [OF fill f] fr(2) by metis
    have tr: "tree (mem s) pgd" "page_table \<noteq> 0" "aligned 12 page_table" "page_table \<notin> tables (mem s) pgd"
      using pt by (simp_all add: pt_ok_def pgd Let_def)
    have fr': "v \<notin> tables (mem s) pgd" "page_table \<noteq> v" using fr(3) pgd by auto
    have nm: "node m1 pgd p = node (mem s) pgd p" by (rule node_new_page [OF m1(2) tr(1) fr(2) fr'(1) p(1)])
    then have e: "slot m1 = entry_at (node (mem s) pgd p) i" using slot [of m1] p(4) by simp
    define m' where "m' = store64 m1 (entry_at (node (mem s) pgd p) i) v"
    have s': "s' = s1\<lparr>mem := m'\<rparr>" "t = v" using r fr(1) m1(1) e by (auto simp: set_word_def m'_def Let_def)
    note ta = enter_table(1) [OF tr(1) p n0 fr(1,2) fr'(1) m1(2,3), folded m'_def]
    note sm = enter_table_same_map [OF tr(2,3) tr(4) [unfolded pgd] fr'(2) tr(1) [unfolded pgd] pgd p n0 fr(1,2) fr'(1) m1(2-4) m'_def]
    have "node m' pgd (p @ [i]) = v" using node_new [OF ta, of "p @ [i]"] p by simp
    then show ?thesis using pt_ok_entered [OF l f pgd ta sm c] s' by simp
  qed
qed


section \<open>Inserting a page\<close>

lemma slots:
  assumes "pgd \<noteq> 0"
  shows "node m pgd [] \<noteq> 0 \<Longrightarrow> pud_slot pgd ind m = entry_at (node m pgd []) (l1 ind)"
    "node m pgd [l1 ind] \<noteq> 0 \<Longrightarrow> pd_slot pgd ind m = entry_at (node m pgd [l1 ind]) (l2 ind)"
    "node m pgd [l1 ind, l2 ind] \<noteq> 0 \<Longrightarrow> pt_slot pgd ind m = entry_at (node m pgd [l1 ind, l2 ind]) (l3 ind)"
  using assms by (simp_all add: pud_slot_def pd_slot_def pt_slot_def split: if_splits)

text \<open>The final store of the entry.\<close>

lemma insert_leaf:
  assumes l: "level_ok s page_table" and t: "node (mem s) (load64 (mem s) page_table) (pt_path vaddr) = t" "t \<noteq> 0"
    and s': "s' = set_word (entry_at t (l4 (get_pt_index vaddr))) num s"
  shows "level_ok s' page_table" "pte_of (mem s') page_table vaddr = num"
    "\<not> same_page v vaddr \<Longrightarrow> pte_of (mem s') page_table v = pte_of (mem s) page_table v"
proof -
  let ?pgd = "load64 (mem s) page_table" and ?i = "l4 (get_pt_index vaddr)"
  have pt: "pt_ok s page_table" and ok: "frames_ok s" "frames_fit s" using l by (simp_all add: level_ok_def)
  have tr: "tree (mem s) ?pgd" "page_table \<noteq> 0" "aligned 12 page_table" "page_table \<notin> tables (mem s) ?pgd"
    using pt by (simp_all add: pt_ok_def Let_def)
  have at: "aligned 12 t" using treeD(2) [OF tr(1) pt_path_ok(1)] t(1) by metis
  have m': "mem s' = store64 (mem s) (entry_at (node (mem s) ?pgd (pt_path vaddr)) ?i) num"
    using t(1) by (simp add: s' set_word_def)
  have sf: "frames_ok s' = frames_ok s" "frame_table s' = frame_table s" "base_vaddr s' = base_vaddr s"
    "frame_table_size s' = frame_table_size s" by (simp_all add: s' set_word_def)
  have other: "load64 (mem s') (entry_at u j) = load64 (mem s) (entry_at u j)"
    if "aligned 12 u" "index_ok j" "u \<noteq> t \<or> j \<noteq> ?i" for u j
  proof -
    have "entry_at t ?i \<noteq> entry_at u j" using entry_inj [OF at that(1) pt_index_ok(4) that(2)] that(3) by metis
    then show ?thesis unfolding m' t(1) by (rule load64_store64_other [OF entry_aligned entry_aligned, OF at that(1)])
  qed
  have "page_table \<noteq> t" using tr(4) t by (auto simp: tables_def)
  then have r: "load64 (mem s') page_table = ?pgd"
    using other [OF tr(3), of 0] by (simp add: index_ok_def entry_at_def)
  have n: "path_ok q \<Longrightarrow> node (mem s') ?pgd q = node (mem s) ?pgd q" for q
    unfolding m' by (rule node_leaf [OF tr(1) pt_path_ok t(2) [folded t(1)] pt_index_ok(4)])
  have tl: "tree (mem s') ?pgd" "tables (mem s') ?pgd = tables (mem s) ?pgd"
    unfolding m' by (rule tree_leaf [OF tr(1) pt_path_ok t(2) [folded t(1)] pt_index_ok(4)])+
  show "level_ok s' page_table"
    using l tl r tr(2,3) by (simp add: level_ok_def pt_ok_def frames_fit_def page_num_to_vaddr_def Let_def sf)
  have tr': "tree (mem s') (load64 (mem s') page_table)" using tl(1) r by simp
  show "pte_of (mem s') page_table vaddr = num"
    unfolding pte_of_node [OF tr(2) tr'] r Let_def n [OF pt_path_ok(1)] t(1) using t(2) m' t(1) by simp
  show "pte_of (mem s') page_table v = pte_of (mem s) page_table v" if v: "\<not> same_page v vaddr"
  proof (cases "node (mem s) ?pgd (pt_path v) = 0")
    case True
    then show ?thesis using n [of "pt_path v"] by (simp add: pte_of_node [OF tr(2) tr'] pte_of_node [OF tr(2) tr(1)] r Let_def)
  next
    case False
    have "node (mem s) ?pgd (pt_path v) = t \<Longrightarrow> pt_path v = pt_path vaddr"
      by (rule treeD(3) [OF tr(1) pt_path_ok(1) pt_path_ok(1) False]) (simp add: t(1))
    then have "node (mem s) ?pgd (pt_path v) \<noteq> t \<or> l4 (get_pt_index v) \<noteq> ?i"
      using v by (auto simp: same_page_def)
    then have "load64 (mem s') (entry_at (node (mem s) ?pgd (pt_path v)) (l4 (get_pt_index v))) =
        load64 (mem s) (entry_at (node (mem s) ?pgd (pt_path v)) (l4 (get_pt_index v)))"
      by (intro other treeD(2) [OF tr(1)]) simp_all
    then show ?thesis using n [of "pt_path v"] by (simp add: pte_of_node [OF tr(2) tr'] pte_of_node [OF tr(2) tr(1)] r Let_def)
  qed
qed

text \<open>What holds between the levels of an insertion that began in \<open>s0\<close>, with \<open>k\<close> frames left.\<close>

definition inserting :: "nat \<Rightarrow> word64 \<Rightarrow> sos \<Rightarrow> sos \<Rightarrow> bool" where
  "inserting k page_table s0 s \<longleftrightarrow> level_ok s page_table \<and> load64 (mem s) page_table = load64 (mem s0) page_table \<and>
     same_map (mem s0) (mem s) page_table \<and> unat (frame_table_curr_size s) + k \<le> unat (frame_table_size s)"

lemma inserting_weaken: "inserting k page_table s0 s \<Longrightarrow> inserting 0 page_table s0 s"
  by (simp add: inserting_def)

lemma inserting_step:
  assumes i: "inserting (Suc k) page_table s0 s" and pgd: "pgd = load64 (mem s0) page_table"
    and p: "path_ok (p @ [i])" "node (mem s) pgd p \<noteq> 0"
    and slot: "\<And>m. node m pgd p \<noteq> 0 \<Longrightarrow> slot m = entry_at (node m pgd p) i" and fill: "fill_ok (length p) fill"
    and g: "level_get W fill slot s = Some (t, s')"
  shows "inserting k page_table s0 s' \<and> (t \<noteq> 0 \<longrightarrow> node (mem s') pgd (p @ [i]) = t)"
proof -
  have l: "level_ok s page_table" "pgd = load64 (mem s) page_table" "frame_table_curr_size s < frame_table_size s"
    using i pgd by (simp_all add: inserting_def word_less_nat_alt)
  have "level_kept s s' page_table \<and> (t \<noteq> 0 \<longrightarrow> node (mem s') pgd (p @ [i]) = t)"
    by (rule level_get_step [OF l _ _ _ p(2) slot fill g]) (use p(1) in simp_all)
  then show ?thesis
    using i by (simp add: inserting_def level_kept_def same_map_def)
qed

lemma insert_walk:
  assumes i: "inserting 3 page_table s s" and ins: "page_table_insert W page_table vaddr num s = Some (r, s')"
  obtains "r = - 1" "inserting 0 page_table s s'"
  | t s3 where "r = 0" "inserting 0 page_table s s3" "t \<noteq> 0"
      "node (mem s3) (load64 (mem s3) page_table) (pt_path vaddr) = t"
      "s' = set_word (entry_at t (l4 (get_pt_index vaddr))) num s3"
proof -
  let ?pgd = "load64 (mem s) page_table" and ?ind = "get_pt_index vaddr"
  have pgd: "?pgd \<noteq> 0" "page_table \<noteq> 0"
    using i treeD(1) [of "mem s" ?pgd] by (simp_all add: inserting_def level_ok_def pt_ok_def Let_def)
  have pt: "pt_pgd page_table (mem s) = Some ?pgd" using pgd by (simp add: pt_pgd_def)
  have i3: "inserting (Suc (Suc (Suc 0))) page_table s s" using i by (simp add: eval_nat_numeral)
  have step1: "level_get W (\<lambda>_ s. s) (pud_slot ?pgd ?ind) s = Some (pud, s1) \<Longrightarrow>
      inserting (Suc (Suc 0)) page_table s s1 \<and> (pud \<noteq> 0 \<longrightarrow> node (mem s1) ?pgd ([] @ [l1 ?ind]) = pud)" for pud s1
    by (rule inserting_step [OF i3 refl _ _ slots(1) [OF pgd(1)]]) (simp_all add: pgd path_ok_def fill_ok_def)
  have step2: "inserting (Suc (Suc 0)) page_table s s1 \<Longrightarrow> node (mem s1) ?pgd [l1 ?ind] = pud \<Longrightarrow> pud \<noteq> 0 \<Longrightarrow>
      level_get W (\<lambda>_ s. s) (pd_slot ?pgd ?ind) s1 = Some (pd, s2) \<Longrightarrow>
      inserting (Suc 0) page_table s s2 \<and> (pd \<noteq> 0 \<longrightarrow> node (mem s2) ?pgd ([l1 ?ind] @ [l2 ?ind]) = pd)" for pud s1 pd s2
    by (rule inserting_step [OF _ refl _ _ slots(2) [OF pgd(1)]]) (simp_all add: path_ok_def fill_ok_def)
  have step3: "inserting (Suc 0) page_table s s2 \<Longrightarrow> node (mem s2) ?pgd [l1 ?ind, l2 ?ind] = pd \<Longrightarrow> pd \<noteq> 0 \<Longrightarrow>
      level_get W invalidate_all (pt_slot ?pgd ?ind) s2 = Some (t, s3) \<Longrightarrow>
      inserting 0 page_table s s3 \<and> (t \<noteq> 0 \<longrightarrow> node (mem s3) ?pgd ([l1 ?ind, l2 ?ind] @ [l3 ?ind]) = t)" for s2 pd t s3
    by (rule inserting_step [OF _ refl _ _ slots(3) [OF pgd(1)]]) (simp_all add: path_ok_def fill_ok_def)
  have root: "inserting 0 page_table s s3 \<Longrightarrow> load64 (mem s3) page_table = ?pgd" for s3 by (simp add: inserting_def)
  obtain pud s1 where g1: "level_get W (\<lambda>_ s. s) (pud_slot ?pgd ?ind) s = Some (pud, s1)"
    using ins by (auto simp: page_table_insert_def pt Let_def bind_eq_Some_conv)
  note k1 = step1 [OF g1]
  show thesis
  proof (cases "pud = 0")
    case True
    then show ?thesis using that(1) ins g1 k1 inserting_weaken by (simp add: page_table_insert_def pt Let_def)
  next
    case False
    then obtain pd s2 where g2: "level_get W (\<lambda>_ s. s) (pd_slot ?pgd ?ind) s1 = Some (pd, s2)"
      using ins g1 by (auto simp: page_table_insert_def pt Let_def bind_eq_Some_conv)
    have k2: "inserting (Suc 0) page_table s s2 \<and> (pd \<noteq> 0 \<longrightarrow> node (mem s2) ?pgd [l1 ?ind, l2 ?ind] = pd)"
      using step2 [OF _ _ False g2] k1 False by simp
    show ?thesis
    proof (cases "pd = 0")
      case True
      then show ?thesis using that(1) ins g1 False g2 k2 inserting_weaken by (simp add: page_table_insert_def pt Let_def)
    next
      case nz: False
      then obtain t s3 where g3: "level_get W invalidate_all (pt_slot ?pgd ?ind) s2 = Some (t, s3)"
        using ins g1 g2 False by (auto simp: page_table_insert_def pt Let_def bind_eq_Some_conv)
      have k3: "inserting 0 page_table s s3 \<and> (t \<noteq> 0 \<longrightarrow> node (mem s3) ?pgd (pt_path vaddr) = t)"
        using step3 [OF _ _ nz g3] k2 nz by (simp add: pt_path_def)
      have r: "(if t = 0 then Some (- 1, s3) else Some (0, set_word (entry_at t (l4 ?ind)) num s3)) = Some (r, s')"
        using ins by (simp add: page_table_insert_def pt Let_def g1 False g2 nz g3)
      show ?thesis
      proof (cases "t = 0")
        case True
        then show ?thesis using that(1) r k3 by simp
      next
        case False
        then show ?thesis using that(2) [of s3 t] r k3 root [of s3] by simp
      qed
    qed
  qed
qed

text \<open>
  C14. Inserting a page into a well-formed page table keeps the table well-formed; it fails and
  changes no entry, or succeeds, after which the entry of the address is the one given and the
  entries of all other pages are as before. Three frames have to be free, one for each level that
  may be missing.\<close>

theorem page_table_insert_correct:
  assumes ok: "pt_ok s page_table" "frames_ok s" "frames_fit s"
    and room: "unat (frame_table_curr_size s) + 3 \<le> unat (frame_table_size s)"
    and ins: "page_table_insert W page_table vaddr num s = Some (r, s')"
  shows "pt_ok s' page_table \<and> frames_ok s' \<and>
    (r = - 1 \<and> (\<forall>v. pte_of (mem s') page_table v = pte_of (mem s) page_table v) \<or>
     r = 0 \<and> pte_of (mem s') page_table vaddr = num \<and>
       (\<forall>v. same_page v vaddr \<or> pte_of (mem s') page_table v = pte_of (mem s) page_table v))"
proof -
  have "inserting 3 page_table s s" using ok room by (simp add: inserting_def level_ok_def same_map_def)
  then show ?thesis
  proof (rule insert_walk [OF _ ins])
    assume "r = - 1" "inserting 0 page_table s s'"
    then show ?thesis by (simp add: inserting_def level_ok_def same_map_def)
  next
    fix t s3 assume a: "r = 0" "inserting 0 page_table s s3" "t \<noteq> 0"
      "node (mem s3) (load64 (mem s3) page_table) (pt_path vaddr) = t"
      "s' = set_word (entry_at t (l4 (get_pt_index vaddr))) num s3"
    have i: "level_ok s3 page_table" "same_map (mem s) (mem s3) page_table" using a(2) by (simp_all add: inserting_def)
    show ?thesis
      using insert_leaf [OF i(1) a(4,3,5)] i(2) a(1) by (auto simp: level_ok_def same_map_def)
  qed
qed


section \<open>A page table with one page of entries\<close>

lemma tree_empty:
  assumes "pgd \<noteq> 0" "aligned 12 pgd" "\<And>j. index_ok j \<Longrightarrow> load64 m (entry_at pgd j) = 0"
  shows "tree m pgd" "tables m pgd = {pgd}"
proof -
  have n: "node m pgd p = (if p = [] then pgd else 0)" if "path_ok p" for p
    using that assms(1,3) by (cases p) (simp_all add: path_ok_def)
  show "tree m pgd" unfolding tree_def using assms(1,2) n by (auto simp: aligned_def)
  have "path_ok []" by (simp add: path_ok_def)
  then show "tables m pgd = {pgd}" unfolding tables_def using n assms(1) by (auto split: if_splits intro!: exI [of _ "[]"])
qed

definition example_page :: "nat \<Rightarrow> word64" where
  "example_page n = 0x80000100000 + 4096 * word_of_nat n"

definition example_mem :: "nat \<Rightarrow> word64 \<Rightarrow> byte" where
  "example_mem n = fold (\<lambda>i m. store64 m (example_page i) (example_page (Suc i))) [0..<n] (\<lambda>_. 0)"

definition map_example :: sos where
  "map_example = frames_example\<lparr>
     frame_table := map (\<lambda>i. if i < 5 then (free_entry 0 0)\<lparr>fte_cap := 1\<rparr> else free_entry 0 (if i = 7 then 0 else word_of_nat (i + 1))) [0..<8],
     frame_table_size := 8, frame_table_curr_size := 5, next_free_page := 5, mem := example_mem 4\<rparr>"

lemma example_mem_Suc: "example_mem (Suc n) = store64 (example_mem n) (example_page n) (example_page (Suc n))"
  by (simp add: example_mem_def)

lemma example_page_ok: "n < 8 \<Longrightarrow> aligned 12 (example_page n) \<and> unat (example_page n) = 0x80000100000 + 4096 * n"
proof -
  assume n: "n < 8"
  have "unat (4096 * word_of_nat n :: word64) = 4096 * n" using n by (subst unat_mult64) (simp_all add: unat_of_nat64)
  then have u: "unat (example_page n) = 0x80000100000 + 4096 * n"
    unfolding example_page_def using n by (subst unat_add64) simp_all
  have "(4096 :: nat) dvd 0x80000100000 + 4096 * n" by (rule dvd_add) simp_all
  then show ?thesis using u by (simp add: aligned_def)
qed

lemma example_page_nz: "n < 8 \<Longrightarrow> example_page n \<noteq> 0"
proof
  assume n: "n < 8" and z: "example_page n = 0"
  show False using conjunct2 [OF example_page_ok [OF n]] unfolding z unsigned_0 by linarith
qed

lemma example_page_inj: "n < 8 \<Longrightarrow> k < 8 \<Longrightarrow> example_page n = example_page k \<Longrightarrow> n = k"
proof -
  assume n: "n < 8" and k: "k < 8" and e: "example_page n = example_page k"
  show "n = k" using conjunct2 [OF example_page_ok [OF n]] conjunct2 [OF example_page_ok [OF k]] unfolding e by linarith
qed

lemma entry_0 [simp]: "entry_at t 0 = t"
  by (simp add: entry_at_def)

lemma index_0 [simp]: "index_ok 0"
  by (simp add: index_ok_def)

lemma example_zero:
  assumes "n \<le> k" "k < 8" "index_ok j"
  shows "load64 (example_mem n) (entry_at (example_page k) j) = 0"
  using assms(1)
proof (induction n)
  case 0
  show ?case by (rule load64_zero) (simp add: example_mem_def)
next
  case (Suc n)
  have a: "aligned 12 (example_page n)" "aligned 12 (example_page k)"
    using Suc.prems assms(2) by (simp_all add: example_page_ok)
  have "example_page n \<noteq> example_page k" using example_page_inj [of n k] Suc.prems assms(2) by auto
  then have "example_page n \<noteq> entry_at (example_page k) j" using entry_inj [OF a _ assms(3), of 0] by auto
  then have "load64 (example_mem (Suc n)) (entry_at (example_page k) j) = load64 (example_mem n) (entry_at (example_page k) j)"
    unfolding example_mem_Suc
    by (rule load64_store64_other [OF entry_aligned [OF a(1), of 0, unfolded entry_0] entry_aligned [OF a(2)]])
  then show ?case using Suc by simp
qed

lemma example_tree:
  "n \<le> 3 \<Longrightarrow> tree (example_mem (Suc n)) (example_page (Suc 0)) \<and> tables (example_mem (Suc n)) (example_page (Suc 0)) \<subseteq> example_page ` {Suc 0..Suc n} \<and>
     node (example_mem (Suc n)) (example_page (Suc 0)) (replicate n 0) = example_page (Suc n)"
proof (induction n)
  case 0
  show ?case
    using tree_empty [of "example_page (Suc 0)" "example_mem (Suc 0)"] example_page_nz [of "Suc 0"] example_page_ok [of "Suc 0"] example_zero [of "Suc 0" "Suc 0"] by simp
next
  case (Suc n)
  let ?m = "example_mem (Suc n)" and ?g = "example_page (Suc 0)" and ?t = "example_page (Suc (Suc n))"
  have IH: "tree ?m ?g" "tables ?m ?g \<subseteq> example_page ` {Suc 0..Suc n}" "node ?m ?g (replicate n 0) = example_page (Suc n)"
    using Suc by simp_all
  have p: "path_ok (replicate n 0)" "length (replicate n (0 :: word16)) < 3" using Suc.prems by (simp_all add: path_ok_def)
  have nz: "node ?m ?g (replicate n 0) \<noteq> 0" using IH(3) example_page_nz [of "Suc n"] Suc.prems by simp
  have z: "node ?m ?g (replicate n 0 @ [0]) = 0"
    using example_zero [of "Suc n" "Suc n" 0] Suc.prems by (simp add: node_snoc IH(3))
  have fresh: "?t \<notin> tables ?m ?g"
  proof
    assume "?t \<in> tables ?m ?g"
    then have "?t \<in> example_page ` {Suc 0..Suc n}" by (rule subsetD [OF IH(2)])
    then obtain k where "k \<le> Suc n" "?t = example_page k" by auto
    then show False using example_page_inj [of "Suc (Suc n)" k] Suc.prems by simp
  qed
  have "table_added ?m (store64 ?m (entry_at (node ?m ?g (replicate n 0)) 0) ?t) ?g ?t (replicate n 0) 0"
    by (rule enter_table(1) [OF IH(1) p index_0 nz z _ _ fresh])
      (use Suc.prems example_page_nz [of "Suc (Suc n)"] example_page_ok [of "Suc (Suc n)"] example_zero [of "Suc n" "Suc (Suc n)"]
        in \<open>simp_all add: new_page_def\<close>)
  then have a: "table_added ?m (example_mem (Suc (Suc n))) ?g ?t (replicate n 0) 0"
    by (simp add: IH(3) example_mem_Suc [of "Suc n"])
  have pp: "path_ok (replicate n 0 @ [0])" using p by (simp only: path_ok_snoc index_0)
  have rep: "replicate (Suc n) (0 :: word16) = replicate n 0 @ [0]" by (simp add: replicate_append_same)
  have "node (example_mem (Suc (Suc n))) ?g (replicate (Suc n) 0) = ?t"
    unfolding rep using node_new [OF a pp] by (simp only: if_True refl)
  moreover have "tables (example_mem (Suc (Suc n))) ?g \<subseteq> example_page ` {Suc 0..Suc (Suc n)}"
    using subset_trans [OF tree_added(2) [OF a] insert_mono [OF IH(2)]] by (simp add: atLeastAtMostSuc_conv)
  ultimately show ?case using tree_added(1) [OF a] by blast
qed


lemma map_example_sel:
  "mem map_example = example_mem 4" "base_vaddr map_example = example_page 0" "frame_table_size map_example = 8"
  "frame_table_curr_size map_example = 5"
  by (simp_all add: map_example_def frames_example_def sos_example_def example_page_def)

lemma map_example_used: "frames_used (frame_table map_example) = {0..<5}"
  by (auto simp: map_example_def frames_used_def free_entry_def split: if_split_asm)

lemma map_example_frames: "frames_ok map_example" "frames_fit map_example"
proof -
  have u: "frames_used (frame_table map_example) = {0, 1, 2, 3, 4}" by (auto simp: map_example_used)
  have "free_list_ok map_example"
    by (rule free_list_okI [where fs = "[5, 6, 7]"])
      (auto simp: map_example_used, auto simp: map_example_def frames_example_def sos_example_def free_entry_def)
  then show "frames_ok map_example" by (simp add: frames_ok_def map_example_def frames_example_def sos_example_def)
  show "frames_fit map_example"
    using example_page_ok [of 0] example_page_nz [of 0] by (simp add: frames_fit_def map_example_sel)
qed

lemma map_example_pt: "pt_ok map_example (example_page 0)"
proof -
  have t: "tree (example_mem 4) (example_page 1)" "tables (example_mem 4) (example_page 1) \<subseteq> example_page ` {1..4}"
    using example_tree [of 3] by (simp_all add: numeral_eq_Suc)
  have r: "load64 (example_mem 4) (example_page 0) = example_page 1" by code_simp
  have n: "example_page 0 \<notin> tables (example_mem 4) (example_page 1)"
  proof
    assume "example_page 0 \<in> tables (example_mem 4) (example_page 1)"
    then have "example_page 0 \<in> example_page ` {1..4}" by (rule subsetD [OF t(2)])
    then obtain k where "1 \<le> k" "k \<le> 4" "example_page 0 = example_page k" by auto
    then show False using example_page_inj [of 0 k] by simp
  qed
  have "\<exists>page. unat page \<in> frames_used (frame_table map_example) \<and> u = page_num_to_vaddr page map_example"
    if "u \<in> insert (example_page 0) (tables (example_mem 4) (example_page 1))" for u
  proof -
    have "u \<in> example_page ` {0..<5}" using that t(2) by fastforce
    then obtain k where k: "k < 5" "u = example_page k" by auto
    then show ?thesis
      by (intro exI [of _ "word_of_nat k"])
        (simp add: map_example_used page_num_to_vaddr_def map_example_sel unat_of_nat64 example_page_def)
  qed
  then show ?thesis
    using t(1) r n example_page_nz [of 0] example_page_ok [of 0] by (simp add: pt_ok_def map_example_sel Let_def)
qed

theorem page_table_insert_correct_witness:
  "\<exists>s'. page_table_insert world_example (example_page 0) 0x1000 7 map_example = Some (0, s') \<and>
     pt_ok s' (example_page 0) \<and> pte_of (mem s') (example_page 0) 0x1000 = 7"
proof -
  have ind: "l1 (get_pt_index 0x1000) = 0" "l2 (get_pt_index 0x1000) = 0" "l3 (get_pt_index 0x1000) = 0" by code_simp+
  have r: "load64 (example_mem 4) (example_page 0) = example_page 1" "load64 (example_mem 4) (example_page 1) = example_page 2"
    "load64 (example_mem 4) (example_page 2) = example_page 3" "load64 (example_mem 4) (example_page 3) = example_page 4"
    by code_simp+
  have nz: "example_page 0 \<noteq> 0" "example_page 1 \<noteq> 0" "example_page 2 \<noteq> 0" "example_page 3 \<noteq> 0" "example_page 4 \<noteq> 0"
    by (simp_all add: example_page_nz)
  have "\<exists>s'. page_table_insert world_example (example_page 0) 0x1000 7 map_example = Some (0, s')"
    by (simp add: page_table_insert_def pt_pgd_def level_get_def pud_slot_def pd_slot_def pt_slot_def map_example_sel
        Let_def ind r [simplified] nz [simplified])
  then obtain s' where s': "page_table_insert world_example (example_page 0) 0x1000 7 map_example = Some (0, s')" by blast
  then show ?thesis
    using page_table_insert_correct [OF map_example_pt map_example_frames _ s'] by (simp add: map_example_sel)
qed

end
