(* ===== verification/Filetable.thy ===== *)
theory Filetable
  imports Observed Pool
begin

text \<open>
  File tables, \<open>sos/src/syscall/filetable.c\<close>, and the system calls on files,
  \<open>sos/src/syscall/file_syscalls.c\<close>. A process owns its table and the table its open files, so
  both are values inside the process; \<open>p_fdt\<close> is \<open>None\<close> for a null pointer, and an empty list
  stands for a table that was freed while the process still points to it, so that every later
  access ends the run.

  A handler gets the pointer of the calling process and reads its arguments from the message
  registers; its result is the number of words of the reply.

  The lemmas show that the descriptors a process holds are distinct, that opening takes the
  lowest one, and that reading and writing never refuse a descriptor because of its mode.
\<close>

section \<open>Definitions\<close>

abbreviation (input) PROCESS_MAX_FILES :: nat where "PROCESS_MAX_FILES \<equiv> 16"

definition fdt_of :: "word64 \<Rightarrow> sos \<Rightarrow> open_file option list option" where
  "fdt_of p s = do { v \<leftarrow> get_proc s p; p_fdt v }"

definition get_file :: "word64 \<Rightarrow> nat \<Rightarrow> sos \<Rightarrow> open_file option option" where
  "get_file p i s = do { fdt \<leftarrow> fdt_of p s; rd fdt i }"

definition set_file :: "word64 \<Rightarrow> nat \<Rightarrow> open_file option \<Rightarrow> sos \<Rightarrow> sos option" where
  "set_file p i f s = do {
     v \<leftarrow> get_proc s p;
     fdt \<leftarrow> p_fdt v;
     fdt \<leftarrow> wr fdt i f;
     Some (set_proc p (v\<lparr>p_fdt := Some fdt\<rparr>) s) }"

definition fdt_create :: "open_file option list" where
  "fdt_create = replicate PROCESS_MAX_FILES None"

definition fdt_destroy :: "world \<Rightarrow> word64 \<Rightarrow> pid_t \<Rightarrow> sos \<Rightarrow> sos option" where
  "fdt_destroy W p pid s = do {
     s \<leftarrow> for_each (\<lambda>i s. do {
            f \<leftarrow> get_file p i s;
            (case f of
               None \<Rightarrow> Some s
             | Some f \<Rightarrow> do {
                 (_, s) \<leftarrow> VOP_RECLAIM W (of_vn f) pid s;
                 set_file p i None s }) }) [0..<PROCESS_MAX_FILES] s;
     upd_proc p (\<lambda>v. v\<lparr>p_fdt := Some []\<rparr>) s }"

definition new_file :: "word64 \<Rightarrow> int \<Rightarrow> open_file" where
  "new_file vn mode = \<lparr>of_vn = vn, of_offset = 0, of_flags = mode, of_refcnt = 1\<rparr>"

text \<open>The loop of \<open>fdt_place\<close>, \<open>n\<close> entries before its end.\<close>

primrec place_loop :: "nat \<Rightarrow> word64 \<Rightarrow> open_file \<Rightarrow> sos \<Rightarrow> ((int \<times> nat) \<times> sos) option" where
  "place_loop 0 p f s = Some ((- 1, 0), s)"
| "place_loop (Suc n) p f s = do {
     let i = PROCESS_MAX_FILES - Suc n;
     e \<leftarrow> get_file p i s;
     if e = None then do { s \<leftarrow> set_file p i (Some f) s; Some ((0, i), s) }
     else place_loop n p f s }"

definition fdt_place :: "word64 \<Rightarrow> word64 \<Rightarrow> int \<Rightarrow> sos \<Rightarrow> ((int \<times> nat) \<times> sos) option" where
  "fdt_place p vn mode s = place_loop PROCESS_MAX_FILES p (new_file vn mode) s"

definition fdt_placeat :: "word64 \<Rightarrow> word64 \<Rightarrow> int \<Rightarrow> nat \<Rightarrow> sos \<Rightarrow> (int \<times> sos) option" where
  "fdt_placeat p vn mode fd s = do {
     s \<leftarrow> set_file p fd (Some (new_file vn mode)) s;
     Some (- 1, s) }"

subsection \<open>System calls on files\<close>

text \<open>An \<open>int\<close> index into the table: a negative one is outside the array.\<close>

definition fd_index :: "int \<Rightarrow> nat option" where
  "fd_index fd = (if fd < 0 then None else Some (nat fd))"

text \<open>The reply of one word.\<close>

definition reply1 :: "word64 \<Rightarrow> sos \<Rightarrow> (int \<times> sos) option" where
  "reply1 w s = Some (1, SetMR 0 w s)"

definition access_refused :: "int \<Rightarrow> int \<Rightarrow> bool" where
  "access_refused how flags \<longleftrightarrow>
     how = O_WRONLY \<and> and flags (c_eq O_ACCMODE O_RDONLY) \<noteq> 0 \<or>
     how = O_RDONLY \<and> and flags (c_eq O_ACCMODE O_WRONLY) \<noteq> 0"

text \<open>
  The open file is read again after the transfer, which may have yielded: the C code uses the
  pointer it got before, which is dangling if the entry is gone.
\<close>

definition transfer :: "world \<Rightarrow> int \<Rightarrow> open_file \<Rightarrow> word64 \<Rightarrow> pid_t \<Rightarrow> sos \<Rightarrow> (int \<times> sos) option" where
  "transfer W how f nbyte pid s =
     (if how = O_WRONLY then VOP_WRITE W (of_vn f) (uio_init UIO_WRITE nbyte (of_offset f) pid) s
      else VOP_READ W (of_vn f) (uio_init UIO_READ nbyte (of_offset f) pid) s)"

definition syscall_readwrite :: "world \<Rightarrow> word64 \<Rightarrow> int \<Rightarrow> sos \<Rightarrow> (int \<times> sos) option" where
  "syscall_readwrite W curproc how s = do {
     let fd = word_to_int32 (GetMR 1 s);
     let nbyte = GetMR 2 s;
     i \<leftarrow> fd_index fd;
     f \<leftarrow> get_file curproc i s;
     (case f of
        None \<Rightarrow> reply1 0 s
      | Some f \<Rightarrow>
          if nbyte = 0 then reply1 0 s
          else if access_refused how (of_flags f) then reply1 0 s
          else do {
            v \<leftarrow> get_proc s curproc;
            if how \<noteq> O_WRONLY \<and> how \<noteq> O_RDONLY then reply1 0 s
            else do {
              (n, s) \<leftarrow> transfer W how f nbyte (p_pid v) s;
              f \<leftarrow> get_file curproc i s;
              f \<leftarrow> f;
              s \<leftarrow> set_file curproc i (Some (f\<lparr>of_offset := of_offset f + word_of_int n\<rparr>)) s;
              reply1 (word_of_int n) s } }) }"

definition syscall_write :: "world \<Rightarrow> word64 \<Rightarrow> sos \<Rightarrow> (int \<times> sos) option" where
  "syscall_write W curproc s = syscall_readwrite W curproc O_WRONLY s"

definition syscall_read :: "world \<Rightarrow> word64 \<Rightarrow> sos \<Rightarrow> (int \<times> sos) option" where
  "syscall_read W curproc s = syscall_readwrite W curproc O_RDONLY s"

text \<open>The path at the start of the shared buffer, copied to an array of \<open>sz\<close> bytes.\<close>

definition user_path :: "word64 \<Rightarrow> word64 \<Rightarrow> sos \<Rightarrow> string option" where
  "user_path curproc sz s = do {
     v \<leftarrow> get_proc s curproc;
     c_string (copyout_bytes (p_pid v) sz s) }"

definition syscall_open :: "world \<Rightarrow> word64 \<Rightarrow> sos \<Rightarrow> (int \<times> sos) option" where
  "syscall_open W curproc s = do {
     let mode = word_to_int32 (GetMR 1 s);
     let sz = GetMR 2 s;
     path \<leftarrow> user_path curproc sz s;
     v \<leftarrow> get_proc s curproc;
     ((err, res), s) \<leftarrow> vfs_open W path mode (p_pid v) s;
     if err \<noteq> 0 then reply1 1 s
     else do {
       vn \<leftarrow> res;
       ((err, fd), s) \<leftarrow> fdt_place curproc vn mode s;
       if err \<noteq> 0 then reply1 1 s
       else Some (2, SetMR 1 (word_of_nat fd) (SetMR 0 0 s)) } }"

definition syscall_close :: "world \<Rightarrow> word64 \<Rightarrow> sos \<Rightarrow> (int \<times> sos) option" where
  "syscall_close W curproc s = do {
     let fd = word_to_int32 (GetMR 1 s);
     i \<leftarrow> fd_index fd;
     f \<leftarrow> get_file curproc i s;
     f \<leftarrow> f;
     v \<leftarrow> get_proc s curproc;
     (_, s) \<leftarrow> VOP_RECLAIM W (of_vn f) (p_pid v) s;
     s \<leftarrow> set_file curproc i None s;
     reply1 0 s }"

text \<open>\<open>int pos\<close> becomes the length of the transfer, a \<open>size_t\<close>.\<close>

definition syscall_getdirent :: "world \<Rightarrow> word64 \<Rightarrow> sos \<Rightarrow> (int \<times> sos) option" where
  "syscall_getdirent W curproc s = do {
     let pos = word_to_int32 (GetMR 1 s);
     v \<leftarrow> get_proc s curproc;
     ((err, res), s) \<leftarrow> vfs_lookup W '''' False (p_pid v) s;
     if err \<noteq> 0 then reply1 0 s
     else do {
       vn \<leftarrow> res;
       (n, s) \<leftarrow> VOP_GETDIRENTRY W vn (uio_init UIO_READ (word_of_int pos) 0 (p_pid v)) s;
       reply1 (word_of_int n) s } }"


text \<open>
  The bytes of \<open>sos_stat_t\<close> as the ABI lays them out; the four bytes of padding before the times
  are taken to be zero.
\<close>

definition word_bytes :: "nat \<Rightarrow> word64 \<Rightarrow> byte list" where
  "word_bytes n w = map (\<lambda>i. ucast (drop_bit (8 * i) w)) [0..<n]"

definition stat_bytes :: "sos_stat_t \<Rightarrow> byte list" where
  "stat_bytes st = word_bytes 4 (word_of_int (st_type st)) @ word_bytes 4 (word_of_int (st_fmode st)) @
     word_bytes 4 (ucast (st_size st)) @ replicate 4 0 @ word_bytes 8 (st_ctime st) @ word_bytes 8 (st_atime st)"

text \<open>\<open>buf\<close> starts uninitialised, and stays so for a zombie, whose stat would copy out garbage.\<close>

definition syscall_stat :: "world \<Rightarrow> word64 \<Rightarrow> sos \<Rightarrow> (int \<times> sos) option" where
  "syscall_stat W curproc s = do {
     let nbyte = GetMR 1 s;
     path \<leftarrow> user_path curproc nbyte s;
     v \<leftarrow> get_proc s curproc;
     ((err, res), s) \<leftarrow> vfs_lookup W '''' False (p_pid v) s;
     if err \<noteq> 0 then reply1 (- 1) s
     else do {
       vn \<leftarrow> res;
       c_assert (p_state v \<noteq> ZOMBIE);
       let buf = \<lparr>st_type = 0, st_fmode = 0, st_size = 0, st_ctime = 0, st_atime = 0\<rparr>;
       ((err, buf), s) \<leftarrow> nfs_get_statbuf W vn path buf (p_pid v) s;
       if err \<noteq> 0 then reply1 (- 1) s
       else do {
         (_, s) \<leftarrow> copyin_bytes (p_pid v) (stat_bytes buf) 32 s;
         reply1 0 s } } }"

section \<open>Lemmas\<close>

subsection \<open>Descriptors\<close>

text \<open>The descriptors a process has in use.\<close>

definition fds :: "word64 \<Rightarrow> sos \<Rightarrow> nat set \<Rightarrow> bool" where
  "fds p s U \<longleftrightarrow> (\<exists>fdt. fdt_of p s = Some fdt \<and> length fdt = PROCESS_MAX_FILES \<and> U = {i. i < PROCESS_MAX_FILES \<and> fdt ! i \<noteq> None})"

lemma fdt_of_set_file:
  assumes "set_file p i f s = Some s'"
  shows "\<exists>fdt. fdt_of p s = Some fdt \<and> i < length fdt \<and> fdt_of p s' = Some (fdt[i := f]) \<and>
    (\<forall>q. q \<noteq> p \<longrightarrow> fdt_of q s' = fdt_of q s)"
proof -
  obtain v fdt where v: "get_proc s p = Some v" "p_fdt v = Some fdt" "i < length fdt"
    "s' = set_proc p (v\<lparr>p_fdt := Some (fdt[i := f])\<rparr>) s"
    using assms by (auto simp: set_file_def bind_eq_Some_conv wr_Some)
  then have "p \<noteq> 0" by auto
  then show ?thesis using v by (simp add: fdt_of_def)
qed

lemma get_file_eq: "get_file p i s = Some f \<longleftrightarrow> (\<exists>fdt. fdt_of p s = Some fdt \<and> i < length fdt \<and> f = fdt ! i)"
  by (auto simp: get_file_def bind_eq_Some_conv rd_Some)

lemma place_loop_effect:
  assumes "place_loop n p f s = Some ((err, fd), s')" "n \<le> PROCESS_MAX_FILES"
  shows "err = - 1 \<and> s' = s \<and> (\<forall>i. PROCESS_MAX_FILES - n \<le> i \<longrightarrow> i < PROCESS_MAX_FILES \<longrightarrow> (\<exists>g. get_file p i s = Some (Some g))) \<or>
    err = 0 \<and> PROCESS_MAX_FILES - n \<le> fd \<and> fd < PROCESS_MAX_FILES \<and> get_file p fd s = Some None \<and>
      (\<forall>i. PROCESS_MAX_FILES - n \<le> i \<longrightarrow> i < fd \<longrightarrow> (\<exists>g. get_file p i s = Some (Some g))) \<and> set_file p fd (Some f) s = Some s'"
  using assms
proof (induction n)
  case (Suc n)
  let ?i = "PROCESS_MAX_FILES - Suc n"
  obtain e where e: "get_file p ?i s = Some e" using Suc.prems by (auto simp: bind_eq_Some_conv Let_def)
  have split: "PROCESS_MAX_FILES - Suc n \<le> j \<longleftrightarrow> j = ?i \<or> PROCESS_MAX_FILES - n \<le> j" for j using Suc.prems(2) by arith
  show ?case
  proof (cases e)
    case None
    then show ?thesis using Suc.prems e by (auto simp: bind_eq_Some_conv Let_def)
  next
    case (Some g)
    then have "place_loop n p f s = Some ((err, fd), s')" using Suc.prems(1) e by (simp add: Let_def)
    from Suc.IH [OF this] Suc.prems(2) show ?thesis
      unfolding split using e Some by auto
  qed
qed simp

lemma fdt_place_fds:
  assumes h: "fds p s U" and pl: "fdt_place p vn mode s = Some ((0, fd), s')"
  shows "fd \<notin> U \<and> (\<forall>i < fd. i \<in> U) \<and> fds p s' (insert fd U)"
proof -
  obtain fdt where t: "fdt_of p s = Some fdt" "length fdt = 16" "U = {i. i < 16 \<and> fdt ! i \<noteq> None}" using h by (auto simp: fds_def)
  have e: "fd < 16" "get_file p fd s = Some None" "set_file p fd (Some (new_file vn mode)) s = Some s'"
    "\<forall>i < fd. \<exists>g. get_file p i s = Some (Some g)"
    using place_loop_effect [OF pl [unfolded fdt_place_def]] by auto
  have "fdt ! fd = None" using e(2) t(1) by (auto simp: get_file_eq)
  moreover have "\<forall>i < fd. fdt ! i \<noteq> None"
  proof (intro allI impI)
    fix i assume "i < fd"
    then obtain g where "get_file p i s = Some (Some g)" using e(4) by blast
    then have "fdt ! i = Some g" using t(1) by (auto simp: get_file_eq)
    then show "fdt ! i \<noteq> None" by simp
  qed
  moreover have "fdt_of p s' = Some (fdt[fd := Some (new_file vn mode)])" using fdt_of_set_file [OF e(3)] t(1) by auto
  ultimately show ?thesis using t e(1) by (auto simp: fds_def nth_list_update)
qed


subsection \<open>What runs in between\<close>

text \<open>
  The file table of the calling process is an observation: while one of its calls waits, no other
  part of SOS opens, closes or moves a file of that process, since it makes no other call
  before the reply. It is the one thing asked of what runs in between; the tables of the other
  processes may change. It rules out that the process is killed while it waits.
\<close>

definition files_stable :: "world \<Rightarrow> word64 \<Rightarrow> bool" where
  "files_stable W p \<longleftrightarrow> (\<forall>e s w s' fdt. yields W e s = Some (w, s') \<longrightarrow> fdt_of p s = Some fdt \<longrightarrow> fdt_of p s' = Some fdt)"

definition files_kept :: "world \<Rightarrow> word64 \<Rightarrow> sos \<Rightarrow> sos \<Rightarrow> bool" where
  "files_kept W p s s' \<longleftrightarrow> files_stable W p \<longrightarrow> (\<forall>fdt. fdt_of p s = Some fdt \<longrightarrow> fdt_of p s' = Some fdt)"

lemma fdt_of_upd_proc:
  assumes "upd_proc p f s = Some s'" "\<And>v. p_fdt (f v) = p_fdt v"
  shows "fdt_of q s' = fdt_of q s"
proof -
  obtain v where v: "get_proc s p = Some v" "s' = set_proc p (f v) s" using assms(1) by (auto simp: upd_proc_def bind_eq_Some_conv)
  then have "p \<noteq> 0" by auto
  then show ?thesis using v assms(2) by (cases "q = p") (simp_all add: fdt_of_def)
qed

lemma fdt_of_cong: "proc_mem s' = proc_mem s \<Longrightarrow> fdt_of p s' = fdt_of p s"
  by (simp add: fdt_of_def get_proc_def)

interpretation files: observed "files_kept W p" W for W p
proof
  fix q s s1 s2 s3
  assume "coro_inc q s = Some s1" "files_kept W p s1 s2" "coro_dec q s2 = Some s3"
  then show "files_kept W p s s3"
    using fdt_of_upd_proc [of q _ s s1] fdt_of_upd_proc [of q _ s2 s3] by (auto simp: files_kept_def coro_inc_def coro_dec_def)
next
  fix e s w s'
  assume "yields W e s = Some (w, s')"
  then show "files_kept W p s s'" unfolding files_kept_def files_stable_def by blast
qed (simp_all add: files_kept_def fdt_of_def get_proc_def set_proc_def)

lemma fds_kept: "files_kept W p s s' \<Longrightarrow> files_stable W p \<Longrightarrow> fds p s U \<Longrightarrow> fds p s' U"
  unfolding files_kept_def fds_def by blast

lemma fdt_of_SetMR [simp]: "fdt_of p (SetMR i w s) = fdt_of p s"
  by (rule fdt_of_cong) (simp add: SetMR_def)

lemma fds_SetMR [simp]: "fds p (SetMR i w s) U = fds p s U"
  by (simp add: fds_def)

lemma word_to_int32_of_int: "- (2 ^ 31) \<le> x \<Longrightarrow> x < 2 ^ 31 \<Longrightarrow> word_to_int32 (word_of_int x) = x"
  by (simp add: word_to_int32_def unsigned_of_int signed_of_int signed_take_bit_take_bit signed_take_bit_int_eq_self)

lemma word_to_int32_nat: "i < 16 \<Longrightarrow> word_to_int32 (word_of_nat i) = int i"
  using word_to_int32_of_int [of "int i"] by simp

lemma close_effect:
  assumes st: "files_stable W p" and h: "fds p s U" and i: "i \<in> U" "GetMR 1 s = word_of_nat i"
    and c: "syscall_close W p s = Some (n, s')"
  shows "n = 1 \<and> GetMR 0 s' = 0 \<and> fds p s' (U - {i})"
proof -
  have i16: "i < 16" using i(1) h by (auto simp: fds_def)
  have "ends (\<lambda>(n, s'). n = 1 \<and> GetMR 0 s' = 0 \<and> fds p s' (U - {i})) (syscall_close W p s)"
    unfolding syscall_close_def i(2) word_to_int32_nat [OF i16] fd_index_def reply1_def
  proof (intro paths, clarsimp)
    fix f v r s1 s2
    assume r: "VOP_RECLAIM W (of_vn f) (p_pid v) s = Some (r, s1)" and sf: "set_file p i None s1 = Some s2"
    have "fds p s1 U" using fds_kept [OF keptD [OF files.VOP_RECLAIM_kept r] st h] by simp
    then obtain fdt where t: "fdt_of p s1 = Some fdt" "length fdt = 16" "U = {i. i < 16 \<and> fdt ! i \<noteq> None}" by (auto simp: fds_def)
    have "fdt_of p s2 = Some (fdt[i := None])" using fdt_of_set_file [OF sf] t(1) by auto
    then show "fds p s2 (U - {i})" using t i16 by (auto simp: fds_def nth_list_update split: if_split_asm)
  qed
  then have "case (n, s') of (n, s') \<Rightarrow> n = 1 \<and> GetMR 0 s' = 0 \<and> fds p s' (U - {i})" by (rule endsD [OF _ c])
  then show ?thesis by simp
qed

lemma open_effect:
  assumes st: "files_stable W p" and h: "fds p s U" and o: "syscall_open W p s = Some (n, s')"
  shows "n = 1 \<and> GetMR 0 s' = 1 \<and> fds p s' U \<or>
    n = 2 \<and> GetMR 0 s' = 0 \<and> (\<exists>fd. GetMR 1 s' = word_of_nat fd \<and> fd < PROCESS_MAX_FILES \<and> fd \<notin> U \<and> {0..<fd} \<subseteq> U \<and> fds p s' (insert fd U))"
proof -
  let ?P = "\<lambda>(n, s'). n = 1 \<and> GetMR 0 s' = 1 \<and> fds p s' U \<or>
    n = 2 \<and> GetMR 0 s' = 0 \<and> (\<exists>fd. GetMR 1 s' = word_of_nat fd \<and> fd < PROCESS_MAX_FILES \<and> fd \<notin> U \<and> {0..<fd} \<subseteq> U \<and> fds p s' (insert fd U))"
  have k: "fds p s1 U" if "vfs_open W path m pid s = Some (r, s1)" for path m pid r s1
    using fds_kept [OF keptD [OF files.vfs_open_kept that] st h] by simp
  have pl: "err = 0 \<and> fd < 16 \<and> fd \<notin> U \<and> {0..<fd} \<subseteq> U \<and> fds p s2 (insert fd U) \<or> err = - 1 \<and> fds p s2 U"
    if "fdt_place p vn m s1 = Some ((err, fd), s2)" "fds p s1 U" for vn m err fd s1 s2
  proof (cases "err = 0")
    case True
    then show ?thesis
      using fdt_place_fds [OF that(2), of vn m fd s2] that(1) place_loop_effect [OF that(1) [unfolded fdt_place_def]]
      by (simp add: subset_eq)
  next
    case False
    then show ?thesis using place_loop_effect [OF that(1) [unfolded fdt_place_def]] that(2) by simp
  qed
  have "ends ?P (syscall_open W p s)"
    unfolding syscall_open_def reply1_def by (intro paths) (auto dest!: k dest: pl)
  then have "?P (n, s')" by (rule endsD [OF _ o])
  then show ?thesis by simp
qed

subsection \<open>Descriptors are a pool\<close>

text \<open>
  A call of the process that opens a file: the message, with the mode and the length of the path,
  and the memory, with the path in the shared buffer, are those of the request.
\<close>

definition open_fd :: "world \<Rightarrow> word64 \<Rightarrow> (nat \<Rightarrow> word64) \<times> (word64 \<Rightarrow> byte) \<Rightarrow> sos \<Rightarrow> (nat option \<times> sos) option" where
  "open_fd W p r s = do {
     (n, s) \<leftarrow> syscall_open W p (s\<lparr>mrs := fst r, mem := snd r\<rparr>);
     Some (if n = 2 then Some (unat (GetMR 1 s)) else None, s) }"

definition close_fd :: "world \<Rightarrow> word64 \<Rightarrow> nat \<Rightarrow> sos \<Rightarrow> sos option" where
  "close_fd W p fd s = do { (_, s) \<leftarrow> syscall_close W p (SetMR 1 (word_of_nat fd) s); Some s }"

lemma open_fd_effect:
  assumes "files_stable W p" "fds p s U" "open_fd W p r s = Some (a, s')"
  shows "(case a of None \<Rightarrow> fds p s' U | Some fd \<Rightarrow> fd \<notin> U \<and> fds p s' (insert fd U))"
proof -
  obtain n where o: "syscall_open W p (s\<lparr>mrs := fst r, mem := snd r\<rparr>) = Some (n, s')"
    and a: "a = (if n = 2 then Some (unat (GetMR 1 s')) else None)"
    using assms(3) by (auto simp: open_fd_def bind_eq_Some_conv)
  have "fds p (s\<lparr>mrs := fst r, mem := snd r\<rparr>) U"
    using assms(2) fdt_of_cong [of "s\<lparr>mrs := fst r, mem := snd r\<rparr>" s p] by (simp add: fds_def)
  from open_effect [OF assms(1) this o] show ?thesis
  proof (elim disjE conjE exE)
    fix fd assume "n = 2" "GetMR 1 s' = word_of_nat fd" "fd < PROCESS_MAX_FILES" "fd \<notin> U" "fds p s' (insert fd U)"
    then show ?thesis using a by (simp add: unsigned_of_nat take_bit_nat_eq_self)
  qed (simp add: a)
qed

interpretation fd_pool: pool "open_fd W p" "close_fd W p" "\<lambda>s U. files_stable W p \<and> fds p s U" for W p
proof
  fix s U r fd s'
  assume "files_stable W p \<and> fds p s U" "open_fd W p r s = Some (Some fd, s')"
  then show "fd \<notin> U" "files_stable W p \<and> fds p s' (insert fd U)" using open_fd_effect [of W p s U r "Some fd" s'] by simp_all
next
  fix s U r s'
  assume "files_stable W p \<and> fds p s U" "open_fd W p r s = Some (None, s')"
  then show "files_stable W p \<and> fds p s' U" using open_fd_effect [of W p s U r None s'] by simp
next
  fix s U fd s'
  assume h: "files_stable W p \<and> fds p s U" and i: "fd \<in> U" and f: "close_fd W p fd s = Some s'"
  then obtain n where "syscall_close W p (SetMR 1 (word_of_nat fd) s) = Some (n, s')" by (auto simp: close_fd_def bind_eq_Some_conv)
  then show "files_stable W p \<and> fds p s' (U - {fd})" using close_effect [of W p "SetMR 1 (word_of_nat fd) s" U fd] h i by simp
qed


section \<open>Properties\<close>

text \<open>
  C15. Whatever files a process opens and closes by \<open>syscall_open\<close> and \<open>syscall_close\<close>, with
  whatever modes and paths, in whatever order, an open that is refused included, the descriptors
  in use are those it got and did not close; descriptors it gets without closing any are
  distinct, and none was in use before. Asked: what runs while one of these calls waits leaves
  the table of this process alone (\<open>files_stable\<close>); the other processes may open and close files.
\<close>

theorem descriptors_distinct:
  assumes "files_stable W p" "fds p s U" "pool_run (open_fd W p) (close_fd W p) ops s U = Some (got, s', U')"
  shows "fds p s' U' \<and> (\<forall>rs. ops = map Get rs \<longrightarrow> distinct got \<and> set got \<inter> U = {} \<and> U' = U \<union> set got)"
proof -
  have "distinct got \<and> set got \<inter> U = {} \<and> U' = U \<union> set got" if "ops = map Get rs" for rs
    using fd_pool.gets_distinct [OF conjI [OF assms(1,2)]] assms(3) that by blast
  then show ?thesis using fd_pool.run_held [OF conjI [OF assms(1,2)] assms(3)] by blast
qed

text \<open>
  C16. Opening a file either fails, replying 1 and leaving the descriptors alone, or replies 0 and
  the lowest descriptor that was free, which then is in use. Asked: what runs while the call waits
  leaves the table of the process alone (\<open>files_stable\<close>).
\<close>

theorem syscall_open_lowest:
  assumes "files_stable W p" "fds p s U" "syscall_open W p s = Some (n, s')"
  shows "n = 1 \<and> GetMR 0 s' = 1 \<and> fds p s' U \<or>
    n = 2 \<and> GetMR 0 s' = 0 \<and> (\<exists>fd. GetMR 1 s' = word_of_nat fd \<and> fd < PROCESS_MAX_FILES \<and> fd \<notin> U \<and> {0..<fd} \<subseteq> U \<and> fds p s' (insert fd U))"
  using assms by (rule open_effect)

text \<open>
  C17. Reading and writing an open file, whatever its mode, transfers bytes and advances the
  offset by the number the file system returned, which is also the reply. No mode refuses the
  access, and an error (-1) moves the offset back by one. Asked: what runs while the call waits
  leaves the table of the process alone (\<open>files_stable\<close>).
\<close>

theorem readwrite_advances:
  assumes st: "files_stable W p" and f: "get_file p i s = Some (Some f)" and i: "GetMR 1 s = word_of_nat i" "i < PROCESS_MAX_FILES"
    and n: "GetMR 2 s \<noteq> 0" and how: "how = O_RDONLY \<or> how = O_WRONLY" and r: "syscall_readwrite W p how s = Some (m, s')"
  shows "m = 1 \<and> (\<exists>v k s1. get_proc s p = Some v \<and> transfer W how f (GetMR 2 s) (p_pid v) s = Some (k, s1) \<and>
      GetMR 0 s' = word_of_int k \<and> get_file p i s' = Some (Some (f\<lparr>of_offset := of_offset f + word_of_int k\<rparr>)))"
proof -
  have na: "\<not> access_refused how (of_flags f)" by (simp add: access_refused_def c_eq_def)
  have hw: "\<not> (how \<noteq> O_WRONLY \<and> how \<noteq> O_RDONLY)" using how by auto
  obtain v k s1 g s2 where v: "get_proc s p = Some v"
    and op: "transfer W how f (GetMR 2 s) (p_pid v) s = Some (k, s1)"
    and g: "get_file p i s1 = Some (Some g)" "set_file p i (Some (g\<lparr>of_offset := of_offset g + word_of_int k\<rparr>)) s1 = Some s2"
    and s': "m = 1" "s' = SetMR 0 (word_of_int k) s2"
    using r unfolding syscall_readwrite_def Let_def i(1) word_to_int32_nat [OF i(2)] reply1_def
    by (simp add: fd_index_def f n na hw bind_eq_Some_conv) auto
  have "files_kept W p s s1"
    using op keptD [OF files.VOP_kept(1)] keptD [OF files.VOP_kept(2)] unfolding transfer_def by (cases "how = O_WRONLY") simp_all
  then have "get_file p i s1 = Some (Some f)" using st f unfolding files_kept_def get_file_eq by blast
  then have gf: "g = f" using g(1) by simp
  obtain fdt where "i < length fdt" "fdt_of p s2 = Some (fdt[i := Some (g\<lparr>of_offset := of_offset g + word_of_int k\<rparr>)])"
    using fdt_of_set_file [OF g(2)] by blast
  then have "get_file p i s' = Some (Some (f\<lparr>of_offset := of_offset f + word_of_int k\<rparr>))"
    using s'(2) gf by (simp add: get_file_eq)
  then show ?thesis using v op s' by auto
qed


section \<open>Witnesses\<close>

text \<open>A process with one open file, whose shared buffer has the path of the console.\<close>

definition files_example :: sos where
  "files_example = vfs_example\<lparr>
     proc_mem := [0x1000 \<mapsto> (fresh_proc world_example 0)\<lparr>p_fdt := Some (fdt_create[1 := Some (new_file 0x3000 0)])\<rparr>],
     mem := store_list (\<lambda>_. 0) 0x80000100000 (string_bytes ''console''),
     mrs := (\<lambda>i. if i = 0 then 0 else if i = 1 then 1 else 16)\<rparr>"

lemma files_example_fds: "fds 0x1000 files_example {1}"
  by (auto simp: fds_def fdt_of_def files_example_def get_proc_def world_example_def fdt_create_def new_file_def
      nth_list_update split: if_split_asm)

lemma world_example_files: "files_stable world_example p"
  by (simp add: files_stable_def world_example_def)

text \<open>A request to open the console.\<close>

definition console_request :: "(nat \<Rightarrow> word64) \<times> (word64 \<Rightarrow> byte)" where
  "console_request = (mrs files_example, mem files_example)"

theorem descriptors_distinct_witness:
  "\<exists>s'. pool_run (open_fd world_example 0x1000) (close_fd world_example 0x1000)
       [Get console_request, Get console_request, Put 0] files_example {1} = Some ([0, 2], s', {1, 2}) \<and> fds 0x1000 s' {1, 2}"
proof -
  let ?run = "pool_run (open_fd world_example 0x1000) (close_fd world_example 0x1000)
    [Get console_request, Get console_request, Put 0] files_example {1}"
  have "(case ?run of Some (got, s', U) \<Rightarrow> got = [0, 2] \<and> U = {1, 2} | None \<Rightarrow> False)" by code_simp
  then obtain s' where s': "?run = Some ([0, 2], s', {1, 2})" by (auto split: option.splits)
  then show ?thesis using descriptors_distinct [OF world_example_files files_example_fds s'] by simp
qed

theorem syscall_open_lowest_witness:
  "\<exists>s'. syscall_open world_example 0x1000 files_example = Some (2, s') \<and> GetMR 1 s' = 0 \<and> fds 0x1000 s' {0, 1}"
proof -
  have "(case syscall_open world_example 0x1000 files_example of Some (n, s') \<Rightarrow> n = 2 \<and> GetMR 1 s' = 0 | None \<Rightarrow> False)"
    by code_simp
  then obtain s' where s': "syscall_open world_example 0x1000 files_example = Some (2, s')" "GetMR 1 s' = 0" by (auto split: option.splits)
  then show ?thesis using syscall_open_lowest [OF world_example_files files_example_fds s'(1)] by (auto simp: word_of_nat_eq_0_iff)
qed

theorem readwrite_advances_witness:
  "\<exists>s'. syscall_readwrite world_example 0x1000 0 files_example = Some (1, s') \<and> GetMR 0 s' = - 1 \<and>
     get_file 0x1000 1 s' = Some (Some ((new_file 0x3000 0)\<lparr>of_offset := - 1\<rparr>))"
proof -
  have "(case syscall_readwrite world_example 0x1000 0 files_example of Some (n, s') \<Rightarrow> n = 1 \<and> GetMR 0 s' = - 1 | None \<Rightarrow> False)"
    by code_simp
  then obtain s' where s': "syscall_readwrite world_example 0x1000 0 files_example = Some (1, s')" "GetMR 0 s' = - 1"
    by (auto split: option.splits)
  have f: "get_file 0x1000 1 files_example = Some (Some (new_file 0x3000 0))"
    by (simp add: get_file_eq fdt_of_def files_example_def get_proc_def world_example_def fdt_create_def new_file_def)
  show ?thesis
    using readwrite_advances [OF world_example_files f _ _ _ _ s'(1)] s' by (auto simp: files_example_def GetMR_def new_file_def)
qed

end
