(* ===== verification/Cpio.thy ===== *)
theory Cpio
  imports Sharedbuf
begin

text \<open>
  The archive of programs that is linked into SOS: \<open>projects/libcpio/src/cpio.c\<close>, which
  \<open>proc_start\<close> uses to find the image of the first process. The functions read an archive
  in the memory \<open>m\<close>; names that the callers pass are strings, with their terminating zero where the
  code reads it.

  The lemmas show that the search finds in an archive written in the cpio format exactly the
  files it holds, with their sizes and contents, and ends.
\<close>

section \<open>Definitions\<close>

abbreviation (input) CPIO_HEADER_MAGIC :: string where "CPIO_HEADER_MAGIC \<equiv> ''070701''"
abbreviation (input) CPIO_FOOTER_MAGIC :: string where "CPIO_FOOTER_MAGIC \<equiv> ''TRAILER!!!''"
abbreviation (input) CPIO_ALIGNMENT :: word64 where "CPIO_ALIGNMENT \<equiv> 4"

definition align_up :: "word64 \<Rightarrow> word64 \<Rightarrow> word64" where
  "align_up n align = and (n + align - 1) (not (align - 1))"

primrec parse_hex_loop :: "nat \<Rightarrow> (word64 \<Rightarrow> byte) \<Rightarrow> word64 \<Rightarrow> word64 \<Rightarrow> word64" where
  "parse_hex_loop 0 m a r = r"
| "parse_hex_loop (Suc n) m a r =
     (let r = r * 16; c = m a
      in if c \<ge> 0x30 \<and> c \<le> 0x39 then parse_hex_loop n m (a + 1) (r + ucast (c - 0x30))
         else if c \<ge> 0x61 \<and> c \<le> 0x66 then parse_hex_loop n m (a + 1) (r + ucast (c - 0x61) + 10)
         else if c \<ge> 0x41 \<and> c \<le> 0x46 then parse_hex_loop n m (a + 1) (r + ucast (c - 0x41) + 10)
         else r)"

definition parse_hex_str :: "(word64 \<Rightarrow> byte) \<Rightarrow> word64 \<Rightarrow> nat \<Rightarrow> word64" where
  "parse_hex_str m s max_len = parse_hex_loop max_len m s 0"

text \<open>The second string is a list of bytes with its terminating zero; reading past its end is \<open>None\<close>.\<close>

fun cpio_strncmp :: "(word64 \<Rightarrow> byte) \<Rightarrow> word64 \<Rightarrow> byte list \<Rightarrow> word64 \<Rightarrow> int option" where
  "cpio_strncmp m a [] n = (if n = 0 then Some 0 else None)"
| "cpio_strncmp m a (b # bs) n =
     (if n = 0 then Some 0
      else if m a \<noteq> b then Some (uint (m a) - uint b)
      else if m a = 0 then Some 0
      else cpio_strncmp m (a + 1) bs (n - 1))"

partial_function (option) cpio_strcpy :: "word64 \<Rightarrow> word64 \<Rightarrow> (word64 \<Rightarrow> byte) \<Rightarrow> (word64 \<Rightarrow> byte) option" where
  "cpio_strcpy to from m = (if m from = 0 then Some m else cpio_strcpy (to + 1) (from + 1) (m(to := m from)))"

declare cpio_strcpy.simps [code]

partial_function (option) strlen_walk :: "(word64 \<Rightarrow> byte) \<Rightarrow> word64 \<Rightarrow> word64 option" where
  "strlen_walk m s = (if m s = 0 then Some s else strlen_walk m (s + 1))"

declare strlen_walk.simps [code]

definition cpio_strlen :: "(word64 \<Rightarrow> byte) \<Rightarrow> word64 \<Rightarrow> word32 option" where
  "cpio_strlen m str = do { s \<leftarrow> strlen_walk m str; Some (ucast (s - str)) }"

text \<open>
  \<open>struct cpio_header\<close> is 110 bytes of ASCII: the magic at 0, the file size at 54 and the size of the
  name at 94. The results of \<open>cpio_parse_header\<close>: -1, 1, or 0 with the addresses of the name, the
  data and the next header.
\<close>

datatype (plugins only: code size) cpio_parsed =
    Cpio_bad
  | Cpio_eof
  | Cpio_entry (cp_name: word64) (cp_size: word64) (cp_data: word64) (cp_next: word64)

definition cpio_parse_header :: "(word64 \<Rightarrow> byte) \<Rightarrow> word64 \<Rightarrow> cpio_parsed option" where
  "cpio_parse_header m archive = do {
     c \<leftarrow> cpio_strncmp m archive (string_bytes CPIO_HEADER_MAGIC) 6;
     if c \<noteq> 0 then Some Cpio_bad
     else do {
       let filesize = parse_hex_str m (archive + 54) 8;
       let filename = archive + 110;
       c \<leftarrow> cpio_strncmp m filename (string_bytes CPIO_FOOTER_MAGIC) 11;
       if c = 0 then Some Cpio_eof
       else do {
         let filename_length = parse_hex_str m (archive + 94) 8;
         let data = align_up (archive + 110 + filename_length) CPIO_ALIGNMENT;
         let next = align_up (data + filesize) CPIO_ALIGNMENT;
         Some (Cpio_entry filename filesize data next) } } }"

text \<open>The loop of \<open>cpio_get_entry\<close>, \<open>k\<close> entries before its end; the inner \<open>None\<close> is the result \<open>NULL\<close>.\<close>

primrec get_entry_loop ::
  "nat \<Rightarrow> (word64 \<Rightarrow> byte) \<Rightarrow> word64 \<Rightarrow> (word64 \<times> word64 \<times> word64) option \<Rightarrow> (word64 \<times> word64 \<times> word64) option option" where
  "get_entry_loop 0 m header result = Some result"
| "get_entry_loop (Suc k) m header result = do {
     e \<leftarrow> cpio_parse_header m header;
     (case e of
        Cpio_entry name sz data next \<Rightarrow> get_entry_loop k m next (Some (data, name, sz))
      | _ \<Rightarrow> Some None) }"

definition cpio_get_entry :: "(word64 \<Rightarrow> byte) \<Rightarrow> word64 \<Rightarrow> int \<Rightarrow> (word64 \<times> word64 \<times> word64) option option" where
  "cpio_get_entry m archive n = get_entry_loop (nat (n + 1)) m archive None"

partial_function (option) cpio_get_file ::
  "(word64 \<Rightarrow> byte) \<Rightarrow> word64 \<Rightarrow> string \<Rightarrow> (word64 \<times> word64) option option" where
  "cpio_get_file m header name = do {
     e \<leftarrow> cpio_parse_header m header;
     (case e of
        Cpio_entry filename sz data next \<Rightarrow> do {
          c \<leftarrow> cpio_strncmp m filename (string_bytes name) (- 1);
          if c = 0 then Some (Some (data, sz)) else cpio_get_file m next name }
      | _ \<Rightarrow> Some None) }"

declare cpio_get_file.simps [code]

record cpio_info_t =
  file_count :: word32
  max_path_sz :: word32

partial_function (option) cpio_info_loop :: "(word64 \<Rightarrow> byte) \<Rightarrow> word64 \<Rightarrow> cpio_info_t \<Rightarrow> (int \<times> cpio_info_t) option" where
  "cpio_info_loop m header info = do {
     e \<leftarrow> cpio_parse_header m header;
     (case e of
        Cpio_bad \<Rightarrow> Some (- 1, info)
      | Cpio_eof \<Rightarrow> Some (0, info)
      | Cpio_entry filename sz data next \<Rightarrow> do {
          n \<leftarrow> cpio_strlen m filename;
          cpio_info_loop m next
            (info\<lparr>file_count := file_count info + 1, max_path_sz := (if n > max_path_sz info then n else max_path_sz info)\<rparr>) }) }"

declare cpio_info_loop.simps [code]

definition cpio_info :: "(word64 \<Rightarrow> byte) \<Rightarrow> word64 \<Rightarrow> (int \<times> cpio_info_t) option" where
  "cpio_info m archive = cpio_info_loop m archive \<lparr>file_count = 0, max_path_sz = 0\<rparr>"

primrec cpio_ls_loop :: "nat \<Rightarrow> word64 \<Rightarrow> word64 \<Rightarrow> (word64 \<Rightarrow> byte) \<Rightarrow> (word64 \<Rightarrow> byte) option" where
  "cpio_ls_loop 0 header buf m = Some m"
| "cpio_ls_loop (Suc n) header buf m = do {
     e \<leftarrow> cpio_parse_header m header;
     (case e of
        Cpio_entry filename sz data next \<Rightarrow> do {
          m \<leftarrow> cpio_strcpy (load64 m buf) filename m;
          cpio_ls_loop n next (buf + 8) m }
      | _ \<Rightarrow> Some m) }"

definition cpio_ls :: "word64 \<Rightarrow> word64 \<Rightarrow> word64 \<Rightarrow> (word64 \<Rightarrow> byte) \<Rightarrow> (word64 \<Rightarrow> byte) option" where
  "cpio_ls archive buf buf_len m = cpio_ls_loop (unat buf_len) archive buf m"

section \<open>Bytes in memory\<close>

definition mem_at :: "(word64 \<Rightarrow> byte) \<Rightarrow> word64 \<Rightarrow> byte list \<Rightarrow> bool" where
  "mem_at m a bs \<longleftrightarrow> (\<forall>i < length bs. m (a + word_of_nat i) = bs ! i)"

lemma mem_at_Nil [simp]: "mem_at m a []"
  by (simp add: mem_at_def)

lemma mem_at_Cons [simp]: "mem_at m a (b # bs) \<longleftrightarrow> m a = b \<and> mem_at m (a + 1) bs"
proof -
  have "(\<forall>i < Suc (length bs). m (a + word_of_nat i) = (b # bs) ! i) \<longleftrightarrow>
      m a = b \<and> (\<forall>i < length bs. m (a + 1 + word_of_nat i) = bs ! i)"
    by (simp add: All_less_Suc2 add.assoc)
  then show ?thesis by (simp add: mem_at_def)
qed

lemma mem_at_append: "mem_at m a (xs @ ys) \<longleftrightarrow> mem_at m a xs \<and> mem_at m (a + word_of_nat (length xs)) ys"
  by (induction xs arbitrary: a) (simp_all add: add.assoc)

lemma mem_at_load: "mem_at m a bs \<longleftrightarrow> load_list m a (length bs) = bs"
  unfolding mem_at_def load_list_def list_eq_iff_nth_eq by simp

section \<open>Comparing names\<close>

text \<open>The bytes of a string without its terminating zero.\<close>

definition chars :: "string \<Rightarrow> byte list" where
  "chars cs = map (\<lambda>c. word_of_nat (of_char c)) cs"

lemma string_bytes_chars: "string_bytes cs = chars cs @ [0]"
  by (simp add: string_bytes_def chars_def)

lemma chars_simps [simp]: "chars [] = []" "chars (c # cs) = word_of_nat (of_char c) # chars cs"
  by (simp_all add: chars_def)

lemma char_byte_inj: "(word_of_nat (of_char c) :: byte) = word_of_nat (of_char d) \<Longrightarrow> c = d"
proof -
  assume e: "(word_of_nat (of_char c) :: byte) = word_of_nat (of_char d)"
  have "char_of (unat (word_of_nat (of_char c) :: byte)) = (char_of (unat (word_of_nat (of_char d) :: byte)) :: char)"
    by (simp only: e)
  then show "c = d" by (simp only: char_of_byte)
qed

lemma char_byte_nz: "c \<noteq> CHR 0x00 \<Longrightarrow> (word_of_nat (of_char c) :: byte) \<noteq> 0"
proof
  assume c: "c \<noteq> CHR 0x00" and z: "(word_of_nat (of_char c) :: byte) = 0"
  have "(word_of_nat (of_char (CHR 0x00)) :: byte) = 0" by simp
  then show False using char_byte_inj [OF trans [OF z], of "CHR 0x00"] c by simp
qed

lemma uint_diff_zero [simp]: "uint (x :: byte) - uint y = 0 \<longleftrightarrow> x = y" "uint (x :: byte) = 0 \<longleftrightarrow> x = 0"
  by (simp_all add: word_uint_eq_iff)

text \<open>Two strings compare equal exactly if they are, unless the limit cuts both short.\<close>

lemma strncmp_strings:
  assumes "mem_at m a (string_bytes xs)" "CHR 0x00 \<notin> set xs" "CHR 0x00 \<notin> set ys" "length ys < unat n"
  shows "\<exists>c. cpio_strncmp m a (string_bytes ys) n = Some c \<and> (c = 0 \<longleftrightarrow> xs = ys)"
  using assms
proof (induction ys arbitrary: xs a n)
  case Nil
  have n: "n \<noteq> 0" using Nil.prems(4) by auto
  show ?case
  proof (cases xs)
    case (Cons x zs)
    then have "m a \<noteq> 0" using Nil.prems char_byte_nz [of x] by (auto simp: string_bytes_chars)
    then show ?thesis using Cons n by (simp add: string_bytes_chars)
  qed (use Nil.prems n in \<open>simp add: string_bytes_chars\<close>)
next
  case (Cons y ys)
  have n0: "n \<noteq> 0" using Cons.prems(4) by auto
  note n = n0 unat_minus_one [OF n0]
  show ?case
  proof (cases xs)
    case Nil
    then have "m a = 0" "(word_of_nat (of_char y) :: byte) \<noteq> 0"
      using Cons.prems char_byte_nz [of y] by (auto simp: string_bytes_chars)
    then show ?thesis using n Nil by (simp add: string_bytes_chars)
  next
    case (Cons x zs)
    show ?thesis
    proof (cases "x = y")
      case True
      have "\<exists>c. cpio_strncmp m (a + 1) (string_bytes ys) (n - 1) = Some c \<and> (c = 0 \<longleftrightarrow> zs = ys)"
        by (rule Cons.IH) (use Cons.prems Cons n in \<open>simp_all add: string_bytes_chars\<close>)
      moreover have "m a = word_of_nat (of_char y)" "m a \<noteq> 0"
        using Cons True Cons.prems(1,2) char_byte_nz [of y] by (auto simp: string_bytes_chars)
      ultimately show ?thesis using Cons True n by (simp add: string_bytes_chars)
    next
      case False
      then have "m a \<noteq> word_of_nat (of_char y)" using Cons Cons.prems(1) char_byte_inj [of x y] by (auto simp: string_bytes_chars)
      then show ?thesis using n Cons False by (simp add: string_bytes_chars word_uint_eq_iff)
    qed
  qed
qed

lemma strncmp_prefix:
  "mem_at m a (chars ys) \<Longrightarrow> CHR 0x00 \<notin> set ys \<Longrightarrow> n = word_of_nat (length ys) \<Longrightarrow> length ys < 2 ^ 64 \<Longrightarrow>
     cpio_strncmp m a (string_bytes ys) n = Some 0"
proof (induction ys arbitrary: a n)
  case (Cons y ys)
  have "unat n = Suc (length ys)" using Cons.prems(3,4) unat_of_nat64 [of "Suc (length ys)"] by simp
  then have n: "n \<noteq> 0" by auto
  have "cpio_strncmp m (a + 1) (string_bytes ys) (n - 1) = Some 0" by (rule Cons.IH) (use Cons.prems in simp_all)
  moreover have "m a = word_of_nat (of_char y)" "m a \<noteq> 0" using Cons.prems(1,2) char_byte_nz [of y] by auto
  ultimately show ?case using n by (simp add: string_bytes_chars)
qed (simp add: string_bytes_chars)

section \<open>Numbers in hexadecimal\<close>

definition hex_digit :: "nat \<Rightarrow> byte" where
  "hex_digit d = word_of_nat (if d < 10 then 0x30 + d else 0x57 + d)"

primrec hex :: "nat \<Rightarrow> nat \<Rightarrow> byte list" where
  "hex 0 v = []"
| "hex (Suc n) v = hex_digit (v div 16 ^ n mod 16) # hex n v"

lemma hex_length [simp]: "length (hex n v) = n"
  by (induction n) simp_all

lemma hex_digit_cases:
  "d < 16 \<Longrightarrow> (hex_digit d \<ge> 0x30 \<and> hex_digit d \<le> 0x39 \<and> ucast (hex_digit d - 0x30) = (word_of_nat d :: word64)) \<or>
     (\<not> (hex_digit d \<ge> 0x30 \<and> hex_digit d \<le> 0x39) \<and> hex_digit d \<ge> 0x61 \<and> hex_digit d \<le> 0x66 \<and>
       ucast (hex_digit d - 0x61) + 10 = (word_of_nat d :: word64))"
proof -
  assume "d < 16"
  then have "d = 0 \<or> d = 1 \<or> d = 2 \<or> d = 3 \<or> d = 4 \<or> d = 5 \<or> d = 6 \<or> d = 7 \<or> d = 8 \<or> d = 9 \<or> d = 10 \<or> d = 11 \<or>
      d = 12 \<or> d = 13 \<or> d = 14 \<or> d = 15" by arith
  then show ?thesis by (elim disjE) (simp_all add: hex_digit_def)
qed

lemma parse_hex_loop_hex:
  "mem_at m a (hex n v) \<Longrightarrow> parse_hex_loop n m a r = r * 16 ^ n + word_of_nat (v mod 16 ^ n)"
proof (induction n arbitrary: a r)
  case (Suc n)
  let ?d = "v div 16 ^ n mod 16"
  have c: "m a = hex_digit ?d" "mem_at m (a + 1) (hex n v)" using Suc.prems by simp_all
  have "parse_hex_loop (Suc n) m a r = parse_hex_loop n m (a + 1) (r * 16 + word_of_nat ?d)"
    using hex_digit_cases [of ?d] c(1) by (auto simp: Let_def add.assoc)
  also have "\<dots> = (r * 16 + word_of_nat ?d) * 16 ^ n + word_of_nat (v mod 16 ^ n)" by (rule Suc.IH [OF c(2)])
  also have "\<dots> = r * 16 ^ Suc n + word_of_nat (?d * 16 ^ n + v mod 16 ^ n)" by (simp add: algebra_simps)
  also have "?d * 16 ^ n + v mod 16 ^ n = v mod 16 ^ Suc n"
    using mod_mult2_eq [of v "16 ^ n" 16] by (simp only: power_Suc2 mult.commute [of "16 ^ n"])
  finally show ?case .
qed simp

lemma parse_hex_str_hex: "mem_at m a (hex 8 v) \<Longrightarrow> v < 16 ^ 8 \<Longrightarrow> parse_hex_str m a 8 = word_of_nat v"
  unfolding parse_hex_str_def by (simp only: parse_hex_loop_hex mod_less mult_zero_left add_0)


section \<open>Archives\<close>

definition round4 :: "nat \<Rightarrow> nat" where
  "round4 n = 4 * ((n + 3) div 4)"

lemma round4_ge: "n \<le> round4 n" "4 dvd round4 n" "round4 n \<le> n + 3"
  unfolding round4_def by simp_all

lemma and_not_mask: "and x (not (mask n)) = push_bit n (drop_bit n (x :: word64))"
  by (rule bit_word_eqI) (auto simp: bit_simps)

lemma and_not_3: "and x (not 3) = push_bit 2 (drop_bit 2 (x :: word64))"
proof -
  have "(3 :: word64) = mask 2" by (simp add: mask_eq_exp_minus_1)
  then show ?thesis by (simp only: and_not_mask)
qed

lemma align_up_4:
  assumes "aligned 2 a" "unat a + n + 3 < 2 ^ 64"
  shows "align_up (a + word_of_nat n) 4 = a + word_of_nat (round4 n)"
proof -
  obtain q where q: "unat a = 4 * q" using assms(1) by (auto simp: aligned_def)
  have n: "unat (word_of_nat n :: word64) = n" using assms(2) by (intro unat_of_nat64) simp
  have x: "unat (a + word_of_nat n + 3) = unat a + n + 3" using assms(2) n by (simp add: unat_add64)
  have "unat (push_bit 2 (drop_bit 2 (a + word_of_nat n + 3))) = 4 * ((unat a + n + 3) div 4)"
  proof -
    have "unat (drop_bit 2 (a + word_of_nat n + 3)) = (unat a + n + 3) div 4" by (subst unat_drop_bit_eq) (simp only: x drop_bit_eq_div, simp)
    moreover have "4 * ((unat a + n + 3) div 4) < 2 ^ 64" using assms(2) by simp
    ultimately show ?thesis by (simp add: push_bit_eq_mult unat_mult64)
  qed
  also have "\<dots> = unat a + round4 n" using div_mult_self2 [of 4 "n + 3" q] by (simp add: q round4_def add.assoc)
  finally have u: "unat (push_bit 2 (drop_bit 2 (a + word_of_nat n + 3))) = unat a + round4 n" .
  have al: "align_up (a + word_of_nat n) 4 = push_bit 2 (drop_bit 2 (a + word_of_nat n + 3))"
    using and_not_3 [of "a + word_of_nat n + 3"] by (simp add: align_up_def algebra_simps)
  have "unat (align_up (a + word_of_nat n) 4) = unat a + round4 n" unfolding al by (rule u)
  moreover have "unat (a + word_of_nat (round4 n)) = unat a + round4 n"
    using assms(2) round4_ge(3) [of n] by (subst unat_add64) (simp_all add: unat_of_nat64)
  ultimately show ?thesis by (simp add: word_unat_eq_iff)
qed

text \<open>A file of an archive; the other fields of its header are any bytes.\<close>

record cpio_file =
  cf_name :: string
  cf_data :: "byte list"
  cf_meta1 :: "byte list"
  cf_meta2 :: "byte list"
  cf_meta3 :: "byte list"

definition cpio_file_ok :: "cpio_file \<Rightarrow> bool" where
  "cpio_file_ok f \<longleftrightarrow> length (cf_meta1 f) = 48 \<and> length (cf_meta2 f) = 32 \<and> length (cf_meta3 f) = 8 \<and>
     CHR 0x00 \<notin> set (cf_name f) \<and> cf_name f \<noteq> CPIO_FOOTER_MAGIC \<and>
     length (cf_name f) + 1 < 16 ^ 8 \<and> length (cf_data f) < 16 ^ 8"

definition name_end :: "cpio_file \<Rightarrow> nat" where
  "name_end f = 110 + (length (cf_name f) + 1)"

definition entry_bytes :: "cpio_file \<Rightarrow> byte list" where
  "entry_bytes f = chars CPIO_HEADER_MAGIC @ cf_meta1 f @ hex 8 (length (cf_data f)) @ cf_meta2 f @
     hex 8 (length (cf_name f) + 1) @ cf_meta3 f @ string_bytes (cf_name f) @ replicate (round4 (name_end f) - name_end f) 0 @
     cf_data f @ replicate (round4 (length (cf_data f)) - length (cf_data f)) 0"

definition archive_bytes :: "byte list \<Rightarrow> cpio_file list \<Rightarrow> byte list" where
  "archive_bytes meta fs = concat (map entry_bytes fs) @ chars CPIO_HEADER_MAGIC @ meta @ string_bytes CPIO_FOOTER_MAGIC"

lemma string_bytes_length [simp]: "length (string_bytes cs) = length cs + 1" "length (chars cs) = length cs"
  by (simp_all add: string_bytes_def chars_def)

lemma entry_bytes_length:
  "cpio_file_ok f \<Longrightarrow> length (entry_bytes f) = round4 (name_end f) + round4 (length (cf_data f))"
  using round4_ge(1) [of "name_end f"] round4_ge(1) [of "length (cf_data f)"]
  by (simp add: entry_bytes_def cpio_file_ok_def name_end_def)

text \<open>The parts of an entry in memory.\<close>

lemma entry_parts:
  assumes "mem_at m a (entry_bytes f)" "cpio_file_ok f"
  shows "mem_at m a (chars CPIO_HEADER_MAGIC)" "mem_at m (a + 54) (hex 8 (length (cf_data f)))"
    "mem_at m (a + 94) (hex 8 (length (cf_name f) + 1))" "mem_at m (a + 110) (string_bytes (cf_name f))"
    "mem_at m (a + word_of_nat (round4 (name_end f))) (cf_data f)"
proof -
  have n: "name_end f + (round4 (name_end f) - name_end f) = round4 (name_end f)" using round4_ge(1) [of "name_end f"] by simp
  note m = assms(1) [unfolded entry_bytes_def mem_at_append]
  show "mem_at m a (chars CPIO_HEADER_MAGIC)" using m by blast
  show "mem_at m (a + 54) (hex 8 (length (cf_data f)))" using m assms(2) by (simp add: cpio_file_ok_def add.assoc)
  show "mem_at m (a + 94) (hex 8 (length (cf_name f) + 1))" using m assms(2) by (simp add: cpio_file_ok_def add.assoc)
  show "mem_at m (a + 110) (string_bytes (cf_name f))" using m assms(2) by (simp add: cpio_file_ok_def add.assoc)
  have "mem_at m (a + word_of_nat (name_end f + (round4 (name_end f) - name_end f))) (cf_data f)"
    using m assms(2) by (simp add: cpio_file_ok_def add.assoc name_end_def)
  then show "mem_at m (a + word_of_nat (round4 (name_end f))) (cf_data f)" by (simp only: n)
qed


lemma parse_entry:
  assumes m: "mem_at m a (entry_bytes f)" and f: "cpio_file_ok f" and a: "aligned 2 a"
    and fits: "unat a + length (entry_bytes f) + 4 < 2 ^ 64"
  shows "cpio_parse_header m a = Some (Cpio_entry (a + 110) (word_of_nat (length (cf_data f)))
    (a + word_of_nat (round4 (name_end f))) (a + word_of_nat (length (entry_bytes f))))"
proof -
  note p = entry_parts [OF m f]
  note len = entry_bytes_length [OF f]
  have magic: "cpio_strncmp m a (string_bytes CPIO_HEADER_MAGIC) 6 = Some 0" by (rule strncmp_prefix [OF p(1)]) simp_all
  obtain c where c: "cpio_strncmp m (a + 110) (string_bytes CPIO_FOOTER_MAGIC) 11 = Some c" "c \<noteq> 0"
    using strncmp_strings [OF p(4), of CPIO_FOOTER_MAGIC 11] f by (auto simp: cpio_file_ok_def)
  have sz: "parse_hex_str m (a + 54) 8 = word_of_nat (length (cf_data f))"
    by (rule parse_hex_str_hex [OF p(2)]) (use f in \<open>simp add: cpio_file_ok_def\<close>)
  have nl: "parse_hex_str m (a + 94) 8 = word_of_nat (length (cf_name f) + 1)"
    by (rule parse_hex_str_hex [OF p(3)]) (use f in \<open>simp add: cpio_file_ok_def\<close>)
  have ne: "a + 110 + word_of_nat (length (cf_name f) + 1) = a + word_of_nat (name_end f)"
    by (simp add: name_end_def algebra_simps)
  have da: "align_up (a + word_of_nat (name_end f)) 4 = a + word_of_nat (round4 (name_end f))"
    by (rule align_up_4 [OF a]) (use fits len round4_ge(1) [of "name_end f"] in linarith)
  have un: "unat (a + word_of_nat (round4 (name_end f))) = unat a + round4 (name_end f)"
    using fits len by (subst unat_add64) (simp_all add: unat_of_nat64)
  have "aligned 2 (a + word_of_nat (round4 (name_end f)))"
    using a un round4_ge(2) [of "name_end f"] by (simp add: aligned_def)
  then have nx: "align_up (a + word_of_nat (round4 (name_end f)) + word_of_nat (length (cf_data f))) 4 =
      a + word_of_nat (round4 (name_end f)) + word_of_nat (round4 (length (cf_data f)))"
    by (rule align_up_4) (use fits len un round4_ge(1) [of "length (cf_data f)"] in linarith)
  show ?thesis
    unfolding cpio_parse_header_def magic Let_def sz nl ne da nx
    using c by (simp add: len algebra_simps)
qed

lemma entry_aligned_end:
  assumes "cpio_file_ok f" "aligned 2 a" "unat a + length (entry_bytes f) + 4 < 2 ^ 64"
  shows "aligned 2 (a + word_of_nat (length (entry_bytes f)))"
    "unat (a + word_of_nat (length (entry_bytes f))) = unat a + length (entry_bytes f)"
proof -
  show u: "unat (a + word_of_nat (length (entry_bytes f))) = unat a + length (entry_bytes f)"
    using assms(3) by (subst unat_add64) (simp_all add: unat_of_nat64)
  show "aligned 2 (a + word_of_nat (length (entry_bytes f)))"
    unfolding aligned_def u using assms(2) round4_ge(2) by (simp add: aligned_def entry_bytes_length [OF assms(1)])
qed

lemma parse_trailer:
  assumes "mem_at m a (chars CPIO_HEADER_MAGIC @ meta @ string_bytes CPIO_FOOTER_MAGIC)" "length meta = 104"
  shows "cpio_parse_header m a = Some Cpio_eof"
proof -
  have p: "mem_at m a (chars CPIO_HEADER_MAGIC)" "mem_at m (a + 110) (string_bytes CPIO_FOOTER_MAGIC)"
    using assms by (simp_all only: mem_at_append) (simp add: add.assoc)
  have "cpio_strncmp m a (string_bytes CPIO_HEADER_MAGIC) 6 = Some 0" by (rule strncmp_prefix [OF p(1)]) simp_all
  moreover have "cpio_strncmp m (a + 110) (string_bytes CPIO_FOOTER_MAGIC) 11 = Some 0"
    using strncmp_strings [OF p(2), of CPIO_FOOTER_MAGIC 11] by auto
  ultimately show ?thesis by (simp add: cpio_parse_header_def Let_def)
qed

section \<open>Properties\<close>

text \<open>The file of a name in a list of files: the first one.\<close>

fun find_file :: "cpio_file list \<Rightarrow> string \<Rightarrow> cpio_file option" where
  "find_file [] name = None"
| "find_file (f # fs) name = (if cf_name f = name then Some f else find_file fs name)"

definition archive_in :: "(word64 \<Rightarrow> byte) \<Rightarrow> word64 \<Rightarrow> cpio_file list \<Rightarrow> bool" where
  "archive_in m a fs \<longleftrightarrow> list_all cpio_file_ok fs \<and> aligned 2 a \<and>
     (\<exists>meta. length meta = 104 \<and> mem_at m a (archive_bytes meta fs) \<and> unat a + length (archive_bytes meta fs) + 4 < 2 ^ 64)"

lemma archive_in_Cons:
  assumes "archive_in m a (f # fs)"
  shows "cpio_file_ok f" "aligned 2 a" "mem_at m a (entry_bytes f)" "unat a + length (entry_bytes f) + 4 < 2 ^ 64"
    "archive_in m (a + word_of_nat (length (entry_bytes f))) fs"
proof -
  obtain meta where r: "list_all cpio_file_ok (f # fs)" "aligned 2 a" "length meta = 104" "mem_at m a (entry_bytes f @ archive_bytes meta fs)"
    "unat a + (length (entry_bytes f) + length (archive_bytes meta fs)) + 4 < 2 ^ 64"
    using assms by (auto simp: archive_in_def archive_bytes_def)
  show f: "cpio_file_ok f" "aligned 2 a" "mem_at m a (entry_bytes f)" "unat a + length (entry_bytes f) + 4 < 2 ^ 64"
    using r by (simp_all add: mem_at_append)
  show "archive_in m (a + word_of_nat (length (entry_bytes f))) fs"
    unfolding archive_in_def using r entry_aligned_end [OF f(1,2,4)] by (auto simp: mem_at_append intro!: exI [of _ meta])
qed

text \<open>
  C27. The search of an archive ends for every name; it finds the first file of that name, with its
  size and the address at which its contents are, and nothing if there is no such file. The sizes
  in the headers of the archive are in lower-case hexadecimal digits.
\<close>

theorem cpio_get_file_correct:
  assumes "archive_in m a fs" "CHR 0x00 \<notin> set name" "length name < 2 ^ 64 - 1"
  shows "(case find_file fs name of
      None \<Rightarrow> cpio_get_file m a name = Some None
    | Some f \<Rightarrow> \<exists>d. cpio_get_file m a name = Some (Some (d, word_of_nat (length (cf_data f)))) \<and>
                  load_list m d (length (cf_data f)) = cf_data f)"
  using assms(1)
proof (induction fs arbitrary: a)
  case Nil
  then obtain meta where "mem_at m a (chars CPIO_HEADER_MAGIC @ meta @ string_bytes CPIO_FOOTER_MAGIC)" "length meta = 104"
    by (auto simp: archive_in_def archive_bytes_def)
  from parse_trailer [OF this] show ?case by (subst cpio_get_file.simps) simp
next
  case (Cons f fs)
  note e = archive_in_Cons [OF Cons.prems]
  note p = entry_parts [OF e(3,1)]
  have l: "length name < unat (- 1 :: word64)" using assms(3) by (simp add: unsigned_minus_1_eq_mask mask_eq_exp_minus_1)
  obtain c where c: "cpio_strncmp m (a + 110) (string_bytes name) (- 1) = Some c" "c = 0 \<longleftrightarrow> cf_name f = name"
    using strncmp_strings [OF p(4) _ assms(2) l] e(1) by (auto simp: cpio_file_ok_def)
  show ?case
  proof (cases "cf_name f = name")
    case True
    then show ?thesis using c p(5) parse_entry [OF e(3,1,2,4)] by (subst cpio_get_file.simps) (simp add: mem_at_load)
  next
    case False
    then have nxt: "cpio_get_file m a name = cpio_get_file m (a + word_of_nat (length (entry_bytes f))) name"
      using c parse_entry [OF e(3,1,2,4)] by (subst cpio_get_file.simps) simp
    show ?thesis unfolding nxt using Cons.IH [OF e(5)] False by simp
  qed
qed


definition cpio_example :: "cpio_file list" where
  "cpio_example = [\<lparr>cf_name = ''sh'', cf_data = [1, 2, 3], cf_meta1 = replicate 48 0x30, cf_meta2 = replicate 32 0x30,
     cf_meta3 = replicate 8 0x30\<rparr>]"

definition cpio_mem :: "word64 \<Rightarrow> byte" where
  "cpio_mem = store_list (\<lambda>_. 0) 0x1000 (archive_bytes (replicate 104 0x30) cpio_example)"

lemma cpio_example_length: "length (archive_bytes (replicate 104 0x30) cpio_example) = 241"
  by (simp add: archive_bytes_def cpio_example_def entry_bytes_def name_end_def round4_def)

lemma cpio_example_in: "archive_in cpio_mem 0x1000 cpio_example"
proof -
  have "mem_at cpio_mem 0x1000 (archive_bytes (replicate 104 0x30) cpio_example)"
    unfolding mem_at_load cpio_mem_def by (rule load_store_list) (simp add: cpio_example_length)
  then show ?thesis
    unfolding archive_in_def using cpio_example_length
    by (auto simp: cpio_file_ok_def cpio_example_def aligned_def intro!: exI [of _ "replicate 104 0x30"])
qed

theorem cpio_get_file_correct_witness:
  "(\<exists>d. cpio_get_file cpio_mem 0x1000 ''sh'' = Some (Some (d, 3)) \<and> load_list cpio_mem d 3 = [1, 2, 3]) \<and>
   cpio_get_file cpio_mem 0x1000 ''x'' = Some None"
  using cpio_get_file_correct [OF cpio_example_in, of "''sh''"] cpio_get_file_correct [OF cpio_example_in, of "''x''"]
  by (simp add: cpio_example_def numeral_3_eq_3)

end
