(* ===== verification/Elf_File.thy ===== *)
theory Elf_File
  imports Sharedbuf
begin

text \<open>
  The library that reads executable files, \<open>projects/libelf\<close>: the headers of 32-bit and 64-bit ELF
  files as they are laid out in memory, their accessors (\<open>elf32.c\<close>, \<open>elf32.h\<close>, \<open>elf64.c\<close>,
  \<open>elf64.h\<close>), and the functions of \<open>elf.c\<close> that choose between the two by the class byte of the
  file. The file is at the address \<open>f\<close> of the memory \<open>m\<close>. The functions that print a file are
  left out.

  The lemmas show that the bounds of a file enclose its segments exactly. Of \<open>elf_loadFile\<close> they
  only show that its rounds are enough, not what it loads.
\<close>

section \<open>Definitions\<close>

definition load16 :: "(word64 \<Rightarrow> byte) \<Rightarrow> word64 \<Rightarrow> word16" where
  "load16 m a = ucast (load_bytes 2 m a)"

definition load32 :: "(word64 \<Rightarrow> byte) \<Rightarrow> word64 \<Rightarrow> word32" where
  "load32 m a = ucast (load_bytes 4 m a)"

abbreviation (input) EI_CLASS :: word64 where "EI_CLASS \<equiv> 4"
abbreviation (input) ELFCLASS32 :: byte where "ELFCLASS32 \<equiv> 1"
abbreviation (input) ELFCLASS64 :: byte where "ELFCLASS64 \<equiv> 2"
abbreviation (input) PT_LOAD :: word32 where "PT_LOAD \<equiv> 1"

subsection \<open>Headers\<close>

record Elf64_Header =
  h64_e_ident :: "byte list"
  h64_e_type :: word16
  h64_e_machine :: word16
  h64_e_version :: word32
  h64_e_entry :: word64
  h64_e_phoff :: word64
  h64_e_shoff :: word64
  h64_e_flags :: word32
  h64_e_ehsize :: word16
  h64_e_phentsize :: word16
  h64_e_phnum :: word16
  h64_e_shentsize :: word16
  h64_e_shnum :: word16
  h64_e_shstrndx :: word16

definition read_Elf64_Header :: "(word64 \<Rightarrow> byte) \<Rightarrow> word64 \<Rightarrow> Elf64_Header" where
  "read_Elf64_Header m a = \<lparr>
     h64_e_ident = load_list m a 16, h64_e_type = load16 m (a + 16), h64_e_machine = load16 m (a + 18),
     h64_e_version = load32 m (a + 20), h64_e_entry = load64 m (a + 24), h64_e_phoff = load64 m (a + 32),
     h64_e_shoff = load64 m (a + 40), h64_e_flags = load32 m (a + 48), h64_e_ehsize = load16 m (a + 52),
     h64_e_phentsize = load16 m (a + 54), h64_e_phnum = load16 m (a + 56), h64_e_shentsize = load16 m (a + 58),
     h64_e_shnum = load16 m (a + 60), h64_e_shstrndx = load16 m (a + 62)\<rparr>"

record Elf64_Shdr =
  s64_sh_name :: word32
  s64_sh_type :: word32
  s64_sh_flags :: word64
  s64_sh_addr :: word64
  s64_sh_offset :: word64
  s64_sh_size :: word64
  s64_sh_link :: word32
  s64_sh_info :: word32
  s64_sh_addralign :: word64
  s64_sh_entsize :: word64

definition read_Elf64_Shdr :: "(word64 \<Rightarrow> byte) \<Rightarrow> word64 \<Rightarrow> Elf64_Shdr" where
  "read_Elf64_Shdr m a = \<lparr>
     s64_sh_name = load32 m a, s64_sh_type = load32 m (a + 4), s64_sh_flags = load64 m (a + 8),
     s64_sh_addr = load64 m (a + 16), s64_sh_offset = load64 m (a + 24), s64_sh_size = load64 m (a + 32),
     s64_sh_link = load32 m (a + 40), s64_sh_info = load32 m (a + 44), s64_sh_addralign = load64 m (a + 48),
     s64_sh_entsize = load64 m (a + 56)\<rparr>"

record Elf64_Phdr =
  p64_p_type :: word32
  p64_p_flags :: word32
  p64_p_offset :: word64
  p64_p_vaddr :: word64
  p64_p_paddr :: word64
  p64_p_filesz :: word64
  p64_p_memsz :: word64
  p64_p_align :: word64

definition read_Elf64_Phdr :: "(word64 \<Rightarrow> byte) \<Rightarrow> word64 \<Rightarrow> Elf64_Phdr" where
  "read_Elf64_Phdr m a = \<lparr>
     p64_p_type = load32 m a, p64_p_flags = load32 m (a + 4), p64_p_offset = load64 m (a + 8),
     p64_p_vaddr = load64 m (a + 16), p64_p_paddr = load64 m (a + 24), p64_p_filesz = load64 m (a + 32),
     p64_p_memsz = load64 m (a + 40), p64_p_align = load64 m (a + 48)\<rparr>"

record Elf32_Header =
  h32_e_ident :: "byte list"
  h32_e_type :: word16
  h32_e_machine :: word16
  h32_e_version :: word32
  h32_e_entry :: word32
  h32_e_phoff :: word32
  h32_e_shoff :: word32
  h32_e_flags :: word32
  h32_e_ehsize :: word16
  h32_e_phentsize :: word16
  h32_e_phnum :: word16
  h32_e_shentsize :: word16
  h32_e_shnum :: word16
  h32_e_shstrndx :: word16

definition read_Elf32_Header :: "(word64 \<Rightarrow> byte) \<Rightarrow> word64 \<Rightarrow> Elf32_Header" where
  "read_Elf32_Header m a = \<lparr>
     h32_e_ident = load_list m a 16, h32_e_type = load16 m (a + 16), h32_e_machine = load16 m (a + 18),
     h32_e_version = load32 m (a + 20), h32_e_entry = load32 m (a + 24), h32_e_phoff = load32 m (a + 28),
     h32_e_shoff = load32 m (a + 32), h32_e_flags = load32 m (a + 36), h32_e_ehsize = load16 m (a + 40),
     h32_e_phentsize = load16 m (a + 42), h32_e_phnum = load16 m (a + 44), h32_e_shentsize = load16 m (a + 46),
     h32_e_shnum = load16 m (a + 48), h32_e_shstrndx = load16 m (a + 50)\<rparr>"

record Elf32_Shdr =
  s32_sh_name :: word32
  s32_sh_type :: word32
  s32_sh_flags :: word32
  s32_sh_addr :: word32
  s32_sh_offset :: word32
  s32_sh_size :: word32
  s32_sh_link :: word32
  s32_sh_info :: word32
  s32_sh_addralign :: word32
  s32_sh_entsize :: word32

definition read_Elf32_Shdr :: "(word64 \<Rightarrow> byte) \<Rightarrow> word64 \<Rightarrow> Elf32_Shdr" where
  "read_Elf32_Shdr m a = \<lparr>
     s32_sh_name = load32 m a, s32_sh_type = load32 m (a + 4), s32_sh_flags = load32 m (a + 8),
     s32_sh_addr = load32 m (a + 12), s32_sh_offset = load32 m (a + 16), s32_sh_size = load32 m (a + 20),
     s32_sh_link = load32 m (a + 24), s32_sh_info = load32 m (a + 28), s32_sh_addralign = load32 m (a + 32),
     s32_sh_entsize = load32 m (a + 36)\<rparr>"

record Elf32_Phdr =
  p32_p_type :: word32
  p32_p_offset :: word32
  p32_p_vaddr :: word32
  p32_p_paddr :: word32
  p32_p_filesz :: word32
  p32_p_memsz :: word32
  p32_p_flags :: word32
  p32_p_align :: word32

definition read_Elf32_Phdr :: "(word64 \<Rightarrow> byte) \<Rightarrow> word64 \<Rightarrow> Elf32_Phdr" where
  "read_Elf32_Phdr m a = \<lparr>
     p32_p_type = load32 m a, p32_p_offset = load32 m (a + 4), p32_p_vaddr = load32 m (a + 8),
     p32_p_paddr = load32 m (a + 12), p32_p_filesz = load32 m (a + 16), p32_p_memsz = load32 m (a + 20),
     p32_p_flags = load32 m (a + 24), p32_p_align = load32 m (a + 28)\<rparr>"

subsection \<open>Accessors of 64-bit files\<close>

definition elf64_checkFile :: "(word64 \<Rightarrow> byte) \<Rightarrow> word64 \<Rightarrow> int" where
  "elf64_checkFile m f = 
     (let ident = h64_e_ident (read_Elf64_Header m f)
      in if ident ! 0 \<noteq> 0x7F \<or> ident ! 1 \<noteq> 0x45 \<or> ident ! 2 \<noteq> 0x4C \<or> ident ! 3 \<noteq> 0x46 then - 1
         else if ident ! 4 \<noteq> ELFCLASS64 then - 2
         else 0)"

definition elf64_getSectionTable :: "(word64 \<Rightarrow> byte) \<Rightarrow> word64 \<Rightarrow> word64" where
  "elf64_getSectionTable m f = f + h64_e_shoff (read_Elf64_Header m f)"

text \<open>An element of the section table, and of the table of program headers.\<close>

definition section64 :: "(word64 \<Rightarrow> byte) \<Rightarrow> word64 \<Rightarrow> int \<Rightarrow> Elf64_Shdr" where
  "section64 m f i = read_Elf64_Shdr m (elf64_getSectionTable m f + 64 * word_of_int i)"

definition elf64_getProgramHeaderTable :: "(word64 \<Rightarrow> byte) \<Rightarrow> word64 \<Rightarrow> word64" where
  "elf64_getProgramHeaderTable m f = f + h64_e_phoff (read_Elf64_Header m f)"

definition segment64 :: "(word64 \<Rightarrow> byte) \<Rightarrow> word64 \<Rightarrow> word16 \<Rightarrow> Elf64_Phdr" where
  "segment64 m f ph = read_Elf64_Phdr m (elf64_getProgramHeaderTable m f + 56 * ucast ph)"

definition elf64_getProgramSegmentTable :: "(word64 \<Rightarrow> byte) \<Rightarrow> word64 \<Rightarrow> word64" where
  "elf64_getProgramSegmentTable m f = h64_e_phoff (read_Elf64_Header m f) + f"

definition elf64_getNumSections :: "(word64 \<Rightarrow> byte) \<Rightarrow> word64 \<Rightarrow> word32" where
  "elf64_getNumSections m f = ucast (h64_e_shnum (read_Elf64_Header m f))"

definition elf64_getStringTable :: "(word64 \<Rightarrow> byte) \<Rightarrow> word64 \<Rightarrow> int \<Rightarrow> word64" where
  "elf64_getStringTable m f string_segment = f + s64_sh_offset (section64 m f string_segment)"

definition elf64_getSegmentStringTable :: "(word64 \<Rightarrow> byte) \<Rightarrow> word64 \<Rightarrow> word64" where
  "elf64_getSegmentStringTable m f = 
     (let ndx = h64_e_shstrndx (read_Elf64_Header m f) in if ndx = 0 then 0 else elf64_getStringTable m f (uint ndx))"

text \<open>A name is a string at an address, or the string that stands for a missing table.\<close>

datatype (plugins only: code size) c_name = Name_at word64 | Corrupted

definition elf64_getSectionName :: "(word64 \<Rightarrow> byte) \<Rightarrow> word64 \<Rightarrow> int \<Rightarrow> c_name" where
  "elf64_getSectionName m f i = 
     (let str_table = elf64_getSegmentStringTable m f
      in if str_table = 0 then Corrupted else Name_at (str_table + ucast (s64_sh_name (section64 m f i))))"

definition elf64_getSectionSize :: "(word64 \<Rightarrow> byte) \<Rightarrow> word64 \<Rightarrow> int \<Rightarrow> word64" where
  "elf64_getSectionSize m f i = s64_sh_size (section64 m f i)"

definition elf64_getSectionAddr :: "(word64 \<Rightarrow> byte) \<Rightarrow> word64 \<Rightarrow> int \<Rightarrow> word64" where
  "elf64_getSectionAddr m f i = s64_sh_addr (section64 m f i)"

definition elf64_getSectionType :: "(word64 \<Rightarrow> byte) \<Rightarrow> word64 \<Rightarrow> word16 \<Rightarrow> word32" where
  "elf64_getSectionType m f s = s64_sh_type (section64 m f (uint s))"

definition elf64_getSectionFlags :: "(word64 \<Rightarrow> byte) \<Rightarrow> word64 \<Rightarrow> word16 \<Rightarrow> word32" where
  "elf64_getSectionFlags m f s = ucast (s64_sh_flags (section64 m f (uint s)))"

definition elf64_getSection :: "(word64 \<Rightarrow> byte) \<Rightarrow> word64 \<Rightarrow> int \<Rightarrow> word64" where
  "elf64_getSection m f i = f + s64_sh_offset (section64 m f i)"

text \<open>\<open>strcmp (str, name) = 0\<close> for a string of the code and a name of the file.\<close>

primrec str_at :: "(word64 \<Rightarrow> byte) \<Rightarrow> word64 \<Rightarrow> byte list \<Rightarrow> bool" where
  "str_at m a [] \<longleftrightarrow> True"
| "str_at m a (b # bs) \<longleftrightarrow> m a = b \<and> str_at m (a + 1) bs"

definition name_is :: "(word64 \<Rightarrow> byte) \<Rightarrow> c_name \<Rightarrow> string \<Rightarrow> bool" where
  "name_is m n str = (case n of Name_at a \<Rightarrow> str_at m a (string_bytes str) | Corrupted \<Rightarrow> str = ''<corrupted>'')"

text \<open>The loop of \<open>getSectionNamed\<close>, \<open>k\<close> sections before its end; 0 is the result \<open>NULL\<close>.\<close>

primrec section64_loop :: "nat \<Rightarrow> (word64 \<Rightarrow> byte) \<Rightarrow> word64 \<Rightarrow> string \<Rightarrow> int \<Rightarrow> (int option \<times> word64)" where
  "section64_loop 0 m f str i = (None, 0)"
| "section64_loop (Suc k) m f str i =
     (if name_is m (elf64_getSectionName m f i) str then (Some i, elf64_getSection m f i) else section64_loop k m f str (i + 1))"

definition elf64_getSectionNamed :: "(word64 \<Rightarrow> byte) \<Rightarrow> word64 \<Rightarrow> string \<Rightarrow> int option \<times> word64" where
  "elf64_getSectionNamed m f str = section64_loop (unat (elf64_getNumSections m f)) m f str 0"

definition elf64_getNumProgramHeaders :: "(word64 \<Rightarrow> byte) \<Rightarrow> word64 \<Rightarrow> word16" where
  "elf64_getNumProgramHeaders m f = h64_e_phnum (read_Elf64_Header m f)"

definition elf64_getEntryPoint :: "(word64 \<Rightarrow> byte) \<Rightarrow> word64 \<Rightarrow> word64" where
  "elf64_getEntryPoint m f = h64_e_entry (read_Elf64_Header m f)"

definition elf64_getProgramHeaderFlags :: "(word64 \<Rightarrow> byte) \<Rightarrow> word64 \<Rightarrow> word16 \<Rightarrow> word32" where
  "elf64_getProgramHeaderFlags m f ph = p64_p_flags (segment64 m f ph)"

definition elf64_getProgramHeaderType :: "(word64 \<Rightarrow> byte) \<Rightarrow> word64 \<Rightarrow> word16 \<Rightarrow> word32" where
  "elf64_getProgramHeaderType m f ph = p64_p_type (segment64 m f ph)"

definition elf64_getProgramHeaderFileSize :: "(word64 \<Rightarrow> byte) \<Rightarrow> word64 \<Rightarrow> word16 \<Rightarrow> word64" where
  "elf64_getProgramHeaderFileSize m f ph = p64_p_filesz (segment64 m f ph)"

definition elf64_getProgramHeaderMemorySize :: "(word64 \<Rightarrow> byte) \<Rightarrow> word64 \<Rightarrow> word16 \<Rightarrow> word64" where
  "elf64_getProgramHeaderMemorySize m f ph = p64_p_memsz (segment64 m f ph)"

definition elf64_getProgramHeaderVaddr :: "(word64 \<Rightarrow> byte) \<Rightarrow> word64 \<Rightarrow> word16 \<Rightarrow> word64" where
  "elf64_getProgramHeaderVaddr m f ph = p64_p_vaddr (segment64 m f ph)"

definition elf64_getProgramHeaderPaddr :: "(word64 \<Rightarrow> byte) \<Rightarrow> word64 \<Rightarrow> word16 \<Rightarrow> word64" where
  "elf64_getProgramHeaderPaddr m f ph = p64_p_paddr (segment64 m f ph)"

definition elf64_getProgramHeaderOffset :: "(word64 \<Rightarrow> byte) \<Rightarrow> word64 \<Rightarrow> word16 \<Rightarrow> word64" where
  "elf64_getProgramHeaderOffset m f ph = p64_p_offset (segment64 m f ph)"

definition elf64_getProgramHeaderAlign :: "(word64 \<Rightarrow> byte) \<Rightarrow> word64 \<Rightarrow> word16 \<Rightarrow> word32" where
  "elf64_getProgramHeaderAlign m f ph = ucast (p64_p_align (segment64 m f ph))"

definition table_segment64 :: "(word64 \<Rightarrow> byte) \<Rightarrow> word64 \<Rightarrow> int \<Rightarrow> Elf64_Phdr" where
  "table_segment64 m f i = read_Elf64_Phdr m (elf64_getProgramSegmentTable m f + 56 * word_of_int i)"

definition elf64_getSegmentType :: "(word64 \<Rightarrow> byte) \<Rightarrow> word64 \<Rightarrow> int \<Rightarrow> int" where
  "elf64_getSegmentType m f i = sint (p64_p_type (table_segment64 m f i))"

record segment_info =
  si_vaddr :: word64
  si_paddr :: word64
  si_filesz :: word64
  si_offset :: word64
  si_memsz :: word64

definition elf64_getSegmentInfo :: "(word64 \<Rightarrow> byte) \<Rightarrow> word64 \<Rightarrow> int \<Rightarrow> segment_info" where
  "elf64_getSegmentInfo m f i = 
     (let p = table_segment64 m f i
      in \<lparr>si_vaddr = p64_p_vaddr p, si_paddr = p64_p_paddr p, si_filesz = p64_p_filesz p,
          si_offset = p64_p_offset p, si_memsz = p64_p_memsz p\<rparr>)"

subsection \<open>Accessors of 32-bit files\<close>

definition elf32_checkFile :: "(word64 \<Rightarrow> byte) \<Rightarrow> word64 \<Rightarrow> int" where
  "elf32_checkFile m f = 
     (let ident = h32_e_ident (read_Elf32_Header m f)
      in if ident ! 0 \<noteq> 0x7F \<or> ident ! 1 \<noteq> 0x45 \<or> ident ! 2 \<noteq> 0x4C \<or> ident ! 3 \<noteq> 0x46 then - 1
         else if ident ! 4 \<noteq> ELFCLASS32 then - 2
         else 0)"

definition elf32_getSectionTable :: "(word64 \<Rightarrow> byte) \<Rightarrow> word64 \<Rightarrow> word64" where
  "elf32_getSectionTable m f = f + ucast (h32_e_shoff (read_Elf32_Header m f))"

text \<open>An element of the section table, and of the table of program headers.\<close>

definition section32 :: "(word64 \<Rightarrow> byte) \<Rightarrow> word64 \<Rightarrow> int \<Rightarrow> Elf32_Shdr" where
  "section32 m f i = read_Elf32_Shdr m (elf32_getSectionTable m f + 40 * word_of_int i)"

definition elf32_getProgramHeaderTable :: "(word64 \<Rightarrow> byte) \<Rightarrow> word64 \<Rightarrow> word64" where
  "elf32_getProgramHeaderTable m f = f + ucast (h32_e_phoff (read_Elf32_Header m f))"

definition segment32 :: "(word64 \<Rightarrow> byte) \<Rightarrow> word64 \<Rightarrow> word16 \<Rightarrow> Elf32_Phdr" where
  "segment32 m f ph = read_Elf32_Phdr m (elf32_getProgramHeaderTable m f + 32 * ucast ph)"

definition elf32_getProgramSegmentTable :: "(word64 \<Rightarrow> byte) \<Rightarrow> word64 \<Rightarrow> word64" where
  "elf32_getProgramSegmentTable m f = ucast (h32_e_phoff (read_Elf32_Header m f)) + f"

definition elf32_getNumSections :: "(word64 \<Rightarrow> byte) \<Rightarrow> word64 \<Rightarrow> word32" where
  "elf32_getNumSections m f = ucast (h32_e_shnum (read_Elf32_Header m f))"

definition elf32_getStringTable :: "(word64 \<Rightarrow> byte) \<Rightarrow> word64 \<Rightarrow> word64" where
  "elf32_getStringTable m f = f + ucast (s32_sh_offset (section32 m f (uint (h32_e_shstrndx (read_Elf32_Header m f)))))"

definition elf32_getSegmentStringTable :: "(word64 \<Rightarrow> byte) \<Rightarrow> word64 \<Rightarrow> word64" where
  "elf32_getSegmentStringTable m f = 
     (if h32_e_shstrndx (read_Elf32_Header m f) = 0 then 0 else elf32_getStringTable m f)"

definition elf32_getSectionName :: "(word64 \<Rightarrow> byte) \<Rightarrow> word64 \<Rightarrow> int \<Rightarrow> c_name" where
  "elf32_getSectionName m f i = 
     (let str_table = elf32_getSegmentStringTable m f
      in if str_table = 0 then Corrupted else Name_at (str_table + ucast (s32_sh_name (section32 m f i))))"

definition elf32_getSectionSize :: "(word64 \<Rightarrow> byte) \<Rightarrow> word64 \<Rightarrow> int \<Rightarrow> word32" where
  "elf32_getSectionSize m f i = s32_sh_size (section32 m f i)"

definition elf32_getSectionAddr :: "(word64 \<Rightarrow> byte) \<Rightarrow> word64 \<Rightarrow> int \<Rightarrow> word32" where
  "elf32_getSectionAddr m f i = s32_sh_addr (section32 m f i)"

definition elf32_getSectionType :: "(word64 \<Rightarrow> byte) \<Rightarrow> word64 \<Rightarrow> word16 \<Rightarrow> word32" where
  "elf32_getSectionType m f s = s32_sh_type (section32 m f (uint s))"

definition elf32_getSectionFlags :: "(word64 \<Rightarrow> byte) \<Rightarrow> word64 \<Rightarrow> word16 \<Rightarrow> word32" where
  "elf32_getSectionFlags m f s = s32_sh_flags (section32 m f (uint s))"

definition elf32_getSection :: "(word64 \<Rightarrow> byte) \<Rightarrow> word64 \<Rightarrow> int \<Rightarrow> word64" where
  "elf32_getSection m f i = f + ucast (s32_sh_offset (section32 m f i))"

primrec section32_loop :: "nat \<Rightarrow> (word64 \<Rightarrow> byte) \<Rightarrow> word64 \<Rightarrow> string \<Rightarrow> int \<Rightarrow> (int option \<times> word64)" where
  "section32_loop 0 m f str i = (None, 0)"
| "section32_loop (Suc k) m f str i =
     (if name_is m (elf32_getSectionName m f i) str then (Some i, elf32_getSection m f i) else section32_loop k m f str (i + 1))"

definition elf32_getSectionNamed :: "(word64 \<Rightarrow> byte) \<Rightarrow> word64 \<Rightarrow> string \<Rightarrow> int option \<times> word64" where
  "elf32_getSectionNamed m f str = section32_loop (unat (elf32_getNumSections m f)) m f str 0"

definition elf32_getNumProgramHeaders :: "(word64 \<Rightarrow> byte) \<Rightarrow> word64 \<Rightarrow> word16" where
  "elf32_getNumProgramHeaders m f = h32_e_phnum (read_Elf32_Header m f)"

definition elf32_getEntryPoint :: "(word64 \<Rightarrow> byte) \<Rightarrow> word64 \<Rightarrow> word32" where
  "elf32_getEntryPoint m f = h32_e_entry (read_Elf32_Header m f)"

definition elf32_getProgramHeaderFlags :: "(word64 \<Rightarrow> byte) \<Rightarrow> word64 \<Rightarrow> word16 \<Rightarrow> word32" where
  "elf32_getProgramHeaderFlags m f ph = p32_p_flags (segment32 m f ph)"

definition elf32_getProgramHeaderType :: "(word64 \<Rightarrow> byte) \<Rightarrow> word64 \<Rightarrow> word16 \<Rightarrow> word32" where
  "elf32_getProgramHeaderType m f ph = p32_p_type (segment32 m f ph)"

definition elf32_getProgramHeaderFileSize :: "(word64 \<Rightarrow> byte) \<Rightarrow> word64 \<Rightarrow> word16 \<Rightarrow> word32" where
  "elf32_getProgramHeaderFileSize m f ph = p32_p_filesz (segment32 m f ph)"

definition elf32_getProgramHeaderMemorySize :: "(word64 \<Rightarrow> byte) \<Rightarrow> word64 \<Rightarrow> word16 \<Rightarrow> word32" where
  "elf32_getProgramHeaderMemorySize m f ph = p32_p_memsz (segment32 m f ph)"

definition elf32_getProgramHeaderVaddr :: "(word64 \<Rightarrow> byte) \<Rightarrow> word64 \<Rightarrow> word16 \<Rightarrow> word32" where
  "elf32_getProgramHeaderVaddr m f ph = p32_p_vaddr (segment32 m f ph)"

definition elf32_getProgramHeaderPaddr :: "(word64 \<Rightarrow> byte) \<Rightarrow> word64 \<Rightarrow> word16 \<Rightarrow> word32" where
  "elf32_getProgramHeaderPaddr m f ph = p32_p_paddr (segment32 m f ph)"

definition elf32_getProgramHeaderOffset :: "(word64 \<Rightarrow> byte) \<Rightarrow> word64 \<Rightarrow> word16 \<Rightarrow> word32" where
  "elf32_getProgramHeaderOffset m f ph = p32_p_offset (segment32 m f ph)"

definition elf32_getProgramHeaderAlign :: "(word64 \<Rightarrow> byte) \<Rightarrow> word64 \<Rightarrow> word16 \<Rightarrow> word32" where
  "elf32_getProgramHeaderAlign m f ph = p32_p_align (segment32 m f ph)"

definition table_segment32 :: "(word64 \<Rightarrow> byte) \<Rightarrow> word64 \<Rightarrow> int \<Rightarrow> Elf32_Phdr" where
  "table_segment32 m f i = read_Elf32_Phdr m (elf32_getProgramSegmentTable m f + 32 * word_of_int i)"

definition elf32_getSegmentType :: "(word64 \<Rightarrow> byte) \<Rightarrow> word64 \<Rightarrow> int \<Rightarrow> int" where
  "elf32_getSegmentType m f i = sint (p32_p_type (table_segment32 m f i))"

definition elf32_getSegmentInfo :: "(word64 \<Rightarrow> byte) \<Rightarrow> word64 \<Rightarrow> int \<Rightarrow> segment_info" where
  "elf32_getSegmentInfo m f i = 
     (let p = table_segment32 m f i
      in \<lparr>si_vaddr = ucast (p32_p_vaddr p), si_paddr = ucast (p32_p_paddr p), si_filesz = ucast (p32_p_filesz p),
          si_offset = ucast (p32_p_offset p), si_memsz = ucast (p32_p_memsz p)\<rparr>)"


subsection \<open>The choice between 32 and 64 bits\<close>

definition ISELF32 :: "(word64 \<Rightarrow> byte) \<Rightarrow> word64 \<Rightarrow> bool" where
  "ISELF32 m f \<longleftrightarrow> m (f + EI_CLASS) = ELFCLASS32"

definition elf_checkFile :: "(word64 \<Rightarrow> byte) \<Rightarrow> word64 \<Rightarrow> int" where
  "elf_checkFile m f = (if ISELF32 m f then elf32_checkFile m f else elf64_checkFile m f)"

definition elf_getNumProgramHeaders :: "(word64 \<Rightarrow> byte) \<Rightarrow> word64 \<Rightarrow> word16" where
  "elf_getNumProgramHeaders m f =
     (if ISELF32 m f then elf32_getNumProgramHeaders m f else elf64_getNumProgramHeaders m f)"

definition elf_getProgramHeaderFlags :: "(word64 \<Rightarrow> byte) \<Rightarrow> word64 \<Rightarrow> word16 \<Rightarrow> word32" where
  "elf_getProgramHeaderFlags m f ph =
     (if ISELF32 m f then elf32_getProgramHeaderFlags m f ph else elf64_getProgramHeaderFlags m f ph)"

definition elf_getProgramHeaderType :: "(word64 \<Rightarrow> byte) \<Rightarrow> word64 \<Rightarrow> word16 \<Rightarrow> word32" where
  "elf_getProgramHeaderType m f ph =
     (if ISELF32 m f then elf32_getProgramHeaderType m f ph else elf64_getProgramHeaderType m f ph)"

definition elf_getProgramHeaderPaddr :: "(word64 \<Rightarrow> byte) \<Rightarrow> word64 \<Rightarrow> word16 \<Rightarrow> word64" where
  "elf_getProgramHeaderPaddr m f ph =
     (if ISELF32 m f then ucast (elf32_getProgramHeaderPaddr m f ph) else elf64_getProgramHeaderPaddr m f ph)"

definition elf_getProgramHeaderVaddr :: "(word64 \<Rightarrow> byte) \<Rightarrow> word64 \<Rightarrow> word16 \<Rightarrow> word64" where
  "elf_getProgramHeaderVaddr m f ph =
     (if ISELF32 m f then ucast (elf32_getProgramHeaderVaddr m f ph) else elf64_getProgramHeaderVaddr m f ph)"

definition elf_getProgramHeaderMemorySize :: "(word64 \<Rightarrow> byte) \<Rightarrow> word64 \<Rightarrow> word16 \<Rightarrow> word64" where
  "elf_getProgramHeaderMemorySize m f ph =
     (if ISELF32 m f then ucast (elf32_getProgramHeaderMemorySize m f ph) else elf64_getProgramHeaderMemorySize m f ph)"

definition elf_getProgramHeaderFileSize :: "(word64 \<Rightarrow> byte) \<Rightarrow> word64 \<Rightarrow> word16 \<Rightarrow> word64" where
  "elf_getProgramHeaderFileSize m f ph =
     (if ISELF32 m f then ucast (elf32_getProgramHeaderFileSize m f ph) else elf64_getProgramHeaderFileSize m f ph)"

definition elf_getProgramHeaderOffset :: "(word64 \<Rightarrow> byte) \<Rightarrow> word64 \<Rightarrow> word16 \<Rightarrow> word64" where
  "elf_getProgramHeaderOffset m f ph =
     (if ISELF32 m f then ucast (elf32_getProgramHeaderOffset m f ph) else elf64_getProgramHeaderOffset m f ph)"

definition elf_getProgramHeaderAlign :: "(word64 \<Rightarrow> byte) \<Rightarrow> word64 \<Rightarrow> word16 \<Rightarrow> word32" where
  "elf_getProgramHeaderAlign m f ph =
     (if ISELF32 m f then elf32_getProgramHeaderAlign m f ph else elf64_getProgramHeaderAlign m f ph)"

definition elf_getSegmentStringTable :: "(word64 \<Rightarrow> byte) \<Rightarrow> word64 \<Rightarrow> word64" where
  "elf_getSegmentStringTable m f =
     (if ISELF32 m f then elf32_getSegmentStringTable m f else elf64_getSegmentStringTable m f)"

definition elf_getStringTable :: "(word64 \<Rightarrow> byte) \<Rightarrow> word64 \<Rightarrow> int \<Rightarrow> word64" where
  "elf_getStringTable m f string_segment =
     (if ISELF32 m f then elf32_getStringTable m f else elf64_getStringTable m f string_segment)"

definition elf_getNumSections :: "(word64 \<Rightarrow> byte) \<Rightarrow> word64 \<Rightarrow> word32" where
  "elf_getNumSections m f = (if ISELF32 m f then elf32_getNumSections m f else elf64_getNumSections m f)"

definition elf_getSectionName :: "(word64 \<Rightarrow> byte) \<Rightarrow> word64 \<Rightarrow> int \<Rightarrow> c_name" where
  "elf_getSectionName m f i = (if ISELF32 m f then elf32_getSectionName m f i else elf64_getSectionName m f i)"

definition elf_getSectionFlags :: "(word64 \<Rightarrow> byte) \<Rightarrow> word64 \<Rightarrow> int \<Rightarrow> word32" where
  "elf_getSectionFlags m f i =
     (if ISELF32 m f then elf32_getSectionFlags m f (word_of_int i) else elf64_getSectionFlags m f (word_of_int i))"

definition elf_getSectionType :: "(word64 \<Rightarrow> byte) \<Rightarrow> word64 \<Rightarrow> int \<Rightarrow> word32" where
  "elf_getSectionType m f i =
     (if ISELF32 m f then elf32_getSectionType m f (word_of_int i) else elf64_getSectionType m f (word_of_int i))"

definition elf_getSectionSize :: "(word64 \<Rightarrow> byte) \<Rightarrow> word64 \<Rightarrow> int \<Rightarrow> word64" where
  "elf_getSectionSize m f i =
     (if ISELF32 m f then ucast (elf32_getSectionSize m f i) else elf64_getSectionSize m f i)"

definition elf_getSectionAddr :: "(word64 \<Rightarrow> byte) \<Rightarrow> word64 \<Rightarrow> int \<Rightarrow> word64" where
  "elf_getSectionAddr m f i =
     (if ISELF32 m f then ucast (elf32_getSectionAddr m f i) else elf64_getSectionAddr m f i)"

definition elf_getSection :: "(word64 \<Rightarrow> byte) \<Rightarrow> word64 \<Rightarrow> int \<Rightarrow> word64" where
  "elf_getSection m f i = (if ISELF32 m f then elf32_getSection m f i else elf64_getSection m f i)"

definition elf_getSectionNamed :: "(word64 \<Rightarrow> byte) \<Rightarrow> word64 \<Rightarrow> string \<Rightarrow> int option \<times> word64" where
  "elf_getSectionNamed m f str =
     (if ISELF32 m f then elf32_getSectionNamed m f str else elf64_getSectionNamed m f str)"

definition elf_getEntryPoint :: "(word64 \<Rightarrow> byte) \<Rightarrow> word64 \<Rightarrow> word64" where
  "elf_getEntryPoint m f = (if ISELF32 m f then ucast (elf32_getEntryPoint m f) else elf64_getEntryPoint m f)"

definition elf_getProgramHeaderInfo :: "(word64 \<Rightarrow> byte) \<Rightarrow> word64 \<Rightarrow> word16 \<Rightarrow> segment_info" where
  "elf_getProgramHeaderInfo m f ph =
     \<lparr>si_vaddr = elf_getProgramHeaderVaddr m f ph, si_paddr = elf_getProgramHeaderPaddr m f ph,
      si_filesz = elf_getProgramHeaderFileSize m f ph, si_offset = elf_getProgramHeaderOffset m f ph,
      si_memsz = elf_getProgramHeaderMemorySize m f ph\<rparr>"

subsection \<open>Whole files\<close>

text \<open>The address of a segment, physical or virtual.\<close>

definition segment_base :: "bool \<Rightarrow> (word64 \<Rightarrow> byte) \<Rightarrow> word64 \<Rightarrow> word16 \<Rightarrow> word64" where
  "segment_base phys m f ph = (if phys then elf_getProgramHeaderPaddr m f ph else elf_getProgramHeaderVaddr m f ph)"

definition bounds_step :: "bool \<Rightarrow> (word64 \<Rightarrow> byte) \<Rightarrow> word64 \<Rightarrow> nat \<Rightarrow> word64 \<times> word64 \<Rightarrow> word64 \<times> word64" where
  "bounds_step phys m f i b =
     (let ph = word_of_nat i; sz = elf_getProgramHeaderMemorySize m f ph
      in if sz = 0 then b
         else let sect_min = segment_base phys m f ph; sect_max = sect_min + sz
              in (if sect_min < fst b then sect_min else fst b, if sect_max > snd b then sect_max else snd b))"

text \<open>\<open>None\<close> is the result 0 for a file that is not an ELF file, otherwise the minimum and the maximum.\<close>

definition elf_getMemoryBounds :: "(word64 \<Rightarrow> byte) \<Rightarrow> word64 \<Rightarrow> bool \<Rightarrow> (word64 \<times> word64) option" where
  "elf_getMemoryBounds m f phys =
     (if elf_checkFile m f \<noteq> 0 then None
      else Some (fold (bounds_step phys m f) [0..<unat (elf_getNumProgramHeaders m f)] (- 1, 0)))"

definition elf_vaddrInProgramHeader :: "(word64 \<Rightarrow> byte) \<Rightarrow> word64 \<Rightarrow> word16 \<Rightarrow> word64 \<Rightarrow> bool" where
  "elf_vaddrInProgramHeader m f ph vaddr =
     (let mn = elf_getProgramHeaderVaddr m f ph; mx = mn + elf_getProgramHeaderMemorySize m f ph
      in vaddr \<ge> mn \<and> vaddr < mx)"

definition elf_vtopProgramHeader :: "(word64 \<Rightarrow> byte) \<Rightarrow> word64 \<Rightarrow> word16 \<Rightarrow> word64 \<Rightarrow> word64" where
  "elf_vtopProgramHeader m f ph vaddr = vaddr - elf_getProgramHeaderVaddr m f ph + elf_getProgramHeaderPaddr m f ph"

definition load_segment :: "bool \<Rightarrow> word64 \<Rightarrow> word16 \<Rightarrow> (word64 \<Rightarrow> byte) \<Rightarrow> (word64 \<Rightarrow> byte)" where
  "load_segment phys f ph m =
     (let dest = segment_base phys m f ph; len = elf_getProgramHeaderFileSize m f ph;
          m = memcpy m dest (f + elf_getProgramHeaderOffset m f ph) len
      in memset m (dest + len) 0 (elf_getProgramHeaderMemorySize m f ph - len))"

text \<open>
  The loop of \<open>elf_loadFile\<close> reads the number of headers again in every round, from memory that
  it may have overwritten; a 16-bit number bounds it, so 65536 rounds are enough.
\<close>

primrec load_loop :: "nat \<Rightarrow> bool \<Rightarrow> word64 \<Rightarrow> nat \<Rightarrow> (word64 \<Rightarrow> byte) \<Rightarrow> (word64 \<Rightarrow> byte)" where
  "load_loop 0 phys f i m = m"
| "load_loop (Suc k) phys f i m =
     (if i < unat (elf_getNumProgramHeaders m f) then load_loop k phys f (i + 1) (load_segment phys f (word_of_nat i) m) else m)"

definition elf_loadFile :: "(word64 \<Rightarrow> byte) \<Rightarrow> word64 \<Rightarrow> bool \<Rightarrow> bool \<times> (word64 \<Rightarrow> byte)" where
  "elf_loadFile m f phys = (if elf_checkFile m f \<noteq> 0 then (False, m) else (True, load_loop 65536 phys f 0 m))"

section \<open>Lemmas\<close>

text \<open>More than 65536 rounds of the loading loop change nothing.\<close>

lemma load_loop_enough: "65536 \<le> k + i \<Longrightarrow> load_loop (k + j) phys f i m = load_loop k phys f i m"
proof (induction k arbitrary: i m)
  case 0
  have "\<not> i < unat (elf_getNumProgramHeaders m f)"
    using 0 unsigned_less [of "elf_getNumProgramHeaders m f", where ?'a = nat] by simp
  then show ?case by (cases j) simp_all
qed simp

text \<open>The segments that occupy memory, as intervals.\<close>

definition segments :: "(word64 \<Rightarrow> byte) \<Rightarrow> word64 \<Rightarrow> word16 set" where
  "segments m f = {ph. ph < elf_getNumProgramHeaders m f \<and> elf_getProgramHeaderMemorySize m f ph \<noteq> 0}"


lemma bounds_step_eq:
  fixes phys m f i
  defines "base \<equiv> segment_base phys m f (word_of_nat i)" and "sz \<equiv> elf_getProgramHeaderMemorySize m f (word_of_nat i)"
  shows "bounds_step phys m f i (a, b) = (if sz = 0 then (a, b) else (min base a, max (base + sz) b))"
  by (auto simp: bounds_step_def sz_def base_def Let_def min_def max_def)

lemma bounds_fold:
  fixes phys m f
  defines "base \<equiv> \<lambda>i. segment_base phys m f (word_of_nat i)" and "sz \<equiv> \<lambda>i. elf_getProgramHeaderMemorySize m f (word_of_nat i)"
  shows "fold (bounds_step phys m f) [0..<n] (- 1, 0) =
    (Min (insert (- 1) (base ` {i. i < n \<and> sz i \<noteq> 0})), Max (insert 0 ((\<lambda>i. base i + sz i) ` {i. i < n \<and> sz i \<noteq> 0})))"
proof (induction n)
  case (Suc n)
  let ?S = "{i. i < n \<and> sz i \<noteq> 0}"
  have fin: "finite ?S" by simp
  show ?case
  proof (cases "sz n = 0")
    case True
    then have S: "{i. i < Suc n \<and> sz i \<noteq> 0} = ?S" by (auto simp: less_Suc_eq)
    show ?thesis unfolding S using True by (simp add: Suc bounds_step_eq sz_def)
  next
    case False
    then have S: "{i. i < Suc n \<and> sz i \<noteq> 0} = insert n ?S" by (auto simp: less_Suc_eq)
    have mn: "Min (insert (- 1) (base ` insert n ?S)) = min (base n) (Min (insert (- 1) (base ` ?S)))"
      by (simp add: insert_commute [of "- 1"] fin)
    have mx: "Max (insert 0 ((\<lambda>i. base i + sz i) ` insert n ?S)) = max (base n + sz n) (Max (insert 0 ((\<lambda>i. base i + sz i) ` ?S)))"
      by (simp add: insert_commute [of 0] fin)
    show ?thesis unfolding S mn mx using False
      by (simp only: upt_Suc fold_append o_apply zero_le if_True fold_simps Suc bounds_step_eq sz_def base_def if_False)
  qed
qed simp

lemma segments_nat:
  "{i. i < unat (elf_getNumProgramHeaders m f) \<and> elf_getProgramHeaderMemorySize m f (word_of_nat i) \<noteq> 0} = unat ` segments m f"
proof (intro set_eqI iffI)
  fix i
  assume i: "i \<in> {i. i < unat (elf_getNumProgramHeaders m f) \<and> elf_getProgramHeaderMemorySize m f (word_of_nat i) \<noteq> 0}"
  then have u: "unat (word_of_nat i :: word16) = i"
    using unsigned_less [of "elf_getNumProgramHeaders m f", where 'a = nat] by (simp add: unat_of_nat)
  then show "i \<in> unat ` segments m f"
    using i by (intro image_eqI [of _ _ "word_of_nat i"]) (simp_all add: segments_def word_less_nat_alt)
qed (auto simp: segments_def word_less_nat_alt)

section \<open>Properties\<close>

text \<open>
  C28. The memory bounds of a file are exact: the smallest start and the largest end of its
  segments that occupy memory, or -1 and 0 if there are none.
\<close>

theorem elf_getMemoryBounds_correct:
  assumes "elf_checkFile m f = 0"
  shows "elf_getMemoryBounds m f phys = Some
    (Min (insert (- 1) (segment_base phys m f ` segments m f)),
     Max (insert 0 ((\<lambda>ph. segment_base phys m f ph + elf_getProgramHeaderMemorySize m f ph) ` segments m f)))"
  using assms unfolding elf_getMemoryBounds_def bounds_fold segments_nat image_image by simp


text \<open>A 64-bit file with one segment of 32 bytes at 0x400000.\<close>

definition elf_example :: "word64 \<Rightarrow> byte" where
  "elf_example = store64 (store64 (store64 (store64 (store64 (\<lambda>_. 0) 0x1000 0x2464C457F) 0x1020 64) 0x1038 1) 0x1050 0x400000) 0x1068 32"

theorem elf_getMemoryBounds_correct_witness:
  "elf_checkFile elf_example 0x1000 = 0 \<and> elf_getMemoryBounds elf_example 0x1000 False = Some (0x400000, 0x400020)"
proof -
  have b: "elf_example 0x1000 = 0x7F" "elf_example 0x1001 = 0x45" "elf_example 0x1002 = 0x4C" "elf_example 0x1003 = 0x46"
    "elf_example 0x1004 = 2" by code_simp+
  have l: "load_bytes 2 elf_example 0x1038 = 1" "load64 elf_example 0x1020 = 64" "load64 elf_example 0x1050 = 0x400000"
    "load64 elf_example 0x1068 = 32" by code_simp+
  have k: "\<not> ISELF32 elf_example 0x1000" by (simp add: ISELF32_def b)
  have c: "elf_checkFile elf_example 0x1000 = 0"
    by (simp add: elf_checkFile_def k elf64_checkFile_def read_Elf64_Header_def load_list_def b Let_def)
  have n: "elf_getNumProgramHeaders elf_example 0x1000 = 1"
    by (simp add: elf_getNumProgramHeaders_def k elf64_getNumProgramHeaders_def read_Elf64_Header_def load16_def l)
  have seg: "segment64 elf_example 0x1000 0 = read_Elf64_Phdr elf_example 0x1040"
    by (simp add: segment64_def elf64_getProgramHeaderTable_def read_Elf64_Header_def l)
  have sz: "elf_getProgramHeaderMemorySize elf_example 0x1000 0 = 32"
    by (simp add: elf_getProgramHeaderMemorySize_def k elf64_getProgramHeaderMemorySize_def seg read_Elf64_Phdr_def l)
  have b: "segment_base False elf_example 0x1000 0 = 0x400000"
    by (simp add: segment_base_def elf_getProgramHeaderVaddr_def k elf64_getProgramHeaderVaddr_def seg read_Elf64_Phdr_def l)
  have "segments elf_example 0x1000 = {0}" using sz by (auto simp: segments_def n word_less_nat_alt word_unat_eq_iff)
  moreover have "\<not> (- 1 :: word64) \<le> 0x400000" by (simp add: word_le_nat_alt unsigned_minus_1_eq_mask mask_eq_exp_minus_1)
  ultimately show ?thesis using elf_getMemoryBounds_correct [OF c, of False] c by (simp add: b sz min_def)
qed

end
