(* ===== verification/Elf_Load.thy ===== *)
theory Elf_Load
  imports Elf_File Cpio Pagetable
begin

text \<open>
  Loading a program into a process, \<open>sos/src/elf.c\<close>. A page of a segment gets a frame, which is
  mapped into the process and, while its bytes are copied, a second time into SOS. A frame has
  one set of bytes, at the address \<open>page_num_to_vaddr\<close> that SOS always has for it; the copy
  through the temporary mapping is written there.
\<close>

section \<open>Definitions\<close>

abbreviation (input) SOS_ELF_VMEM :: word64 where "SOS_ELF_VMEM \<equiv> 0xD0000000"
abbreviation (input) PF_X :: word64 where "PF_X \<equiv> 1"
abbreviation (input) PF_W :: word64 where "PF_W \<equiv> 2"
abbreviation (input) PF_R :: word64 where "PF_R \<equiv> 4"

text \<open>\<open>seL4_CapRights_new (grant, read, write)\<close> has the write right in bit 0, then read, then grant.\<close>

definition seL4_CapRights_new :: "bool \<Rightarrow> bool \<Rightarrow> bool \<Rightarrow> int" where
  "seL4_CapRights_new g r w = (if g then 4 else 0) + (if r then 2 else 0) + (if w then 1 else 0)"

definition get_sel4_rights_from_elf :: "word64 \<Rightarrow> int" where
  "get_sel4_rights_from_elf permissions =
     (let canRead = and permissions PF_R \<noteq> 0 \<or> and permissions PF_X \<noteq> 0; canWrite = and permissions PF_W \<noteq> 0
      in if \<not> canRead \<and> \<not> canWrite then seL4_AllRights else seL4_CapRights_new False canRead canWrite)"

definition perm_from_elf :: "word64 \<Rightarrow> nat" where
  "perm_from_elf permissions =
     (let p = (if and PF_X permissions \<noteq> 0 then or 0 EXEC else 0);
          p = (if and PF_R permissions \<noteq> 0 then or p READ else p)
      in if and PF_W permissions \<noteq> 0 then or p WRITE else p)"

definition drop_slot :: "cptr \<Rightarrow> sos \<Rightarrow> sos option" where
  "drop_slot slot s = do {
     let (_, s) = cspace_delete (cspace s) slot s;
     free_slot slot s }"

text \<open>
  The frame of a page for the process: the page, and the capability that maps it. The error is
  the code that ends the loading. A page that is mapped already with other permissions is given
  back, and the code goes on with it.
\<close>

definition load_loadee ::
  "world \<Rightarrow> pid_t \<Rightarrow> word64 \<Rightarrow> cptr \<Rightarrow> word64 \<Rightarrow> int \<Rightarrow> word64 \<Rightarrow> sos \<Rightarrow> ((int \<times> word64 \<times> cptr) \<times> sos) option" where
  "load_loadee W pid pt loadee loadee_vaddr permissions flags s = do {
     ((page, _), s) \<leftarrow> frame_alloc W s;
     e \<leftarrow> get_frame page s;
     (slot, s) \<leftarrow> alloc_slot s;
     if slot = seL4_CapNull then Some ((- 1, page, slot), s)
     else do {
       let (err, s) = cspace_copy (cspace s) slot (cspace s) (fte_cap e) seL4_AllRights s;
       if err \<noteq> 0 then do { s \<leftarrow> free_slot slot s; Some ((err, page, slot), s) }
       else do {
         (err, s) \<leftarrow> sos_map_frame W pt slot loadee loadee_vaddr permissions seL4_ARM_Default_VMAttributes page True s;
         s \<leftarrow> upd_frame page (\<lambda>e. e\<lparr>fte_user_cap := slot, fte_user_vaddr := loadee_vaddr, fte_pid := pid\<rparr>) s;
         if err \<noteq> 0 \<and> err \<noteq> seL4_DeleteFirst then do {
           s \<leftarrow> drop_slot slot s;
           s \<leftarrow> frame_free page s;
           Some ((err, page, slot), s) }
         else if err = seL4_DeleteFirst then do {
           p \<leftarrow> proc_get pid s;
           v \<leftarrow> get_proc s p;
           as \<leftarrow> p_as v;
           r \<leftarrow> as_seek_region as loadee_vaddr;
           s \<leftarrow> (if accmode r \<noteq> perm_from_elf flags then do { s \<leftarrow> drop_slot slot s; frame_free page s } else Some s);
           Some ((0, page, slot), s) }
         else Some ((0, page, slot), s) } } }"

text \<open>The second mapping, in the address space of SOS, and the copy through it.\<close>

definition load_loader ::
  "world \<Rightarrow> word64 \<Rightarrow> cptr \<Rightarrow> cptr \<Rightarrow> word64 \<Rightarrow> sos \<Rightarrow> ((int \<times> cptr) \<times> sos) option" where
  "load_loader W pt loader loadee_slot loader_vaddr s = do {
     (slot, s) \<leftarrow> alloc_slot s;
     if slot = seL4_CapNull then Some ((- 1, slot), s)
     else do {
       let (err, s) = cspace_copy (cspace s) slot (cspace s) loadee_slot seL4_AllRights s;
       if err \<noteq> 0 then do {
         s \<leftarrow> drop_slot loadee_slot s;
         s \<leftarrow> free_slot slot s;
         Some ((err, slot), s) }
       else do {
         (err, s) \<leftarrow> sos_map_frame W pt slot loader loader_vaddr seL4_AllRights seL4_ARM_Default_VMAttributes 0 False s;
         if err \<noteq> 0 then do {
           let (_, s) = cspace_delete (cspace s) loadee_slot s;
           let (_, s) = cspace_delete (cspace s) slot s;
           s \<leftarrow> free_slot loadee_slot s;
           s \<leftarrow> free_slot slot s;
           Some ((err, slot), s) }
         else Some ((0, slot), s) } } }"

definition copy_page :: "word64 \<Rightarrow> word64 \<Rightarrow> word64 \<Rightarrow> word32 \<Rightarrow> word64 \<Rightarrow> sos \<Rightarrow> sos" where
  "copy_page page src dst pos file_size s =
     (let nbytes = PAGE_SIZE_4K - dst mod PAGE_SIZE_4K
      in if ucast pos < file_size
         then s\<lparr>mem := memcpy (mem s) (page_num_to_vaddr page s + dst mod PAGE_SIZE_4K) src (min nbytes (file_size - ucast pos))\<rparr>
         else s)"

text \<open>The loop over the pages of a segment; \<open>pos\<close> is an \<open>unsigned int\<close>.\<close>

partial_function (option) load_pages ::
  "world \<Rightarrow> pid_t \<Rightarrow> word64 \<Rightarrow> cptr \<Rightarrow> cptr \<Rightarrow> word64 \<Rightarrow> word64 \<Rightarrow> word64 \<Rightarrow> int \<Rightarrow> word64 \<Rightarrow> word64 \<Rightarrow> word32 \<Rightarrow> sos
     \<Rightarrow> (int \<times> sos) option" where
  "load_pages W pid p loader loadee segment_size file_size flags permissions src dst pos s =
     (if \<not> ucast pos < segment_size then Some (0, s)
      else do {
        let loadee_vaddr = PAGE_ALIGN_4K dst;
        let loader_vaddr = PAGE_ALIGN_4K (SOS_ELF_VMEM + dst);
        v \<leftarrow> get_proc s p;
        as \<leftarrow> p_as v;
        ((err, page, loadee_slot), s) \<leftarrow> load_loadee W pid (as_pt as) loadee loadee_vaddr permissions flags s;
        if err \<noteq> 0 then Some (err, s)
        else do {
          v \<leftarrow> get_proc s p;
          as \<leftarrow> p_as v;
          ((err, loader_slot), s) \<leftarrow> load_loader W (as_pt as) loader loadee_slot loader_vaddr s;
          if err \<noteq> 0 then Some (err, s)
          else do {
            let nbytes = PAGE_SIZE_4K - dst mod PAGE_SIZE_4K;
            let s = copy_page page src dst pos file_size s;
            let (_, s) = kinvoke (ARM_Unify_Instruction loader loader_vaddr (loader_vaddr + PAGE_SIZE_4K)) s;
            let (_, s) = kinvoke (ARM_Unify_Instruction loadee loadee_vaddr (loadee_vaddr + PAGE_SIZE_4K)) s;
            s \<leftarrow> drop_slot loader_slot s;
            load_pages W pid p loader loadee segment_size file_size flags permissions (src + nbytes) (dst + nbytes)
              (pos + ucast nbytes) s } } })"

declare load_pages.simps [code]

definition load_segment_into_vspace ::
  "world \<Rightarrow> pid_t \<Rightarrow> cptr \<Rightarrow> cptr \<Rightarrow> word64 \<Rightarrow> word64 \<Rightarrow> word64 \<Rightarrow> word64 \<Rightarrow> int \<Rightarrow> word64 \<Rightarrow> sos \<Rightarrow> (int \<times> sos) option" where
  "load_segment_into_vspace W pid loader loadee src segment_size file_size dst permissions flags s = do {
     c_assert (file_size \<le> segment_size);
     p \<leftarrow> proc_get pid s;
     load_pages W pid p loader loadee segment_size file_size flags permissions src dst 0 s }"

definition upd_as :: "word64 \<Rightarrow> (addrspace \<Rightarrow> int \<times> addrspace) \<Rightarrow> sos \<Rightarrow> (int \<times> sos) option" where
  "upd_as p f s = do {
     v \<leftarrow> get_proc s p;
     as \<leftarrow> p_as v;
     let (err, as) = f as;
     Some (err, set_proc p (v\<lparr>p_as := Some as\<rparr>) s) }"

text \<open>One program header; the result of \<open>as_define_region\<close> is not used.\<close>

definition load_header :: "world \<Rightarrow> pid_t \<Rightarrow> word64 \<Rightarrow> cptr \<Rightarrow> cptr \<Rightarrow> word64 \<Rightarrow> nat \<Rightarrow> sos \<Rightarrow> (int \<times> sos) option" where
  "load_header W pid p loader loadee elf_file i s = do {
     let ph = word_of_nat i;
     if elf_getProgramHeaderType (mem s) elf_file ph \<noteq> PT_LOAD then Some (0, s)
     else do {
       let source_addr = elf_file + elf_getProgramHeaderOffset (mem s) elf_file ph;
       let file_size = elf_getProgramHeaderFileSize (mem s) elf_file ph;
       let segment_size = elf_getProgramHeaderMemorySize (mem s) elf_file ph;
       let vaddr = elf_getProgramHeaderVaddr (mem s) elf_file ph;
       let flags = ucast (elf_getProgramHeaderFlags (mem s) elf_file ph);
       (err, s) \<leftarrow> load_segment_into_vspace W pid loader loadee source_addr segment_size file_size vaddr
                    (get_sel4_rights_from_elf flags) flags s;
       if err \<noteq> 0 then Some (- 1, s)
       else do {
         (_, s) \<leftarrow> upd_as p (\<lambda>as. as_define_region as vaddr segment_size (perm_from_elf flags)) s;
         Some (0, s) } } }"

primrec load_headers ::
  "world \<Rightarrow> pid_t \<Rightarrow> word64 \<Rightarrow> cptr \<Rightarrow> cptr \<Rightarrow> word64 \<Rightarrow> nat list \<Rightarrow> sos \<Rightarrow> (int \<times> sos) option" where
  "load_headers W pid p loader loadee elf_file [] s = Some (0, s)"
| "load_headers W pid p loader loadee elf_file (i # is) s = do {
     (err, s) \<leftarrow> load_header W pid p loader loadee elf_file i s;
     if err \<noteq> 0 then Some (- 1, s) else load_headers W pid p loader loadee elf_file is s }"

definition load_image :: "world \<Rightarrow> pid_t \<Rightarrow> word64 \<Rightarrow> cptr \<Rightarrow> cptr \<Rightarrow> word64 \<Rightarrow> sos \<Rightarrow> (int \<times> sos) option" where
  "load_image W pid p loader loadee elf_file s = do {
     (err, s) \<leftarrow> load_headers W pid p loader loadee elf_file [0..<unat (elf_getNumProgramHeaders (mem s) elf_file)] s;
     if err \<noteq> 0 then Some (- 1, s)
     else do {
       let sect = snd (elf_getSectionNamed (mem s) elf_file ''__vsyscall'');
       c_assert (sect \<noteq> 0);
       Some (0, s\<lparr>vsyscall_table := load64 (mem s) sect, entry_point := elf_getEntryPoint (mem s) elf_file\<rparr>) } }"

definition elf_load :: "world \<Rightarrow> pid_t \<Rightarrow> cptr \<Rightarrow> cptr \<Rightarrow> word64 \<Rightarrow> sos \<Rightarrow> (int \<times> sos) option" where
  "elf_load W pid loader loadee elf_file s = do {
     p \<leftarrow> proc_get pid s;
     if elf_file = 0 \<or> elf_checkFile (mem s) elf_file \<noteq> 0 then Some (- 1, s)
     else load_image W pid p loader loadee elf_file s }"

text \<open>Reading the file in pages through the kernel's shared buffer, until \<open>read_offset\<close> reaches the size.\<close>

partial_function (option) read_file :: "world \<Rightarrow> word64 \<Rightarrow> word64 \<Rightarrow> word64 \<Rightarrow> word64 \<Rightarrow> sos \<Rightarrow> sos option" where
  "read_file W vn elf_file st_sz read_offset s =
     (if \<not> read_offset < st_sz then Some s
      else do {
        (n, s) \<leftarrow> VOP_READ W vn (uio_init UIO_READ (min PAGE_SIZE_4K (st_sz - read_offset)) read_offset 0) s;
        let bytes_read = word_of_int n;
        let (_, s) = sos_copyout 0 (elf_file + read_offset) bytes_read s;
        read_file W vn elf_file st_sz (read_offset + bytes_read) s })"

declare read_file.simps [code]

definition zero_stat :: sos_stat_t where
  "zero_stat = \<lparr>st_type = 0, st_fmode = 0, st_size = 0, st_ctime = 0, st_atime = 0\<rparr>"

text \<open>
  The buffer for the stat is uninitialised, and stays so on an NFS file while the kernel process
  counts as a zombie.
\<close>

definition elf_load_fs :: "world \<Rightarrow> pid_t \<Rightarrow> cptr \<Rightarrow> cptr \<Rightarrow> string \<Rightarrow> sos \<Rightarrow> (int \<times> sos) option" where
  "elf_load_fs W pid loader loadee path s = do {
     ((err, res), s) \<leftarrow> vfs_lookup W path False 0 s;
     if err \<noteq> 0 then Some (- 1, s)
     else do {
       vn \<leftarrow> res;
       kp \<leftarrow> proc_get 0 s;
       k \<leftarrow> get_proc s kp;
       c_assert (p_state k \<noteq> ZOMBIE \<or> VOP vn s = Some Dev_ops);
       ((err, buf), s) \<leftarrow> VOP_STAT W vn zero_stat 0 s;
       if err \<noteq> 0 then Some (- 1, s)
       else if and (st_fmode buf) FM_EXEC = 0 then Some (- 1, s)
       else do {
         (_, s) \<leftarrow> VOP_EACHOPEN W vn O_RDONLY 0 s;
         p \<leftarrow> proc_get pid s;
         let (elf_file, s) = malloc (ucast (st_size buf)) s;
         c_assert (elf_file \<noteq> 0);
         s \<leftarrow> read_file W vn elf_file (ucast (st_size buf)) 0 s;
         load_image W pid p loader loadee elf_file s } } }"

definition get_last_vsyscall_table :: "sos \<Rightarrow> word64" where
  "get_last_vsyscall_table s = vsyscall_table s"

definition get_last_entry_point :: "sos \<Rightarrow> word64" where
  "get_last_entry_point s = entry_point s"


section \<open>Properties\<close>

lemma page_offset: "unat (dst mod 4096 :: word64) = unat dst mod 4096"
  by (simp add: unat_mod_distrib)

text \<open>
  C29. Copying a piece of a segment into a frame never touches a byte outside that frame,
  whatever the size of the file and the address of the segment are; inside it the bytes from the
  offset of the address on are those of the file, up to the end of the file's part.
\<close>

theorem copy_page_in_frame:
  fixes page src dst pos file_size s
  defines "a \<equiv> page_num_to_vaddr page s" and "off \<equiv> unat dst mod 4096"
  shows "mem (copy_page page src dst pos file_size s) x =
    (if off \<le> unat (x - a) \<and> unat (x - a) < 4096 \<and> unat (x - a) - off + unat pos < unat file_size
     then mem s (src + (x - a - word_of_nat off)) else mem s x)"
proof -
  have o: "dst mod 4096 = word_of_nat off" "off < 4096" by (simp_all add: off_def page_offset word_unat_eq_iff unat_of_nat64)
  have n: "unat (4096 - dst mod 4096 :: word64) = 4096 - off"
    by (subst unat_sub) (simp_all add: word_le_nat_alt page_offset off_def)
  have "unat pos < 4294967296" by (rule order_less_le_trans [OF unsigned_less]) simp
  then have p: "unat (ucast pos :: word64) = unat pos" by (simp add: unsigned_ucast_eq take_bit_nat_eq_self)
  have d: "unat (x - (a + dst mod 4096)) = (if off \<le> unat (x - a) then unat (x - a) - off else unat (x - a) + 2 ^ 64 - off)"
  proof -
    have e: "x - (a + dst mod 4096) = (x - a) - dst mod 4096" by simp
    have od: "unat (dst mod 4096) = off" by (simp add: page_offset off_def)
    show ?thesis unfolding e unat_sub_if' [of "x - a" "dst mod 4096"] od by (simp only: len_num1 len_bit0) simp
  qed
  show ?thesis
  proof (cases "(ucast pos :: word64) < file_size")
    case True
    then have lt: "unat pos < unat file_size" by (simp add: word_less_nat_alt p)
    have f: "unat (file_size - ucast pos) = unat file_size - unat pos"
      by (subst unat_sub) (use lt in \<open>simp_all add: word_le_nat_alt p\<close>)
    define Q where "Q \<longleftrightarrow> off \<le> unat (x - a) \<and> unat (x - a) < 4096 \<and> unat (x - a) - off + unat pos < unat file_size"
    have "(x - (a + dst mod 4096) < min (4096 - dst mod 4096) (file_size - ucast pos)) \<longleftrightarrow> Q"
      unfolding Q_def word_less_nat_alt d using o(2) lt by (auto simp: min_def n f word_le_nat_alt)
    then show ?thesis using True o(1) unfolding Q_def [symmetric] by (simp add: copy_page_def memcpy_def a_def Let_def diff_diff_eq)
  next
    case False
    then have "unat file_size \<le> unat pos" by (simp add: word_less_nat_alt p)
    then show ?thesis using False by (simp add: copy_page_def Let_def)
  qed
qed

end
