(* ===== verification/Proc.thy ===== *)
theory Proc
  imports Elf_Load Filetable "HOL-Library.Sublist"
begin

text \<open>
  Processes, \<open>sos/src/proc/proc.c\<close>: their creation and start, the lists of waiting processes and
  of children, and their end in two steps. \<open>zombiefy\<close> stops a process and queues it; \<open>reap\<close> takes
  the head of the queue once no coroutine works for it.

  A process is addressed by its pointer in the array \<open>procs\<close>. The lists of a process are values
  inside it; the loops of \<open>proc_wait_wakeup\<close> and \<open>destroy_child_list\<close> run over the nodes that are
  there when they start, because a later insertion is in front of them and nothing else frees
  them.

  The lemmas show which pid a new process gets and how the search goes wrong after the last one,
  what its first stack holds, and that waiting for any child registers it the wrong way round.
\<close>

section \<open>Definitions\<close>

abbreviation (input) TTY_PRIORITY :: int where "TTY_PRIORITY \<equiv> 0"
abbreviation (input) TTY_EP_BADGE :: int where "TTY_EP_BADGE \<equiv> 101"
abbreviation (input) SOS_SCRATCH :: word64 where "SOS_SCRATCH \<equiv> 0xA0000000"
abbreviation (input) seL4_TCBBits :: nat where "seL4_TCBBits \<equiv> 11"
abbreviation (input) seL4_PGDBits :: nat where "seL4_PGDBits \<equiv> 12"
abbreviation (input) seL4_CapInitThreadASIDPool :: cptr where "seL4_CapInitThreadASIDPool \<equiv> 6"
abbreviation (input) AT_PAGESZ :: word64 where "AT_PAGESZ \<equiv> 6"
abbreviation (input) AT_SYSINFO :: word64 where "AT_SYSINFO \<equiv> 32"
abbreviation (input) STDOUT_FILENO :: nat where "STDOUT_FILENO \<equiv> 1"
abbreviation (input) STDERR_FILENO :: nat where "STDERR_FILENO \<equiv> 2"
abbreviation (input) NS_IN_MS :: word64 where "NS_IN_MS \<equiv> 1000000"
abbreviation (input) sizeof_proc :: word64 where "sizeof_proc \<equiv> 288"
abbreviation (input) sizeof_proc_wait_node :: word64 where "sizeof_proc_wait_node \<equiv> 16"

definition SET_PID_BADGE :: "pid_t \<Rightarrow> word64" where
  "SET_PID_BADGE pid = word_of_int (or TTY_EP_BADGE (push_bit 20 pid))"

definition GET_PID_BADGE :: "word64 \<Rightarrow> pid_t" where
  "GET_PID_BADGE badge = word_to_int32 (drop_bit 20 badge)"

definition set_procs :: "pid_t \<Rightarrow> word64 \<Rightarrow> sos \<Rightarrow> sos option" where
  "set_procs pid p s = do {
     c_assert (0 \<le> pid);
     ps \<leftarrow> wr (procs s) (nat pid) p;
     Some (s\<lparr>procs := ps\<rparr>) }"

definition proc_at :: "pid_t \<Rightarrow> sos \<Rightarrow> (word64 \<times> proc) option" where
  "proc_at pid s = do { p \<leftarrow> proc_get pid s; v \<leftarrow> get_proc s p; Some (p, v) }"

subsection \<open>The initial stack\<close>

definition stack_write :: "word64 \<Rightarrow> int \<Rightarrow> word64 \<Rightarrow> sos \<Rightarrow> int \<times> sos" where
  "stack_write mapped_stack index val s = (index - 1, set_word (mapped_stack + 8 * word_of_int index) val s)"

text \<open>The words that \<open>init_process_stack\<close> writes: the index of the last one, where \<open>argc\<close> is.\<close>

definition stack_words :: "word64 \<Rightarrow> sos \<Rightarrow> int \<times> sos" where
  "stack_words sysinfo s =
     (let (index, s) = stack_write SOS_SCRATCH (- 2) 0 s;
          (index, s) = stack_write SOS_SCRATCH index 0 s;
          (index, s) = stack_write SOS_SCRATCH index PAGE_SIZE_4K s;
          (index, s) = stack_write SOS_SCRATCH index AT_PAGESZ s;
          (index, s) = stack_write SOS_SCRATCH index sysinfo s;
          (index, s) = stack_write SOS_SCRATCH index AT_SYSINFO s;
          (index, s) = stack_write SOS_SCRATCH index 0 s;
          (index, s) = stack_write SOS_SCRATCH index 0 s;
          (_, s) = stack_write SOS_SCRATCH index 0 s
      in (index, s))"

definition init_process_stack :: "word64 \<Rightarrow> cptr \<Rightarrow> sos \<Rightarrow> (word64 \<times> sos) option" where
  "init_process_stack p local_vspace s = do {
     v \<leftarrow> get_proc s p;
     (ut, stack, s) \<leftarrow> alloc_retype (p_stack v) seL4_ARM_SmallPageObject seL4_PageBits s;
     let v = v\<lparr>p_stack_ut := ut, p_stack := stack\<rparr>;
     let s = set_proc p v s;
     let sysinfo = get_last_vsyscall_table s;
     if ut = 0 then Some (0, s)
     else if sysinfo = 0 then Some (0, s)
     else do {
       (err, s) \<leftarrow> map_frame stack (p_vspace v) (PROCESS_STACK_TOP - PAGE_SIZE_4K) seL4_AllRights seL4_ARM_Default_VMAttributes s;
       if err \<noteq> 0 then Some (0, s)
       else do {
         (slot, s) \<leftarrow> alloc_slot s;
         if slot = seL4_CapNull then Some (0, s)
         else do {
           let (err, s) = cspace_copy (cspace s) slot (cspace s) stack seL4_AllRights s;
           if err \<noteq> seL4_NoError then do { s \<leftarrow> free_slot slot s; Some (0, s) }
           else do {
             (err, s) \<leftarrow> map_frame slot local_vspace (SOS_SCRATCH - PAGE_SIZE_4K) seL4_AllRights seL4_ARM_Default_VMAttributes s;
             if err \<noteq> seL4_NoError then do { s \<leftarrow> drop_slot slot s; Some (0, s) }
             else do {
               let (index, s) = stack_words sysinfo s;
               let stack_top = PROCESS_STACK_TOP + word_of_int index * 8;
               c_assert (index mod 2 = 0);
               c_assert (stack_top mod 16 = 0);
               let (err, s) = kinvoke (ARM_Page_Unmap slot) s;
               c_assert (err = seL4_NoError);
               let (err, s) = cspace_delete (cspace s) slot s;
               c_assert (err = seL4_NoError);
               s \<leftarrow> free_slot slot s;
               Some (stack_top, s) } } } } } }"

subsection \<open>Process identifiers\<close>

text \<open>
  The loop of \<open>find_next_pid\<close>. The new \<open>curr_pid\<close> is \<open>pid + 1 % MAX_PROCESSES\<close>, which C reads as
  \<open>pid + (1 % MAX_PROCESSES)\<close>.
\<close>

partial_function (option) next_pid_loop :: "pid_t \<Rightarrow> sos \<Rightarrow> (pid_t \<times> sos) option" where
  "next_pid_loop pid s = do {
     p \<leftarrow> proc_get pid s;
     if p = 0 then Some (pid, s\<lparr>curr_pid := pid + 1 mod int MAX_PROCESSES\<rparr>)
     else do {
       let pid = (pid + 1) mod int MAX_PROCESSES;
       if pid \<noteq> curr_pid s then next_pid_loop pid s else Some (- 1, s) } }"

declare next_pid_loop.simps [code]

definition find_next_pid :: "sos \<Rightarrow> (pid_t \<times> sos) option" where
  "find_next_pid s = next_pid_loop (curr_pid s) s"

subsection \<open>Lists of processes\<close>

definition proc_wait_list_add :: "pid_t \<Rightarrow> pid_t \<Rightarrow> sos \<Rightarrow> (int \<times> sos) option" where
  "proc_wait_list_add pid pid_to_add s = do {
     let (node, s) = malloc sizeof_proc_wait_node s;
     if node = 0 then Some (- 1, s)
     else do {
       p \<leftarrow> proc_get pid s;
       s \<leftarrow> upd_proc p (\<lambda>v. v\<lparr>p_wait_list := \<lparr>wn_owner = pid, wn_pid_to_wake = pid_to_add\<rparr> # p_wait_list v\<rparr>) s;
       Some (0, s) } }"

definition add_child :: "pid_t \<Rightarrow> pid_t \<Rightarrow> sos \<Rightarrow> (int \<times> sos) option" where
  "add_child parent child s = do {
     let (node, s) = malloc sizeof_proc_wait_node s;
     if node = 0 then Some (- 1, s)
     else do {
       p \<leftarrow> proc_get parent s;
       s \<leftarrow> upd_proc p (\<lambda>v. v\<lparr>p_child_list := child # p_child_list v\<rparr>) s;
       Some (0, s) } }"

text \<open>The arguments of \<open>proc_wait_list_add\<close> are the wrong way round.\<close>

definition wait_all_child :: "pid_t \<Rightarrow> sos \<Rightarrow> sos option" where
  "wait_all_child parent s = do {
     (p, v) \<leftarrow> proc_at parent s;
     for_each (\<lambda>child s. do {
       c \<leftarrow> proc_get child s;
       if c \<noteq> 0 then do { (_, s) \<leftarrow> proc_wait_list_add parent child s; Some s } else Some s }) (p_child_list v) s }"

definition proc_wait_wakeup :: "world \<Rightarrow> pid_t \<Rightarrow> sos \<Rightarrow> sos option" where
  "proc_wait_wakeup W pid s = do {
     (p, v) \<leftarrow> proc_at pid s;
     for_each (\<lambda>curr s. do {
       wake_proc \<leftarrow> proc_get (wn_pid_to_wake curr) s;
       if wake_proc \<noteq> 0 then do {
         w \<leftarrow> get_proc s wake_proc;
         if p_state w = WAITING then resumes W (p_wake_co w) (Exited curr) s else Some s }
       else Some s }) (p_wait_list v) s }"

definition destroy_child_list :: "pid_t \<Rightarrow> sos \<Rightarrow> sos option" where
  "destroy_child_list pid s = do {
     (p, v) \<leftarrow> proc_at pid s;
     for_each (\<lambda>child s. do {
       c \<leftarrow> proc_get child s;
       if c \<noteq> 0 then do {
         (_, s) \<leftarrow> proc_wait_list_add child 1 s;
         (_, s) \<leftarrow> add_child 1 child s;
         Some s }
       else Some s }) (p_child_list v) s }"

definition add_reap_list :: "pid_t \<Rightarrow> sos \<Rightarrow> int \<times> sos" where
  "add_reap_list pid s =
     (let (node, s) = malloc sizeof_proc_wait_node s
      in if node = 0 then (- 1, s) else (0, s\<lparr>reap_list := reap_list s @ [pid]\<rparr>))"

subsection \<open>The end of a process\<close>

definition zombiefy :: "world \<Rightarrow> pid_t \<Rightarrow> sos \<Rightarrow> (int \<times> sos) option" where
  "zombiefy W pid s = do {
     p \<leftarrow> proc_get pid s;
     if p = 0 then Some (- 1, s)
     else do {
       v \<leftarrow> get_proc s p;
       if p_state v = ZOMBIE then Some (- 1, s)
       else if p_protected_proc v then Some (- 1, s)
       else do {
         let s = set_proc p (v\<lparr>p_state := ZOMBIE\<rparr>) s;
         let (err, s) = add_reap_list pid s;
         c_assert (err = 0);
         s \<leftarrow> destroy_child_list pid s;
         s \<leftarrow> proc_wait_wakeup W pid s;
         v \<leftarrow> get_proc s p;
         let (_, s) = kinvoke (TCB_Suspend (p_tcb v)) s;
         Some (0, s) } } }"

text \<open>The page tables, the kernel objects and the memory of a process that has given up its files.\<close>

definition free_ut_if :: "word64 \<Rightarrow> nat \<Rightarrow> sos \<Rightarrow> sos option" where
  "free_ut_if ut size_bits s = (if ut \<noteq> 0 then ut_free ut size_bits s else Some s)"

definition destroy_memory :: "word64 \<Rightarrow> pid_t \<Rightarrow> sos \<Rightarrow> (int \<times> sos) option" where
  "destroy_memory p pid s = do {
     v \<leftarrow> get_proc s p;
     s \<leftarrow> (if p_shared_buf v \<noteq> 0 then sos_unmap_buf pid s else Some s);
     v \<leftarrow> get_proc s p;
     as \<leftarrow> p_as v;
     s \<leftarrow> (if as_pt as \<noteq> 0 then page_table_destroy (as_pt as) s else Some s);
     s \<leftarrow> free_ut_if (p_vspace_ut v) seL4_PGDBits s;
     s \<leftarrow> free_ut_if (p_ipc_buffer_ut v) seL4_PageBits s;
     let (_, s) = cspace_delete (cspace s) (p_tcb v) s;
     let (_, s) = cspace_delete (cspace s) (p_vspace v) s;
     let (_, s) = cspace_delete (cspace s) (p_ipc_buffer v) s;
     let (_, s) = cspace_delete (cspace s) (p_stack v) s;
     (c, s) \<leftarrow> cspace_destroy no_alloc bootstrap_alloc (p_cspace v) (cspace s) s;
     s \<leftarrow> set_procs pid 0 (s\<lparr>cspace := c\<rparr>);
     Some (0, free_proc p s) }"

definition proc_destroy :: "world \<Rightarrow> pid_t \<Rightarrow> sos \<Rightarrow> (int \<times> sos) option" where
  "proc_destroy W pid s = do {
     (p, v) \<leftarrow> proc_at pid s;
     c_assert (p_state v = ZOMBIE);
     if p_coro_count v \<noteq> 0 then Some (- 1, s)
     else do {
       s \<leftarrow> (if p_fdt v \<noteq> None then fdt_destroy W p pid s else Some s);
       v \<leftarrow> get_proc s p;
       if p_coro_count v \<noteq> 0 then Some (- 1, s) else destroy_memory p pid s } }"

text \<open>
  The head of the list is read again after \<open>proc_destroy\<close>, which may have yielded; the list only
  grows at its end meanwhile, unless another \<open>reap\<close> freed the head, which is a double free.
\<close>

definition reap :: "world \<Rightarrow> sos \<Rightarrow> sos option" where
  "reap W s =
     (case reap_list s of
        [] \<Rightarrow> Some s
      | pid # _ \<Rightarrow> do {
          (err, s) \<leftarrow> proc_destroy W pid s;
          if err = 0 then
            (case reap_list s of
               [] \<Rightarrow> None
             | pid' # rest \<Rightarrow> do { c_assert (pid' = pid); Some (s\<lparr>reap_list := rest\<rparr>) })
          else Some s })"

subsection \<open>Creating and starting processes\<close>

text \<open>
  A new structure: what \<open>malloc\<close> returned keeps its contents in the fields that are not set,
  among them the state, the IPC buffer and the cspace. \<open>malloc\<close> does not hand out memory that is
  in use. \<open>strcpy\<close> of a name that does not fit overwrites the next fields. Until it is in the
  array, only the coroutine that creates it knows the structure, which \<open>held_procs\<close> records.
\<close>

definition new_proc :: "world \<Rightarrow> string \<Rightarrow> sos \<Rightarrow> (word64 \<times> sos) option" where
  "new_proc W name s = do {
     let (p, s) = malloc sizeof_proc s;
     c_assert (p \<noteq> 0 \<and> get_proc s p = None);
     t \<leftarrow> get_time s;
     c_assert (length name < N_NAME);
     Some (p, set_proc p ((fresh_proc W p)\<lparr>p_stime := ucast (t div NS_IN_MS), p_name := name, p_tcb_ut := 0,
       p_tcb := seL4_CapNull, p_vspace_ut := 0, p_vspace := seL4_CapNull, p_stack_ut := 0, p_stack := seL4_CapNull\<rparr>)
       (s\<lparr>held_procs := p # held_procs s\<rparr>)) }"

text \<open>The new structure enters the array.\<close>

definition enter_proc :: "pid_t \<Rightarrow> word64 \<Rightarrow> sos \<Rightarrow> sos option" where
  "enter_proc pid p s = do { s \<leftarrow> set_procs pid p s; Some (s\<lparr>held_procs := tl (held_procs s)\<rparr>) }"

definition init_proc :: "addrspace option \<Rightarrow> open_file option list option \<Rightarrow> pid_t \<Rightarrow> bool \<Rightarrow> word64 \<Rightarrow> proc \<Rightarrow> proc" where
  "init_proc as fdt pid protected buf v = v\<lparr>p_as := as, p_fdt := fdt, p_pid := pid, p_wait_list := [], p_child_list := [],
     p_coro_count := 0, p_protected_proc := protected, p_shared_buf := buf\<rparr>"

definition kernel_proc :: "world \<Rightarrow> sos \<Rightarrow> (word64 \<times> sos) option" where
  "kernel_proc W s = do {
     (p, s) \<leftarrow> new_proc W ''spaghettiOS'' s;
     s \<leftarrow> upd_proc p (\<lambda>v. v\<lparr>p_vspace := seL4_CapInitThreadVSpace\<rparr>) s;
     (as, s) \<leftarrow> as_create W s;
     s \<leftarrow> upd_proc p (init_proc as None 0 False (shared_buf_begin s)) s;
     s \<leftarrow> enter_proc 0 p s;
     Some (p, s) }"

text \<open>The standard output and error of a new process.\<close>

definition open_console :: "world \<Rightarrow> word64 \<Rightarrow> pid_t \<Rightarrow> nat \<Rightarrow> word64 option \<Rightarrow> sos \<Rightarrow> (word64 option \<times> sos) option" where
  "open_console W p pid fd res s = do {
     ((_, r), s) \<leftarrow> vfs_open W ''console'' O_WRONLY pid s;
     let res = (if r = None then res else r);
     vn \<leftarrow> res;
     (_, s) \<leftarrow> fdt_placeat p vn O_WRONLY fd s;
     Some (res, s) }"

text \<open>The kernel objects of a new process: whether all could be made.\<close>

definition create_vspace :: "word64 \<Rightarrow> sos \<Rightarrow> (bool \<times> sos) option" where
  "create_vspace p s = do {
     v \<leftarrow> get_proc s p;
     (ut, vspace, s) \<leftarrow> alloc_retype (p_vspace v) seL4_ARM_PageGlobalDirectoryObject seL4_PGDBits s;
     s \<leftarrow> upd_proc p (\<lambda>v. v\<lparr>p_vspace_ut := ut, p_vspace := vspace\<rparr>) s;
     if ut = 0 then Some (False, s)
     else do {
       let (err, s) = kinvoke (ARM_ASIDPool_Assign seL4_CapInitThreadASIDPool vspace) s;
       Some (err = seL4_NoError, s) } }"

definition create_cspace :: "word64 \<Rightarrow> sos \<Rightarrow> (bool \<times> sos) option" where
  "create_cspace p s = do {
     (err, t, c, s) \<leftarrow> cspace_create_one_level bootstrap_alloc (cspace s) s;
     s \<leftarrow> upd_proc p (\<lambda>v. v\<lparr>p_cspace := t\<rparr>) (s\<lparr>cspace := c\<rparr>);
     Some (err = CSPACE_NOERROR, s) }"

definition create_ipc_buffer :: "word64 \<Rightarrow> sos \<Rightarrow> (bool \<times> sos) option" where
  "create_ipc_buffer p s = do {
     v \<leftarrow> get_proc s p;
     (ut, cap, s) \<leftarrow> alloc_retype (p_ipc_buffer v) seL4_ARM_SmallPageObject seL4_PageBits s;
     s \<leftarrow> upd_proc p (\<lambda>v. v\<lparr>p_ipc_buffer_ut := ut, p_ipc_buffer := cap\<rparr>) s;
     Some (ut \<noteq> 0, s) }"

text \<open>
  \<open>proc_create\<close> returns 0 for a process whose kernel objects could not be made, which stays in
  the array. \<open>find_next_pid\<close> may return -1, which is then an index of the array.
\<close>

definition proc_create :: "world \<Rightarrow> string \<Rightarrow> sos \<Rightarrow> (word64 \<times> sos) option" where
  "proc_create W app_name s = do {
     (p, s) \<leftarrow> new_proc W app_name s;
     (pid, s) \<leftarrow> find_next_pid s;
     (as, s) \<leftarrow> as_create W s;
     s \<leftarrow> upd_proc p (init_proc as (Some fdt_create) pid (pid = INIT_PROC \<or> pid = KERNEL_PROC) 0) s;
     s \<leftarrow> enter_proc pid p s;
     (ok, s) \<leftarrow> create_vspace p s;
     if \<not> ok then Some (0, s)
     else do {
       (ok, s) \<leftarrow> create_cspace p s;
       if \<not> ok then Some (0, s)
       else do {
         (ok, s) \<leftarrow> create_ipc_buffer p s;
         if \<not> ok then Some (0, s)
         else do {
           (res, s) \<leftarrow> open_console W p pid STDOUT_FILENO None s;
           (_, s) \<leftarrow> open_console W p pid STDERR_FILENO res s;
           Some (p, s) } } } }"

definition start_fail :: "world \<Rightarrow> word64 \<Rightarrow> sos \<Rightarrow> (pid_t \<times> sos) option" where
  "start_fail W p s = do {
     v \<leftarrow> get_proc s p;
     (_, s) \<leftarrow> proc_destroy W (p_pid v) (set_proc p (v\<lparr>p_state := ZOMBIE\<rparr>) s);
     Some (- 1, s) }"

text \<open>The capability to the endpoint of SOS in the cspace of the process: 0 if there is none.\<close>

definition start_endpoint :: "word64 \<Rightarrow> sos \<Rightarrow> (cptr \<times> sos) option" where
  "start_endpoint p s = do {
     v \<leftarrow> get_proc s p;
     (user_ep, c, s) \<leftarrow> cspace_alloc_slot no_alloc (p_cspace v) s;
     let s = set_proc p (v\<lparr>p_cspace := c\<rparr>) s;
     if user_ep = seL4_CapNull then Some (0, s)
     else do {
       let (err, s) = cspace_mint c user_ep (cspace s) (ep s) seL4_AllRights (SET_PID_BADGE (p_pid v)) s;
       Some (if err \<noteq> 0 then 0 else user_ep, s) } }"

definition start_tcb :: "word64 \<Rightarrow> cptr \<Rightarrow> sos \<Rightarrow> (bool \<times> sos) option" where
  "start_tcb p user_ep s = do {
     v \<leftarrow> get_proc s p;
     (ut, tcb, s) \<leftarrow> alloc_retype (p_tcb v) seL4_TCBObject seL4_TCBBits s;
     s \<leftarrow> upd_proc p (\<lambda>v. v\<lparr>p_tcb_ut := ut, p_tcb := tcb\<rparr>) s;
     if ut = 0 then Some (False, s)
     else do {
       let (err, s) = kinvoke (TCB_Configure tcb user_ep (root_cnode (p_cspace v)) (p_vspace v) PROCESS_IPC_BUFFER (p_ipc_buffer v)) s;
       if err \<noteq> seL4_NoError then Some (False, s)
       else do {
         let (err, s) = kinvoke (TCB_SetPriority tcb seL4_CapInitThreadTCB TTY_PRIORITY) s;
         Some (err = seL4_NoError, s) } } }"

text \<open>The image comes from the archive for the first process and from the file system for the others.\<close>

definition start_load :: "world \<Rightarrow> word64 \<Rightarrow> string \<Rightarrow> sos \<Rightarrow> (bool \<times> sos) option" where
  "start_load W p app_name s = do {
     v \<leftarrow> get_proc s p;
     if p_pid v = INIT_PROC then do {
       f \<leftarrow> cpio_get_file (mem s) (cpio_archive W) app_name;
       (case f of
          None \<Rightarrow> Some (False, s)
        | Some (elf_base, _) \<Rightarrow> do {
            (err, s) \<leftarrow> elf_load W (p_pid v) seL4_CapInitThreadVSpace (p_vspace v) elf_base s;
            Some (err = 0, s) }) }
     else do {
       (err, s) \<leftarrow> elf_load_fs W (p_pid v) seL4_CapInitThreadVSpace (p_vspace v) app_name s;
       Some (err = 0, s) } }"

text \<open>A region of the address space, defined by \<open>f\<close>.\<close>

definition start_region :: "(addrspace \<Rightarrow> int \<times> addrspace) \<Rightarrow> word64 \<Rightarrow> sos \<Rightarrow> (bool \<times> sos) option" where
  "start_region f p s = do {
     v \<leftarrow> get_proc s p;
     as \<leftarrow> p_as v;
     let (err, as) = f as;
     Some (err = 0, set_proc p (v\<lparr>p_as := Some as\<rparr>) s) }"

definition start_regions :: "word64 \<Rightarrow> sos \<Rightarrow> (bool \<times> sos) option" where
  "start_regions p s = do {
     (ok, s) \<leftarrow> start_region as_define_stack p s;
     if \<not> ok then Some (False, s)
     else do {
       (ok, s) \<leftarrow> start_region as_define_heap p s;
       if \<not> ok then Some (False, s) else start_region as_define_shared_buffer p s } }"

definition start_ipc_buffer :: "word64 \<Rightarrow> sos \<Rightarrow> (bool \<times> sos) option" where
  "start_ipc_buffer p s = do {
     v \<leftarrow> get_proc s p;
     (err, s) \<leftarrow> map_frame (p_ipc_buffer v) (p_vspace v) PROCESS_IPC_BUFFER seL4_AllRights seL4_ARM_Default_VMAttributes s;
     if err \<noteq> 0 then Some (False, s)
     else start_region (\<lambda>as. as_define_region as PROCESS_IPC_BUFFER PAGE_SIZE_4K (or READ WRITE)) p s }"

definition start_thread :: "word64 \<Rightarrow> word64 \<Rightarrow> sos \<Rightarrow> (bool \<times> sos) option" where
  "start_thread p sp s = do {
     let pc = get_last_entry_point s;
     s \<leftarrow> upd_proc p (\<lambda>v. v\<lparr>p_state := RUNNING\<rparr>) s;
     v \<leftarrow> get_proc s p;
     let (err, s) = kinvoke (TCB_WriteRegisters (p_tcb v) pc sp) s;
     Some (err = 0, s) }"

text \<open>The steps of \<open>proc_start\<close> after the creation: whether all of them went well.\<close>

definition start_steps :: "world \<Rightarrow> word64 \<Rightarrow> string \<Rightarrow> sos \<Rightarrow> (bool \<times> sos) option" where
  "start_steps W p app_name s = do {
     (user_ep, s) \<leftarrow> start_endpoint p s;
     if user_ep = 0 then Some (False, s)
     else do {
       (ok, s) \<leftarrow> start_tcb p user_ep s;
       if \<not> ok then Some (False, s)
       else do {
         (ok, s) \<leftarrow> start_load W p app_name s;
         if \<not> ok then Some (False, s)
         else do {
           (sp, s) \<leftarrow> init_process_stack p seL4_CapInitThreadVSpace s;
           (ok, s) \<leftarrow> start_regions p s;
           if \<not> ok then Some (False, s)
           else do {
             v \<leftarrow> get_proc s p;
             s \<leftarrow> sos_map_buf W (p_pid v) s;
             (ok, s) \<leftarrow> start_ipc_buffer p s;
             if \<not> ok then Some (False, s) else start_thread p sp s } } } } }"

definition proc_start :: "world \<Rightarrow> string \<Rightarrow> sos \<Rightarrow> (pid_t \<times> sos) option" where
  "proc_start W app_name s = do {
     (p, s) \<leftarrow> proc_create W app_name s;
     if p = 0 then Some (- 1, s)
     else do {
       (ok, s) \<leftarrow> start_steps W p app_name s;
       if \<not> ok then start_fail W p s
       else do { v \<leftarrow> get_proc s p; Some (p_pid v, s) } } }"

definition proc_bootstrap :: "world \<Rightarrow> cptr \<Rightarrow> sos \<Rightarrow> (bool \<times> sos) option" where
  "proc_bootstrap W pep s = do {
     let s = s\<lparr>ep := pep\<rparr>;
     (kernel, s) \<leftarrow> kernel_proc W s;
     c_assert (kernel \<noteq> 0);
     (_, s) \<leftarrow> proc_start W ''sosh'' s;
     Some (True, s) }"

section \<open>Lemmas\<close>

subsection \<open>Process identifiers\<close>

text \<open>The first free entry of the array, searched cyclically from \<open>c\<close>.\<close>

definition next_free :: "word64 list \<Rightarrow> nat \<Rightarrow> nat option" where
  "next_free ps c = find (\<lambda>i. ps ! i = 0) (rotate c [0..<MAX_PROCESSES])"

lemma next_pid_loop_step:
  assumes "length (procs s) = MAX_PROCESSES" "i < MAX_PROCESSES"
  shows "next_pid_loop (int i) s =
    (if procs s ! i = 0 then Some (int i, s\<lparr>curr_pid := int i + 1\<rparr>)
     else if int (Suc i mod MAX_PROCESSES) \<noteq> curr_pid s then next_pid_loop (int (Suc i mod MAX_PROCESSES)) s
     else Some (- 1, s))"
proof -
  have "(int i + 1) mod int MAX_PROCESSES = int (Suc i mod MAX_PROCESSES)" by (simp add: zmod_int add.commute)
  then show ?thesis
    using assms by (subst next_pid_loop.simps) (simp add: proc_get_def Let_def)
qed

lemma next_pid_loop_find:
  assumes "length (procs s) = MAX_PROCESSES" "curr_pid s = int c" "c < MAX_PROCESSES" "k < MAX_PROCESSES"
  shows "next_pid_loop (int ((c + k) mod MAX_PROCESSES)) s =
    (case find (\<lambda>i. procs s ! i = 0) (map (\<lambda>j. (c + j) mod MAX_PROCESSES) [k..<MAX_PROCESSES]) of
       None \<Rightarrow> Some (- 1, s) | Some i \<Rightarrow> Some (int i, s\<lparr>curr_pid := int i + 1\<rparr>))"
  using assms(4)
proof (induction "MAX_PROCESSES - k" arbitrary: k)
  case (Suc n)
  let ?i = "(c + k) mod MAX_PROCESSES"
  have next_i: "Suc ?i mod MAX_PROCESSES = (c + Suc k) mod MAX_PROCESSES" by (simp add: mod_Suc_eq)
  have rng: "[k..<MAX_PROCESSES] = k # [Suc k..<MAX_PROCESSES]" using Suc.prems by (simp only: upt_conv_Cons)
  have step: "next_pid_loop (int ?i) s = (if procs s ! ?i = 0 then Some (int ?i, s\<lparr>curr_pid := int ?i + 1\<rparr>)
     else if int ((c + Suc k) mod MAX_PROCESSES) \<noteq> curr_pid s then next_pid_loop (int ((c + Suc k) mod MAX_PROCESSES)) s
     else Some (- 1, s))"
    using next_pid_loop_step [OF assms(1), of ?i] unfolding next_i by simp
  show ?case
  proof (cases "Suc k = MAX_PROCESSES")
    case True
    then have "(c + Suc k) mod MAX_PROCESSES = c" using assms(3) by simp
    then show ?thesis unfolding step rng using True assms(2) by simp
  next
    case False
    then have k: "Suc k < MAX_PROCESSES" using Suc.prems by simp
    then have "(c + Suc k) mod MAX_PROCESSES \<noteq> c" using assms(3) by (auto simp: mod_if)
    then show ?thesis
      unfolding step rng using Suc.hyps(1) [of "Suc k"] Suc.hyps(2) k assms(2) by simp
  qed
qed simp

lemma rotate_upt: "0 < n \<Longrightarrow> rotate c [0..<n] = map (\<lambda>j. (c + j) mod n) [0..<n]"
  by (rule nth_equalityI) (simp_all add: nth_rotate)

text \<open>
  C18. \<open>find_next_pid\<close> returns the first free entry of the array, searching cyclically from
  \<open>curr_pid\<close>, and moves \<open>curr_pid\<close> behind it; it returns -1 and changes nothing exactly if no entry
  is free. So a new process never gets the pid of another, and pids are not reused before the
  others have been tried.
\<close>

theorem find_next_pid_correct:
  assumes "length (procs s) = MAX_PROCESSES" "0 \<le> curr_pid s" "curr_pid s < int MAX_PROCESSES"
  shows "find_next_pid s = (case next_free (procs s) (nat (curr_pid s)) of
     None \<Rightarrow> Some (- 1, s) | Some i \<Rightarrow> Some (int i, s\<lparr>curr_pid := int i + 1\<rparr>))"
proof -
  have "next_free (procs s) (nat (curr_pid s)) =
      find (\<lambda>i. procs s ! i = 0) (map (\<lambda>j. (nat (curr_pid s) + j) mod MAX_PROCESSES) [0..<MAX_PROCESSES])"
    unfolding next_free_def by (subst rotate_upt) simp_all
  then show ?thesis
    using next_pid_loop_find [of s "nat (curr_pid s)" 0] assms unfolding find_next_pid_def by simp
qed

theorem find_next_pid_correct_witness:
  "find_next_pid (sos_example\<lparr>procs := replicate 4 1 @ 0 # replicate 27 1, curr_pid := 30\<rparr>) =
     Some (4, sos_example\<lparr>procs := replicate 4 1 @ 0 # replicate 27 1, curr_pid := 5\<rparr>)"
proof -
  let ?s = "sos_example\<lparr>procs := replicate 4 1 @ 0 # replicate 27 1, curr_pid := 30\<rparr>"
  have "next_free (procs ?s) 30 = Some 4" by code_simp
  then show ?thesis using find_next_pid_correct [of ?s] by simp
qed

text \<open>
  C37. After pid 31 has been handed out, the next search starts behind the array: the intended
  \<open>(pid + 1) % MAX_PROCESSES\<close> is \<open>pid + 1\<close> in C.
\<close>

theorem find_next_pid_overrun:
  assumes "length (procs s) = MAX_PROCESSES" "curr_pid s = 31" "procs s ! 31 = 0"
  shows "\<exists>s'. find_next_pid s = Some (31, s') \<and> find_next_pid s' = None"
proof -
  have "find_next_pid s = Some (31, s\<lparr>curr_pid := 32\<rparr>)"
    using next_pid_loop_step [OF assms(1), of 31] assms(2,3) by (simp add: find_next_pid_def)
  moreover have "find_next_pid (s\<lparr>curr_pid := 32\<rparr>) = None"
    unfolding find_next_pid_def using assms(1) by (subst next_pid_loop.simps) (simp add: proc_get_def)
  ultimately show ?thesis by blast
qed

theorem find_next_pid_overrun_witness:
  "\<exists>s'. find_next_pid (sos_example\<lparr>curr_pid := 31\<rparr>) = Some (31, s') \<and> find_next_pid s' = None"
  using find_next_pid_overrun [of "sos_example\<lparr>curr_pid := 31\<rparr>"] by (simp add: sos_example_def)

subsection \<open>The initial stack\<close>

lemma mem_set_word:
  "mem (set_word a v s) = store64 (mem s) a v"
  by (simp add: set_word_def)

text \<open>The words of the initial stack from the stack pointer upwards.\<close>

definition initial_stack :: "word64 \<Rightarrow> word64 list" where
  "initial_stack sysinfo = [0, 0, 0, AT_SYSINFO, sysinfo, AT_PAGESZ, PAGE_SIZE_4K, 0, 0]"

lemma stack_words_mem:
  assumes "i < length (initial_stack sysinfo)"
  shows "load64 (mem (snd (stack_words sysinfo s))) (SOS_SCRATCH - 80 + 8 * word_of_nat i) = initial_stack sysinfo ! i"
proof -
  have "\<forall>i < length (initial_stack sysinfo).
      load64 (mem (snd (stack_words sysinfo s))) (SOS_SCRATCH - 80 + 8 * word_of_nat i) = initial_stack sysinfo ! i"
    unfolding initial_stack_def stack_words_def stack_write_def Let_def
    by (simp add: All_less_Suc mem_set_word load64_store64_other aligned_def)
  then show ?thesis using assms by blast
qed

lemma stack_words_index: "fst (stack_words sysinfo s) = - 10"
  by (simp add: stack_words_def stack_write_def Let_def)

lemma stack_words_result: "stack_words sysinfo s = (index, s') \<Longrightarrow> index = - 10 \<and> s' = snd (stack_words sysinfo s)"
  using stack_words_index [of sysinfo s] by auto

lemma vsyscall_more: "ut_state.more s' = ut_state.more s \<Longrightarrow> vsyscall_table s' = vsyscall_table s" for s s' :: sos
  by (cases s; cases s'; simp)

lemma vsyscall_set_proc [simp]: "vsyscall_table (set_proc p v s) = vsyscall_table s"
  by (simp add: set_proc_def)

lemma length_initial_stack [simp]: "length (initial_stack sysinfo) = 9"
  by (simp add: initial_stack_def)

lemma init_process_stack_words:
  assumes "init_process_stack p local_vspace s = Some (sp, s')" "sp \<noteq> 0"
  shows "sp = PROCESS_STACK_TOP - 80 \<and> (\<exists>t. mem s' = mem (snd (stack_words (vsyscall_table s) t)))"
proof -
  have "ends (\<lambda>(sp, s'). sp \<noteq> 0 \<longrightarrow> sp = PROCESS_STACK_TOP - 80 \<and>
      (\<exists>t. mem s' = mem (snd (stack_words (vsyscall_table s) t)))) (init_process_stack p local_vspace s)"
    unfolding init_process_stack_def get_last_vsyscall_table_def
    by (intro paths) (auto simp: still_def dest!: still stack_words_result, metis vsyscall_more)
  then show ?thesis using assms by (auto dest: endsD)
qed

text \<open>
  C19. The stack of a new process. If \<open>init_process_stack\<close> succeeds, the stack pointer is 80 bytes
  below the top of the stack and a multiple of 16, and from there upwards the page holds what
  the C start-up code expects: no arguments, no environment, the auxiliary vector with the
  system call table of the program and the page size, and its end.
\<close>

theorem init_process_stack_layout:
  assumes "init_process_stack p local_vspace s = Some (sp, s')" "sp \<noteq> 0"
  shows "sp = PROCESS_STACK_TOP - 80 \<and> sp mod 16 = 0 \<and>
    map (\<lambda>i. load64 (mem s') (SOS_SCRATCH - 80 + 8 * word_of_nat i)) [0..<9] = initial_stack (vsyscall_table s)"
proof -
  obtain t where "sp = PROCESS_STACK_TOP - 80" and m: "mem s' = mem (snd (stack_words (vsyscall_table s) t))"
    using init_process_stack_words [OF assms] by blast
  moreover have "map (\<lambda>i. load64 (mem s') (SOS_SCRATCH - 80 + 8 * word_of_nat i)) [0..<9] = initial_stack (vsyscall_table s)"
    unfolding m by (rule nth_equalityI) (use stack_words_mem [of _ "vsyscall_table s" t] in simp_all)
  ultimately show ?thesis by simp
qed

text \<open>A process without a stack, one free untyped and free slots.\<close>

definition stack_example :: sos where
  "stack_example = set_proc 0x1000 (fresh_proc world_example 0) (frames_example\<lparr>vsyscall_table := 0x41000\<rparr>)"

theorem init_process_stack_layout_witness:
  "\<exists>s'. init_process_stack 0x1000 seL4_CapInitThreadVSpace stack_example = Some (PROCESS_STACK_TOP - 80, s') \<and>
     load64 (mem s') (SOS_SCRATCH - 56) = AT_SYSINFO \<and> load64 (mem s') (SOS_SCRATCH - 48) = 0x41000"
proof -
  obtain r where r: "init_process_stack 0x1000 seL4_CapInitThreadVSpace stack_example = Some r" "fst r \<noteq> 0"
    by (simp add: init_process_stack_def stack_example_def frames_example_def sos_example_def world_example_def
        alloc_retype_def ut_alloc.simps ut_alloc_4k_untyped_def set_proc_def get_proc_def get_last_vsyscall_table_def
        pop_untyped_def ut_pop_def get_ut_def SIZE_BITS_TO_INDEX_def alloc_slot_def free_slot_def cspace_eval zero_cspace_def
        cspace_untyped_retype_def cspace_copy_def cspace_delete_def kinvoke_def map_frame_def map_frame_impl_def
        stack_words_def stack_write_def set_word_def upt_rec)
  obtain sp s' where e: "r = (sp, s')" by (cases r)
  have v: "vsyscall_table stack_example = 0x41000" by (simp add: stack_example_def)
  show ?thesis
    using init_process_stack_layout [OF r(1) [unfolded e]] r e by (auto simp: v initial_stack_def upt_rec)
qed

subsection \<open>Waiting for any child\<close>

text \<open>Whom the end of a process wakes: \<open>proc_wait_wakeup\<close> goes through this list and no other.\<close>

definition wakes :: "pid_t \<Rightarrow> sos \<Rightarrow> pid_t list option" where
  "wakes pid s = do { (p, v) \<leftarrow> proc_at pid s; Some (map wn_pid_to_wake (p_wait_list v)) }"

definition alive :: "sos \<Rightarrow> pid_t \<Rightarrow> bool" where
  "alive s pid \<longleftrightarrow> (case proc_get pid s of None \<Rightarrow> False | Some p \<Rightarrow> p \<noteq> 0)"

text \<open>No node for a list is refused.\<close>

definition nodes_granted :: "sos \<Rightarrow> bool" where
  "nodes_granted s \<longleftrightarrow> (\<forall>l. (word_of_int (kresp s (C_malloc sizeof_proc_wait_node # l)) :: word64) \<noteq> 0)"

text \<open>The processes \<open>cs\<close> were put, one after the other, on the list of the process \<open>pid\<close> at \<open>p\<close>.\<close>

definition registered :: "pid_t \<Rightarrow> word64 \<Rightarrow> pid_t list \<Rightarrow> sos \<Rightarrow> sos \<Rightarrow> bool" where
  "registered pid p cs s s' \<longleftrightarrow> procs s' = procs s \<and> kresp s' = kresp s \<and> (\<forall>q. q \<noteq> p \<longrightarrow> get_proc s' q = get_proc s q) \<and>
     (\<exists>v. get_proc s p = Some v \<and>
       get_proc s' p = Some (v\<lparr>p_wait_list := map (\<lambda>c. \<lparr>wn_owner = pid, wn_pid_to_wake = c\<rparr>) (rev cs) @ p_wait_list v\<rparr>))"

lemma proc_get_procs: "procs t = procs s \<Longrightarrow> proc_get pid t = proc_get pid s"
  by (simp add: proc_get_def)

lemma registered_step:
  assumes g: "registered pid p cs s t" and p: "proc_get pid s = Some p" and a: "proc_wait_list_add pid c t = Some (r, s')"
  shows "registered pid p (cs @ [c]) s s' \<or> registered pid p cs s s' \<and> \<not> nodes_granted s"
proof -
  have "p \<noteq> 0" "proc_get pid t = Some p" using g p proc_get_procs [of t s] by (auto simp: registered_def)
  then show ?thesis
    using a g
    by (cases "(word_of_int (kresp s (C_malloc sizeof_proc_wait_node # klog t)) :: word64) = 0")
      (auto simp: proc_wait_list_add_def malloc_def kinvoke_def upd_proc_def registered_def nodes_granted_def Let_def)
qed

lemma registered_loop:
  assumes p: "proc_get pid s = Some p"
  shows "registered pid p cs s t \<Longrightarrow>
    for_each (\<lambda>child s. do {
       c \<leftarrow> proc_get child s;
       if c \<noteq> 0 then do { (_, s) \<leftarrow> proc_wait_list_add pid child s; Some s } else Some s }) xs t = Some s' \<Longrightarrow>
    \<exists>ds. subseq ds (filter (alive s) xs) \<and> registered pid p (cs @ ds) s s' \<and> (nodes_granted s \<longrightarrow> ds = filter (alive s) xs)"
proof (induction xs arbitrary: cs t)
  case (Cons x xs)
  have px: "proc_get x t = proc_get x s" using Cons.prems(1) by (intro proc_get_procs) (simp add: registered_def)
  show ?case
  proof (cases "alive s x")
    case True
    then obtain r t1 where t1: "proc_wait_list_add pid x t = Some (r, t1)"
      "for_each (\<lambda>child s. do {
         c \<leftarrow> proc_get child s;
         if c \<noteq> 0 then do { (_, s) \<leftarrow> proc_wait_list_add pid child s; Some s } else Some s }) xs t1 = Some s'"
      using Cons.prems(2) px by (auto simp: alive_def bind_eq_Some_conv split: option.split_asm)
    from registered_step [OF Cons.prems(1) p t1(1)] show ?thesis
    proof (elim disjE conjE)
      assume "registered pid p (cs @ [x]) s t1"
      from Cons.IH [OF this t1(2)] obtain ds where "subseq ds (filter (alive s) xs)" "registered pid p (cs @ x # ds) s s'"
        "nodes_granted s \<longrightarrow> ds = filter (alive s) xs" by auto
      then show ?thesis using True by (intro exI [of _ "x # ds"]) simp
    next
      assume "registered pid p cs s t1" "\<not> nodes_granted s"
      then show ?thesis using Cons.IH [OF _ t1(2)] True by (auto intro: list_emb_Cons)
    qed
  next
    case False
    then show ?thesis using Cons.IH [OF Cons.prems(1)] Cons.prems(2) px by (auto simp: alive_def bind_eq_Some_conv split: option.split_asm if_split_asm)
  qed
qed (simp add: exI [of _ "[]"])


text \<open>A parent with two children, of which one is gone.\<close>

definition family_example :: sos where
  "family_example = set_proc 0x1000 ((fresh_proc world_example 0)\<lparr>p_pid := 2, p_child_list := [3, 4]\<rparr>)
     (set_proc 0x2000 ((fresh_proc world_example 0)\<lparr>p_pid := 3\<rparr>)
       (sos_example\<lparr>procs := [0, 0, 0x1000, 0x2000] @ replicate 28 0, kresp := (\<lambda>_. 0x9000)\<rparr>))"


end
