(* ===== verification/Syscalls.thy ===== *)
theory Syscalls
  imports Proc
begin

text \<open>
  The system calls on processes, time and memory: \<open>proc_syscalls.c\<close>, \<open>time_syscalls.c\<close> and
  \<open>vm_syscalls.c\<close> of \<open>sos/src/syscall\<close>. Like the calls on files they get the pointer of the calling
  process, read their arguments from the message registers and return the number of words of
  the reply.
\<close>

section \<open>Definitions\<close>

abbreviation (input) sizeof_sos_process_t :: nat where "sizeof_sos_process_t \<equiv> 44"

text \<open>A callback of the timer driver is a function pointer; this is the one of \<open>usleep_handler\<close>.\<close>

abbreviation (input) USLEEP_HANDLER :: word64 where "USLEEP_HANDLER \<equiv> 1"

subsection \<open>Processes\<close>

text \<open>
  \<open>path[nbytes] = 0\<close> writes the byte behind the array; it ends the string like a last element of
  the array would. A longer array than the shared buffer is not filled.
\<close>

definition process_path :: "pid_t \<Rightarrow> word64 \<Rightarrow> sos \<Rightarrow> string option" where
  "process_path pid nbytes s =
     (let bs = copyout_bytes pid nbytes s
      in c_string (if length bs = unat nbytes then bs @ [0] else bs))"

definition syscall_proc_create :: "world \<Rightarrow> word64 \<Rightarrow> sos \<Rightarrow> (int \<times> sos) option" where
  "syscall_proc_create W curproc s = do {
     v \<leftarrow> get_proc s curproc;
     path \<leftarrow> process_path (p_pid v) (GetMR 1 s) s;
     (pid, s) \<leftarrow> proc_start W path s;
     s \<leftarrow> (if 2 \<le> pid then do {
             v \<leftarrow> get_proc s curproc;
             (_, s) \<leftarrow> add_child (p_pid v) pid s;
             Some s }
           else Some s);
     reply1 (word_of_int pid) s }"

text \<open>An invalid pid is answered with -1, and then looked up all the same.\<close>

definition syscall_proc_delete :: "world \<Rightarrow> word64 \<Rightarrow> sos \<Rightarrow> (int \<times> sos) option" where
  "syscall_proc_delete W curproc s = do {
     let pid = word_to_int32 (GetMR 1 s);
     let s = (if pid \<le> 0 \<or> int MAX_PROCESSES \<le> pid then SetMR 0 (- 1) s else s);
     (ret, s) \<leftarrow> zombiefy W pid s;
     reply1 (word_of_int ret) s }"

definition syscall_proc_my_id :: "word64 \<Rightarrow> sos \<Rightarrow> (int \<times> sos) option" where
  "syscall_proc_my_id curproc s = do {
     v \<leftarrow> get_proc s curproc;
     reply1 (word_of_int (p_pid v)) s }"

text \<open>The start of a \<open>sos_process_t\<close>: the bytes of the name's array behind its zero are not set.\<close>

definition status_bytes :: "pid_t \<Rightarrow> int \<Rightarrow> proc \<Rightarrow> byte list" where
  "status_bytes pid sz v = word_bytes 4 (word_of_int pid) @ word_bytes 4 (word_of_int sz) @
     word_bytes 4 (ucast (p_stime v)) @ string_bytes (p_name v)"

definition status_step :: "word64 \<Rightarrow> nat \<Rightarrow> nat \<times> sos \<Rightarrow> (nat \<times> sos) option" where
  "status_step processes i ns = (let (nactive, s) = ns in do {
     p \<leftarrow> proc_get (int i) s;
     if p \<noteq> 0 then do {
       v \<leftarrow> get_proc s p;
       c_assert (processes \<noteq> 0);
       sz \<leftarrow> get_proc_size v s;
       let a = processes + word_of_nat (sizeof_sos_process_t * nactive);
       Some (nactive + 1, s\<lparr>mem := store_list (mem s) a (status_bytes (int i) sz v)\<rparr>) }
     else Some (nactive, s) })"

definition syscall_proc_status :: "word64 \<Rightarrow> sos \<Rightarrow> (int \<times> sos) option" where
  "syscall_proc_status curproc s = do {
     let max = (ucast (GetMR 1 s) :: word32);
     let (processes, s) = malloc (word_of_nat sizeof_sos_process_t * ucast max) s;
     (nactive, s) \<leftarrow> for_each (status_step processes) [1..<unat max] (0, s);
     v \<leftarrow> get_proc s curproc;
     let (_, s) = sos_copyin (p_pid v) processes (word_of_nat (nactive * sizeof_sos_process_t)) s;
     reply1 (word_of_nat nactive) s }"

definition syscall_proc_wait :: "world \<Rightarrow> word64 \<Rightarrow> sos \<Rightarrow> (int \<times> sos) option" where
  "syscall_proc_wait W curproc s = do {
     let pid = word_to_int32 (GetMR 1 s);
     if pid < - 1 \<or> pid = KERNEL_PROC \<or> int MAX_PROCESSES \<le> pid then reply1 (- 1) s
     else do {
       p \<leftarrow> proc_get pid s;
       gone \<leftarrow> (if p = 0 then Some True else do { v \<leftarrow> get_proc s p; Some (p_state v = ZOMBIE) });
       if gone then reply1 (- 1) s
       else do {
         s \<leftarrow> upd_proc curproc (\<lambda>v. v\<lparr>p_state := WAITING\<rparr>) s;
         v \<leftarrow> get_proc s curproc;
         s \<leftarrow> (if 1 \<le> pid then do { (_, s) \<leftarrow> proc_wait_list_add pid (p_pid v) s; Some s }
               else wait_all_child (p_pid v) s);
         s \<leftarrow> upd_proc curproc (\<lambda>v. v\<lparr>p_wake_co := running s\<rparr>) s;
         (w, s) \<leftarrow> yields W On_exit s;
         node \<leftarrow> (case w of Exited node \<Rightarrow> Some node | _ \<Rightarrow> None);
         curproc \<leftarrow> proc_get (wn_pid_to_wake node) s;
         s \<leftarrow> upd_proc curproc (\<lambda>v. v\<lparr>p_state := RUNNING\<rparr>) s;
         reply1 (word_of_int (wn_owner node)) s } } }"

subsection \<open>Time\<close>

definition usleep_handler :: "world \<Rightarrow> word64 \<Rightarrow> sos \<Rightarrow> sos option" where
  "usleep_handler W data s = do {
     s \<leftarrow> resumes W data Woken (s\<lparr>timer_fired := True\<rparr>);
     Some (SetMR 0 0 s) }"

text \<open>The product \<open>msec * 1000\<close> is an \<open>int\<close>, whose overflow is undefined.\<close>

definition syscall_usleep :: "world \<Rightarrow> word64 \<Rightarrow> sos \<Rightarrow> (int \<times> sos) option" where
  "syscall_usleep W curproc s = do {
     let msec = word_to_int32 (GetMR 1 s);
     c_assert (- (2 ^ 31) \<le> msec * 1000 \<and> msec * 1000 < 2 ^ 31);
     (timer, s) \<leftarrow> register_timer (word_of_int (msec * 1000)) ONE_SHOT USLEEP_HANDLER (running s) (s\<lparr>timer_fired := False\<rparr>);
     if timer = 0 then reply1 1 s
     else if \<not> timer_fired s then do {
       (_, s) \<leftarrow> yields W On_timer s;
       Some (1, s) }
     else Some (1, s) }"

definition syscall_time_stamp :: "word64 \<Rightarrow> sos \<Rightarrow> (int \<times> sos) option" where
  "syscall_time_stamp curproc s = do {
     t \<leftarrow> get_time s;
     reply1 t s }"

subsection \<open>Memory\<close>

definition syscall_brk :: "word64 \<Rightarrow> sos \<Rightarrow> (int \<times> sos) option" where
  "syscall_brk curproc s = do {
     let newbrk = GetMR 1 s;
     v \<leftarrow> get_proc s curproc;
     as \<leftarrow> p_as v;
     heap \<leftarrow> as_heap as;
     let hbase = (if newbrk \<ge> PROCESS_HEAP_BASE then newbrk else vbase heap);
     Some (2, SetMR 1 hbase (SetMR 0 0 s)) }"

end
