(* ===== verification/Bootstrap.thy ===== *)
theory Bootstrap
  imports Ut_Alloc Dma
begin

text \<open>
  The start of the root task, \<open>sos/src/bootstrap.c\<close>: the cspace of SOS and the table of untyped
  memory from what the kernel's \<open>seL4_BootInfo\<close> says. The boot information is an argument; its
  array of untypeds and the static array \<open>boot_info_avail_bytes\<close> have the same number of entries.
  \<open>fan_out\<close> is \<open>CONFIG_RETYPE_FAN_OUT_LIMIT\<close> of the kernel's configuration. The callbacks that the
  finished cspace uses are in the theory \<open>Mapping\<close>.
\<close>

section \<open>Definitions\<close>

abbreviation (input) INITIAL_TASK_CNODE_SIZE_BITS :: nat where "INITIAL_TASK_CNODE_SIZE_BITS \<equiv> 18"
abbreviation (input) SOS_UT_TABLE :: word64 where "SOS_UT_TABLE \<equiv> 0x8000000000"
abbreviation (input) SOS_DMA_SIZE_BITS :: nat where "SOS_DMA_SIZE_BITS \<equiv> 21"
abbreviation (input) seL4_MaxUntypedBits :: nat where "seL4_MaxUntypedBits \<equiv> 47"
abbreviation (input) seL4_PageTableIndexBits :: nat where "seL4_PageTableIndexBits \<equiv> 9"
abbreviation (input) seL4_PageTableBits :: nat where "seL4_PageTableBits \<equiv> 12"
abbreviation (input) seL4_PUDBits :: nat where "seL4_PUDBits \<equiv> 12"
abbreviation (input) seL4_PageDirBits :: nat where "seL4_PageDirBits \<equiv> 12"
abbreviation (input) seL4_CapIOPortControl :: cptr where "seL4_CapIOPortControl \<equiv> 7"
abbreviation (input) seL4_CapIOSpace :: cptr where "seL4_CapIOSpace \<equiv> 8"
abbreviation (input) UINTPTR_MAX :: word64 where "UINTPTR_MAX \<equiv> 0xFFFFFFFFFFFFFFFF"

record seL4_UntypedDesc =
  ud_paddr :: word64
  ud_sizeBits :: nat
  ud_isDevice :: bool

record seL4_BootInfo =
  bi_empty_start :: cptr
  bi_empty_end :: cptr
  bi_untyped_start :: cptr
  bi_untyped_end :: cptr
  bi_untypedList :: "seL4_UntypedDesc list"

definition ALIGN_UP :: "word64 \<Rightarrow> word64 \<Rightarrow> word64" where
  "ALIGN_UP x n = (x + n - 1) AND NOT (n - 1)"

definition ALIGN_DOWN :: "word64 \<Rightarrow> word64 \<Rightarrow> word64" where
  "ALIGN_DOWN x n = x AND NOT (n - 1)"

definition LOG_BASE_2 :: "word64 \<Rightarrow> nat" where
  "LOG_BASE_2 n = 63 - length (takeWhile (\<lambda>i. \<not> bit n (63 - i)) [0..<64])"

definition n_untypeds :: "seL4_BootInfo \<Rightarrow> nat" where
  "n_untypeds bi = unat (bi_untyped_end bi - bi_untyped_start bi)"

subsection \<open>Untyped memory\<close>

text \<open>The number of capabilities of the given size, and \<open>boot_info_avail_bytes\<close>.\<close>

definition ut_caps_step :: "seL4_BootInfo \<Rightarrow> nat \<Rightarrow> nat \<Rightarrow> word64 \<times> word64 list \<Rightarrow> (word64 \<times> word64 list) option" where
  "ut_caps_step bi size_bits i na = (let (n_caps, avail) = na in do {
     u \<leftarrow> rd (bi_untypedList bi) i;
     avail \<leftarrow> wr avail i (BIT (ud_sizeBits u));
     Some (if ud_sizeBits u \<ge> size_bits then n_caps + BIT (ud_sizeBits u - size_bits) else n_caps, avail) })"

definition calculate_ut_caps :: "seL4_BootInfo \<Rightarrow> nat \<Rightarrow> word64 list \<Rightarrow> (word64 \<times> word64 list) option" where
  "calculate_ut_caps bi size_bits avail = for_each (ut_caps_step bi size_bits) [0..<n_untypeds bi] (0, avail)"

definition paddr_from_avail_bytes :: "seL4_BootInfo \<Rightarrow> word64 list \<Rightarrow> nat \<Rightarrow> nat \<Rightarrow> word64 option" where
  "paddr_from_avail_bytes bi avail i size_bits = do {
     u \<leftarrow> rd (bi_untypedList bi) i;
     a \<leftarrow> rd avail i;
     let taken = BIT (ud_sizeBits u) - a;
     let taken = ROUND_UP taken (BIT size_bits);
     Some (ud_paddr u + taken) }"

text \<open>The loop of \<open>steal_untyped\<close>: the capability, the physical address and the new array.\<close>

primrec steal_loop :: "seL4_BootInfo \<Rightarrow> nat \<Rightarrow> nat list \<Rightarrow> word64 list \<Rightarrow> (cptr \<times> word64 \<times> word64 list) option" where
  "steal_loop bi size_bits [] avail = Some (seL4_CapNull, 0, avail)"
| "steal_loop bi size_bits (i # is) avail = do {
     a \<leftarrow> rd avail i;
     if a \<ge> BIT size_bits then do {
       paddr \<leftarrow> paddr_from_avail_bytes bi avail i size_bits;
       Some (word_of_nat i + bi_untyped_start bi, paddr, avail[i := a - BIT size_bits]) }
     else steal_loop bi size_bits is avail }"

definition steal_untyped :: "seL4_BootInfo \<Rightarrow> nat \<Rightarrow> word64 list \<Rightarrow> (cptr \<times> word64 \<times> word64 list) option" where
  "steal_untyped bi size_bits avail = do {
     c_assert (size_bits \<ge> seL4_PageBits);
     c_assert (size_bits \<le> seL4_MaxUntypedBits);
     steal_loop bi size_bits [0..<n_untypeds bi] avail }"

definition bounds_untyped :: "seL4_BootInfo \<Rightarrow> nat \<Rightarrow> ut_region_t \<Rightarrow> ut_region_t option" where
  "bounds_untyped bi i memory = do {
     u \<leftarrow> rd (bi_untypedList bi) i;
     let e = ud_paddr u + BIT (ud_sizeBits u);
     Some (memory\<lparr>ur_start := min (ur_start memory) (ud_paddr u), ur_end := max e (ur_end memory)\<rparr>) }"

definition find_memory_bounds :: "seL4_BootInfo \<Rightarrow> ut_region_t option" where
  "find_memory_bounds bi = do {
     memory \<leftarrow> for_each (bounds_untyped bi) [0..<n_untypeds bi] \<lparr>ur_start = UINTPTR_MAX, ur_end = 0\<rparr>;
     c_assert (ur_end memory > ur_start memory);
     Some memory }"

subsection \<open>The new cspace\<close>

text \<open>An invocation whose failure aborts.\<close>

definition must :: "kcall \<Rightarrow> 'a m \<Rightarrow> 'a m option" where
  "must c s = (let (err, s) = kinvoke c s in if err \<noteq> 0 then None else Some s)"

definition must_retype :: "cptr \<Rightarrow> cptr \<Rightarrow> nat \<Rightarrow> nat \<Rightarrow> 'a ut \<Rightarrow> 'a ut option" where
  "must_retype ut target ty size_bits s =
     (let (err, s) = cspace_untyped_retype (cspace s) ut target ty size_bits s in if err \<noteq> 0 then None else Some s)"

partial_function (option) create_cnodes :: "word64 \<Rightarrow> cptr \<Rightarrow> cptr \<Rightarrow> word64 \<Rightarrow> word64 \<Rightarrow> 'a m \<Rightarrow> 'a m option" where
  "create_cnodes fan_out ut_cptr level1_cptr ncnodes rest s =
     (if rest > 0 then do {
        let chunk = min fan_out rest;
        s \<leftarrow> must (Untyped_Retype ut_cptr seL4_CapTableObject (CNODE_SLOT_BITS CNODE_SIZE_BITS) level1_cptr 0 0
                     (ncnodes - rest) (unat chunk)) s;
        create_cnodes fan_out ut_cptr level1_cptr ncnodes (rest - chunk) s }
      else Some s)"

declare create_cnodes.simps [code]

definition boot_depth :: nat where
  "boot_depth = CNODE_SLOT_BITS INITIAL_TASK_CNODE_SIZE_BITS + CNODE_SLOT_BITS CNODE_SIZE_BITS"

definition boot_move :: "nat \<Rightarrow> 'a m \<Rightarrow> 'a m option" where
  "boot_move i s =
     (if word_of_nat i \<in> {seL4_CapInitThreadCNode, seL4_CapIOPortControl, seL4_CapIOSpace} then Some s
      else must (CNode_Move seL4_CapInitThreadCNode (word_of_nat i) 0 (word_of_nat i)) s)"

text \<open>From the boot cspace to the new one, whose root stays in the slot of the initial cnode.\<close>

definition switch_cspace :: "seL4_BootInfo \<Rightarrow> word64 \<Rightarrow> cptr \<Rightarrow> word64 \<Rightarrow> 'a m \<Rightarrow> 'a m option" where
  "switch_cspace bi fan_out ut_cptr ncnodes s = do {
     let level1_cptr = bi_empty_start bi;
     s \<leftarrow> must (Untyped_Retype ut_cptr seL4_CapTableObject (CNODE_SLOT_BITS INITIAL_TASK_CNODE_SIZE_BITS)
                  seL4_CapInitThreadCNode 0 0 level1_cptr 1) s;
     s \<leftarrow> create_cnodes fan_out ut_cptr level1_cptr ncnodes ncnodes s;
     s \<leftarrow> must (Lib_call ''seL4_CNode_Copy'' [uint level1_cptr, 0, int boot_depth, uint seL4_CapInitThreadCNode,
                  uint seL4_CapInitThreadCNode, int seL4_WordBits, seL4_AllRights]) s;
     let guard = seL4_CNode_CapData_new 0 (word_of_nat (seL4_WordBits - boot_depth));
     s \<leftarrow> must (Lib_call ''seL4_CNode_Mint'' [uint level1_cptr, uint seL4_CapInitThreadCNode, int boot_depth,
                  uint seL4_CapInitThreadCNode, uint level1_cptr, int seL4_WordBits, seL4_AllRights, uint guard]) s;
     s \<leftarrow> must (TCB_SetSpace seL4_CapInitThreadTCB 0 level1_cptr guard seL4_CapInitThreadVSpace) s;
     s \<leftarrow> for_each boot_move [1..<unat (bi_empty_start bi)] s;
     must (CNode_Delete seL4_CapInitThreadCNode 0 seL4_WordBits) s }"

subsection \<open>The table of untypeds\<close>

definition boot_page_table :: "cptr \<Rightarrow> nat \<Rightarrow> cptr \<times> 'a ut \<Rightarrow> (cptr \<times> 'a ut) option" where
  "boot_page_table ut_cptr i fs = (let (first_free_slot, s) = fs in do {
     s \<leftarrow> must_retype ut_cptr first_free_slot seL4_ARM_PageTableObject seL4_PageBits s;
     let vaddr = SOS_UT_TABLE + word_of_nat i * BIT (seL4_PageTableIndexBits + seL4_PageBits);
     s \<leftarrow> must (ARM_PageTable_Map first_free_slot seL4_CapInitThreadVSpace vaddr seL4_ARM_Default_VMAttributes) s;
     Some (first_free_slot + 1, s) })"

definition boot_map_page :: "cptr \<Rightarrow> cptr \<Rightarrow> 'a ut \<Rightarrow> 'a ut option" where
  "boot_map_page ut slot s = do {
     s \<leftarrow> must_retype ut slot seL4_ARM_SmallPageObject seL4_PageBits s;
     must (ARM_Page_Map slot seL4_CapInitThreadVSpace (next_free_vaddr s) seL4_AllRights seL4_ARM_Default_VMAttributes) s }"

definition boot_ut_page :: "cptr \<Rightarrow> nat \<Rightarrow> cptr \<times> 'a ut \<Rightarrow> (cptr \<times> 'a ut) option" where
  "boot_ut_page ut_cptr i fs = (let (first_free_slot, s) = fs in do {
     s \<leftarrow> boot_map_page ut_cptr first_free_slot s;
     Some (first_free_slot + 1, s\<lparr>next_free_vaddr := next_free_vaddr s + PAGE_SIZE_4K\<rparr>) })"

definition map_ut_table :: "cptr \<Rightarrow> word64 \<Rightarrow> cptr \<Rightarrow> 'a ut \<Rightarrow> (cptr \<times> 'a ut) option" where
  "map_ut_table ut_cptr ut_pages first_free_slot s = do {
     s \<leftarrow> must_retype ut_cptr first_free_slot seL4_ARM_PageUpperDirectoryObject seL4_PageBits s;
     s \<leftarrow> must (ARM_PageUpperDirectory_Map first_free_slot seL4_CapInitThreadVSpace SOS_UT_TABLE seL4_ARM_Default_VMAttributes) s;
     let first_free_slot = first_free_slot + 1;
     s \<leftarrow> must_retype ut_cptr first_free_slot seL4_ARM_PageDirectoryObject seL4_PageBits s;
     s \<leftarrow> must (ARM_PageDirectory_Map first_free_slot seL4_CapInitThreadVSpace SOS_UT_TABLE seL4_ARM_Default_VMAttributes) s;
     let first_free_slot = first_free_slot + 1;
     (first_free_slot, s) \<leftarrow> for_each (boot_page_table ut_cptr)
        [0..<unat (drop_bit seL4_PageTableIndexBits ut_pages + 1)] (first_free_slot, s);
     let s = s\<lparr>boot_vspace := seL4_CapInitThreadVSpace, next_free_vaddr := SOS_UT_TABLE\<rparr>;
     for_each (boot_ut_page ut_cptr) [0..<unat ut_pages] (first_free_slot, s) }"

subsection \<open>Untypeds of 4K\<close>

partial_function (option) retype_untypeds :: "word64 \<Rightarrow> cptr \<Rightarrow> word64 \<Rightarrow> cptr \<Rightarrow> 'a m \<Rightarrow> (cptr \<times> 'a m) option" where
  "retype_untypeds fan_out ut n_caps first_free_slot s =
     (if n_caps > 0 then do {
        let slots_per_cnode = word_of_nat (CNODE_SLOTS CNODE_SIZE_BITS);
        let cnode = first_free_slot div slots_per_cnode;
        let retype = min fan_out (min n_caps (slots_per_cnode - first_free_slot mod slots_per_cnode));
        s \<leftarrow> must (Untyped_Retype ut seL4_UntypedObject seL4_PageBits seL4_CapInitThreadCNode cnode
                     (seL4_WordBits - CNODE_SLOT_BITS CNODE_SIZE_BITS) (first_free_slot mod slots_per_cnode) (unat retype)) s;
        retype_untypeds fan_out ut (n_caps - retype) (first_free_slot + retype) s }
      else Some (first_free_slot, s))"

declare retype_untypeds.simps [code]

definition add_untyped :: "seL4_BootInfo \<Rightarrow> word64 \<Rightarrow> word64 list \<Rightarrow> nat \<Rightarrow> cptr \<times> 'a ut \<Rightarrow> (cptr \<times> 'a ut) option" where
  "add_untyped bi fan_out avail i fs = (let (first_free_slot, s) = fs in do {
     a \<leftarrow> rd avail i;
     let n_caps = a div PAGE_SIZE_4K;
     paddr \<leftarrow> paddr_from_avail_bytes bi avail i seL4_PageBits;
     u \<leftarrow> rd (bi_untypedList bi) i;
     s \<leftarrow> (if n_caps > 0 then ut_add_untyped_range paddr first_free_slot (unat n_caps) (ud_isDevice u) s else Some s);
     retype_untypeds fan_out (bi_untyped_start bi + word_of_nat i) n_caps first_free_slot s })"

subsection \<open>Book keeping of the new cspace\<close>

definition N_INITIAL_NODES :: nat where
  "N_INITIAL_NODES =
     2 ^ (CNODE_SLOT_BITS INITIAL_TASK_CNODE_SIZE_BITS + CNODE_SLOT_BITS CNODE_SIZE_BITS) div BOT_LVL_PER_NODE + 1"

definition initial_cspace :: cspace_t where
  "initial_cspace = zero_cspace\<lparr>root_cnode := seL4_CapInitThreadCNode, two_level := True,
     top_lvl_size_bits := INITIAL_TASK_CNODE_SIZE_BITS, top_bf := replicate (BITFIELD_SIZE INITIAL_TASK_CNODE_SIZE_BITS) 0,
     n_bot_lvl_nodes := 0, bot_lvl_nodes := replicate N_INITIAL_NODES None, has_alloc := True\<rparr>"

text \<open>A page for a node of the book keeping.\<close>

definition boot_node :: "nat \<Rightarrow> cptr \<times> 'a ut \<Rightarrow> (cptr \<times> 'a ut) option" where
  "boot_node i fs = (let (first_free_slot, s) = fs in do {
     (ut, _, s) \<leftarrow> ut_alloc_4k_untyped s;
     u \<leftarrow> get_ut s ut;
     s \<leftarrow> boot_map_page (ut_cap u) first_free_slot s;
     c \<leftarrow> set_node (cspace s) i (Some (zero_node\<lparr>bn_untyped := ut, bn_frame := first_free_slot\<rparr>));
     Some (first_free_slot + 1, s\<lparr>cspace := c\<lparr>n_bot_lvl_nodes := n_bot_lvl_nodes c + 1\<rparr>,
       next_free_vaddr := next_free_vaddr s + PAGE_SIZE_4K\<rparr>) })"

definition add_cnode :: "bot_lvl_node_t \<Rightarrow> bot_lvl_node_t" where
  "add_cnode nd = nd\<lparr>n_cnodes := n_cnodes nd + 1\<rparr>"

text \<open>
  A full cnode, the one of slot \<open>i\<close>. The inner loop of the C code has its own \<open>i\<close>, which counts
  the words of the bitfield, so that \<open>CNODE_INDEX(i)\<close> in it is always 0.
\<close>

definition fill_bf :: "nat \<Rightarrow> bot_lvl_node_t \<Rightarrow> bot_lvl_node_t option" where
  "fill_bf i nd = do {
     let k = CNODE_INDEX (word_of_nat i);
     bl \<leftarrow> rd (cnodes nd) k;
     bf \<leftarrow> wr (bl_bf bl) i UINTPTR_MAX;
     Some (nd\<lparr>cnodes := (cnodes nd)[k := bl\<lparr>bl_bf := bf\<rparr>]\<rparr>) }"

definition mark_full :: "nat \<Rightarrow> cspace_t \<Rightarrow> cspace_t option" where
  "mark_full j c = do {
     let i = word_of_nat (j * CNODE_SLOTS CNODE_SIZE_BITS);
     nd \<leftarrow> get_node c (NODE_INDEX i);
     nd \<leftarrow> for_each fill_bf [0..<CNODE_SLOTS CNODE_SIZE_BITS div seL4_WordBits] (add_cnode nd);
     c \<leftarrow> set_node c (NODE_INDEX i) (Some nd);
     t \<leftarrow> bf_set_bit (top_bf c) (TOP_LVL_INDEX i);
     Some (c\<lparr>top_bf := t\<rparr>) }"

definition mark_slot :: "nat \<Rightarrow> bot_lvl_node_t \<Rightarrow> bot_lvl_node_t option" where
  "mark_slot i nd = do {
     bl \<leftarrow> rd (cnodes nd) (CNODE_INDEX (word_of_nat i));
     bf \<leftarrow> bf_set_bit (bl_bf bl) (BOT_LVL_INDEX (word_of_nat i));
     Some (nd\<lparr>cnodes := (cnodes nd)[CNODE_INDEX (word_of_nat i) := bl\<lparr>bl_bf := bf\<rparr>]\<rparr>) }"

definition mark_extra :: "nat \<Rightarrow> cspace_t \<Rightarrow> cspace_t option" where
  "mark_extra i c = do {
     nd \<leftarrow> get_node c (i div BOT_LVL_PER_NODE);
     set_node c (i div BOT_LVL_PER_NODE) (Some (add_cnode nd)) }"

definition mark_used :: "cptr \<Rightarrow> word64 \<Rightarrow> cspace_t \<Rightarrow> cspace_t option" where
  "mark_used first_free_slot ncnodes c = do {
     let slots = CNODE_SLOTS CNODE_SIZE_BITS;
     let full = unat (ALIGN_DOWN first_free_slot (word_of_nat slots)) div slots;
     c \<leftarrow> for_each mark_full [0..<full] c;
     let n = unat first_free_slot div slots div BOT_LVL_PER_NODE;
     nd \<leftarrow> get_node c n;
     nd \<leftarrow> for_each mark_slot [unat (ALIGN_DOWN first_free_slot (word_of_nat slots))..<unat first_free_slot] (add_cnode nd);
     c \<leftarrow> set_node c n (Some nd);
     for_each mark_extra [unat first_free_slot div slots + 1..<unat ncnodes] c }"

definition boot_watermark :: "nat \<Rightarrow> 'a ut \<Rightarrow> 'a ut option" where
  "boot_watermark i s = do {
     (p, s) \<leftarrow> alloc_slot s;
     w \<leftarrow> wr (watermark (cspace s)) i p;
     c_assert (p \<noteq> seL4_CapNull);
     Some (s\<lparr>cspace := (cspace s)\<lparr>watermark := w\<rparr>\<rparr>) }"

subsection \<open>All together\<close>

text \<open>
  The memory and the slots that the start needs: the number of pages of the table, of slots, the
  bytes before the cnodes, and the available bytes of every untyped.
\<close>

definition boot_needs :: "seL4_BootInfo \<Rightarrow> ut_region_t \<Rightarrow> word64 list \<Rightarrow> (word64 \<times> word64 \<times> word64 \<times> word64 list) option" where
  "boot_needs bi memory avail = do {
     let n_slots = bi_empty_start bi - 1;
     let ut_pages = ut_pages_for_region memory;
     let n_slots = n_slots + ut_pages;
     let sz = ut_pages * PAGE_SIZE_4K;
     let n_pts = drop_bit seL4_PageTableIndexBits ut_pages + 1;
     let sz = sz + n_pts * BIT seL4_PageTableBits;
     let n_slots = n_slots + n_pts;
     let sz = sz + BIT seL4_PUDBits + BIT seL4_PageDirBits;
     let n_slots = n_slots + 2 + 1;
     (n_caps, avail) \<leftarrow> calculate_ut_caps bi seL4_PageBits avail;
     let n_slots = n_slots + n_caps - BIT (SOS_DMA_SIZE_BITS - seL4_PageBits);
     let ncnodes = n_slots div word_of_nat (CNODE_SLOTS CNODE_SIZE_BITS) + 2;
     let sz = sz + (ncnodes * BIT CNODE_SIZE_BITS + BIT INITIAL_TASK_CNODE_SIZE_BITS);
     c_assert (unat ncnodes \<le> CNODE_SLOTS INITIAL_TASK_CNODE_SIZE_BITS);
     Some (ut_pages, ncnodes, sz, avail) }"

definition boot_nodes :: "cptr \<Rightarrow> word64 \<Rightarrow> nat" where
  "boot_nodes first_free_slot ncnodes =
     max (unat first_free_slot div CNODE_SLOTS CNODE_SIZE_BITS + 1) (unat ncnodes) div BOT_LVL_PER_NODE + 1"

text \<open>The cspace, the untypeds and the DMA memory; the book keeping of the cspace comes last.\<close>

definition boot_memory ::
  "seL4_BootInfo \<Rightarrow> word64 \<Rightarrow> word64 list \<Rightarrow> 'a ut \<Rightarrow> ((cptr \<times> word64 \<times> cptr \<times> word64) \<times> 'a ut) option" where
  "boot_memory bi fan_out avail s = do {
     let s = s\<lparr>cspace := zero_cspace, next_free_vaddr := 0, boot_vspace := 0\<rparr>;
     c_assert (bi_empty_end bi - bi_empty_start bi \<ge> 2);
     memory \<leftarrow> find_memory_bounds bi;
     (ut_pages, ncnodes, sz, avail) \<leftarrow> boot_needs bi memory avail;
     (ut_cptr, _, avail) \<leftarrow> steal_untyped bi (LOG_BASE_2 sz + 1) avail;
     c_assert (ut_cptr \<noteq> seL4_CapNull);
     s \<leftarrow> switch_cspace bi fan_out ut_cptr ncnodes (s\<lparr>cspace := zero_cspace\<lparr>root_cnode := seL4_CapInitThreadCNode\<rparr>\<rparr>);
     let s = s\<lparr>cspace := (cspace s)\<lparr>two_level := True\<rparr>\<rparr>;
     (first_free_slot, s) \<leftarrow> map_ut_table ut_cptr ut_pages (bi_empty_start bi) s;
     (dma_ut, dma_paddr, avail) \<leftarrow> steal_untyped bi SOS_DMA_SIZE_BITS avail;
     c_assert (dma_ut \<noteq> seL4_CapNull);
     s \<leftarrow> must_retype dma_ut first_free_slot seL4_ARM_LargePageObject SOS_DMA_SIZE_BITS s;
     let dma_cptr = first_free_slot;
     let s = ut_init SOS_UT_TABLE memory s;
     (first_free_slot, s) \<leftarrow> for_each (add_untyped bi fan_out avail) [0..<n_untypeds bi] (first_free_slot + 1, s);
     Some ((first_free_slot, ncnodes, dma_cptr, dma_paddr), s) }"

definition sos_bootstrap :: "seL4_BootInfo \<Rightarrow> word64 \<Rightarrow> dma_t \<Rightarrow> 'a ut \<Rightarrow> (dma_t \<times> 'a ut) option" where
  "sos_bootstrap bi fan_out d s = do {
     ((first_free_slot, ncnodes, dma_cptr, dma_paddr), s) \<leftarrow> boot_memory bi fan_out (replicate (length (bi_untypedList bi)) 0) s;
     let s = s\<lparr>cspace := initial_cspace\<rparr>;
     (first_free_slot, s) \<leftarrow> for_each boot_node [0..<boot_nodes first_free_slot ncnodes] (first_free_slot, s);
     let dma_vaddr = ALIGN_UP (next_free_vaddr s + PAGE_SIZE_4K) (BIT seL4_LargePageBits);
     (err, d, s) \<leftarrow> dma_init seL4_CapInitThreadVSpace dma_cptr dma_paddr dma_vaddr d s;
     c_assert (err = 0);
     let s = s\<lparr>next_free_vaddr := dma_vaddr + BIT seL4_LargePageBits + PAGE_SIZE_4K\<rparr>;
     c \<leftarrow> mark_used first_free_slot ncnodes (cspace s);
     s \<leftarrow> for_each boot_watermark [0..<WATERMARK_SLOTS] (s\<lparr>cspace := c\<rparr>);
     Some (d, s) }"

section \<open>Stolen memory is not stolen again\<close>

lemma unat_BIT:
  assumes "n < 64"
  shows "unat (BIT n) = 2 ^ n"
proof -
  have "(2 :: nat) ^ n < 2 ^ 64" using assms by (rule power_strict_increasing) simp
  then have "unat (word_of_nat (2 ^ n) :: word64) = 2 ^ n" by (intro unat_of_nat64) simp
  then show ?thesis by (simp add: BIT_def push_bit_eq_mult)
qed

text \<open>The bytes of untyped \<open>i\<close> that were stolen, and the arrays that describe such a state.\<close>

definition taken :: "seL4_BootInfo \<Rightarrow> word64 list \<Rightarrow> nat \<Rightarrow> nat" where
  "taken bi avail i = 2 ^ ud_sizeBits (bi_untypedList bi ! i) - unat (avail ! i)"

definition avail_ok :: "seL4_BootInfo \<Rightarrow> word64 list \<Rightarrow> bool" where
  "avail_ok bi avail \<longleftrightarrow> length avail = length (bi_untypedList bi) \<and>
     (\<forall>i < length avail. ud_sizeBits (bi_untypedList bi ! i) \<le> seL4_MaxUntypedBits \<and>
       unat (avail ! i) \<le> 2 ^ ud_sizeBits (bi_untypedList bi ! i) \<and>
       unat (ud_paddr (bi_untypedList bi ! i)) + 2 ^ ud_sizeBits (bi_untypedList bi ! i) < 18446744073709551616)"

lemma paddr_from_avail_bytes_correct:
  assumes ok: "avail_ok bi avail" and i: "i < length avail" and k: "k \<le> seL4_MaxUntypedBits" and al: "2 ^ k dvd taken bi avail i"
    and p: "paddr_from_avail_bytes bi avail i k = Some paddr"
  shows "unat paddr = unat (ud_paddr (bi_untypedList bi ! i)) + taken bi avail i"
proof -
  let ?u = "bi_untypedList bi ! i"
  let ?b = "ud_sizeBits ?u"
  have u: "?b \<le> 47" "unat (avail ! i) \<le> 2 ^ ?b" "unat (ud_paddr ?u) + 2 ^ ?b < 18446744073709551616" "length avail = length (bi_untypedList bi)"
    using ok i by (auto simp: avail_ok_def)
  have t: "unat (BIT ?b - avail ! i) = taken bi avail i"
    by (subst unat_sub) (use u in \<open>simp_all add: word_le_nat_alt unat_BIT taken_def\<close>)
  have "unat ((BIT ?b - avail ! i) mod BIT k) = 0"
    using al k by (simp add: unat_mod_distrib t unat_BIT)
  then have "ROUND_UP (BIT ?b - avail ! i) (BIT k) = BIT ?b - avail ! i"
    by (simp add: ROUND_UP_def word_unat_eq_iff)
  then have "paddr = ud_paddr ?u + (BIT ?b - avail ! i)" using p i u(4) by (simp add: paddr_from_avail_bytes_def rd_def Let_def)
  moreover have "taken bi avail i \<le> 2 ^ ?b" by (simp add: taken_def)
  ultimately show ?thesis using u(3) t by (simp add: unat_add64)
qed

lemma steal_loop_first:
  assumes "steal_loop bi k is avail = Some (c, paddr, avail')"
  shows "c = seL4_CapNull \<or> (\<exists>i \<in> set is. i < length avail \<and> avail ! i \<ge> BIT k \<and> c = word_of_nat i + bi_untyped_start bi \<and>
    (\<forall>j \<in> set (takeWhile (\<lambda>j. j \<noteq> i) is). avail ! j < BIT k) \<and>
    paddr_from_avail_bytes bi avail i k = Some paddr \<and> avail' = avail[i := avail ! i - BIT k])"
  using assms
proof (induction "is")
  case (Cons i "is")
  then obtain a where a: "i < length avail" "a = avail ! i" by (auto simp: bind_eq_Some_conv rd_def split: if_split_asm)
  show ?case
  proof (cases "avail ! i \<ge> BIT k")
    case True
    then show ?thesis using Cons.prems a by (auto simp: bind_eq_Some_conv rd_def)
  next
    case False
    then have "steal_loop bi k is avail = Some (c, paddr, avail')" using Cons.prems a by (auto simp: rd_def)
    then show ?thesis using Cons.IH False a by (auto simp: not_le split: if_split_asm)
  qed
qed simp

lemma takeWhile_upt: "i < n \<Longrightarrow> takeWhile (\<lambda>j. j \<noteq> i) [0..<n] = [0..<i]"
  by (rule takeWhile_eq_take_P_nth [THEN trans, of i]) auto

text \<open>
  C31. What \<open>steal_untyped\<close> hands out at the start is the next unused part of the first untyped with
  enough room: it begins where the bytes stolen before end, stays within the untyped, and counts
  as stolen from then on, so that nothing is handed out twice; provided that what was stolen
  before from each of the untypeds is a multiple of the new size.
\<close>

theorem steal_untyped_fresh:
  assumes ok: "avail_ok bi avail" and al: "\<forall>i < length avail. 2 ^ k dvd taken bi avail i"
    and st: "steal_untyped bi k avail = Some (c, paddr, avail')" and c: "c \<noteq> seL4_CapNull"
  shows "\<exists>i < n_untypeds bi. c = word_of_nat i + bi_untyped_start bi \<and> (\<forall>j < i. avail ! j < BIT k) \<and>
    unat paddr = unat (ud_paddr (bi_untypedList bi ! i)) + taken bi avail i \<and>
    taken bi avail i + 2 ^ k \<le> 2 ^ ud_sizeBits (bi_untypedList bi ! i) \<and>
    taken bi avail' i = taken bi avail i + 2 ^ k \<and> (\<forall>j. j \<noteq> i \<longrightarrow> taken bi avail' j = taken bi avail j) \<and> avail_ok bi avail'"
proof -
  have k: "k \<le> 47" and lp: "steal_loop bi k [0..<n_untypeds bi] avail = Some (c, paddr, avail')"
    using st by (auto simp: steal_untyped_def c_assert_def bind_eq_Some_conv split: if_split_asm)
  obtain i where i: "i < n_untypeds bi" "i < length avail" "avail ! i \<ge> BIT k" "c = word_of_nat i + bi_untyped_start bi"
    "\<forall>j \<in> set (takeWhile (\<lambda>j. j \<noteq> i) [0..<n_untypeds bi]). avail ! j < BIT k"
    "paddr_from_avail_bytes bi avail i k = Some paddr" "avail' = avail[i := avail ! i - BIT k]"
    using steal_loop_first [OF lp] c by auto
  have before: "\<forall>j < i. avail ! j < BIT k" using i(1,5) by (simp add: takeWhile_upt)
  have a: "unat (avail ! i - BIT k) = unat (avail ! i) - 2 ^ k" "2 ^ k \<le> unat (avail ! i)"
    using i(3) k by (simp_all add: unat_sub word_le_nat_alt unat_BIT)
  have le: "unat (avail ! i) \<le> 2 ^ ud_sizeBits (bi_untypedList bi ! i)" using ok i(2) by (simp add: avail_ok_def)
  have "avail_ok bi avail'"
    using ok a le i(2) unfolding avail_ok_def i(7) by (auto simp: nth_list_update)
  moreover have "taken bi avail' i = taken bi avail i + 2 ^ k" using a le i(2) by (simp add: taken_def i(7))
  moreover have "taken bi avail i + 2 ^ k \<le> 2 ^ ud_sizeBits (bi_untypedList bi ! i)" using a le by (simp add: taken_def)
  moreover have "\<forall>j. j \<noteq> i \<longrightarrow> taken bi avail' j = taken bi avail j" by (simp add: taken_def i(7))
  moreover have "unat paddr = unat (ud_paddr (bi_untypedList bi ! i)) + taken bi avail i"
    by (rule paddr_from_avail_bytes_correct [OF ok i(2) k _ i(6)]) (use al i(2) in blast)
  ultimately show ?thesis using i(1,4) before by blast
qed

definition boot_info_example :: seL4_BootInfo where
  "boot_info_example = \<lparr>bi_empty_start = 600, bi_empty_end = 4096, bi_untyped_start = 20, bi_untyped_end = 22,
     bi_untypedList = [\<lparr>ud_paddr = 0x1000000, ud_sizeBits = 20, ud_isDevice = False\<rparr>,
       \<lparr>ud_paddr = 0x20000000, ud_sizeBits = 28, ud_isDevice = False\<rparr>]\<rparr>"

theorem steal_untyped_fresh_witness:
  "steal_untyped boot_info_example 21 [0x100000, 0xF000000] = Some (21, 0x21000000, [0x100000, 0xEE00000]) \<and>
    (\<exists>i < n_untypeds boot_info_example. (21 :: word64) = word_of_nat i + bi_untyped_start boot_info_example \<and>
      unat (0x21000000 :: word64) = unat (ud_paddr (bi_untypedList boot_info_example ! i)) + taken boot_info_example [0x100000, 0xF000000] i \<and>
      taken boot_info_example [0x100000, 0xEE00000] i = taken boot_info_example [0x100000, 0xF000000] i + 2 ^ 21)"
proof -
  have ok: "avail_ok boot_info_example [0x100000, 0xF000000]"
    by (simp add: avail_ok_def boot_info_example_def All_less_Suc)
  have al: "\<forall>i < length [0x100000, 0xF000000 :: word64]. 2 ^ 21 dvd taken boot_info_example [0x100000, 0xF000000] i"
    by (simp add: taken_def boot_info_example_def All_less_Suc)
  have st: "steal_untyped boot_info_example 21 [0x100000, 0xF000000] = Some (21, 0x21000000, [0x100000, 0xEE00000])"
    by code_simp
  show ?thesis using st steal_untyped_fresh [OF ok al st] by auto
qed

end
