(* ===== verification/Muslc.thy ===== *)
theory Muslc
  imports Proc
begin

text \<open>
  The system calls that the C library makes inside SOS: memory (\<open>sos/src/sys/morecore.c\<close>), time
  (\<open>time.c\<close>), the end of the program (\<open>exit.c\<close>), threads (\<open>thread.c\<close>) and input and output
  (\<open>stdio.c\<close>), and the serial port (\<open>sos/src/drivers/uart.c\<close>). The arguments of a \<open>va_list\<close> are
  the arguments of the function; a result is a \<open>long\<close>. The functions of picoTCP and the device
  registers are answered by the environment.

  The lemmas show that \<open>sys_brk\<close> keeps the break inside its area, that \<open>mmap_find\<close> finds a new
  region, which bytes writing to the standard output sends to the serial port, and that an
  accepted connection is reported as an error.
\<close>

section \<open>Definitions\<close>

abbreviation (input) EINVAL :: int where "EINVAL \<equiv> 22"
abbreviation (input) ENOSYS :: int where "ENOSYS \<equiv> 38"
abbreviation (input) EWOULDBLOCK :: int where "EWOULDBLOCK \<equiv> 11"
abbreviation (input) IOV_MAX :: int where "IOV_MAX \<equiv> 1024"
abbreviation (input) SSIZE_MAX :: int where "SSIZE_MAX \<equiv> 0x7FFFFFFFFFFFFFFF"
abbreviation (input) RLIMIT_NOFILE :: nat where "RLIMIT_NOFILE \<equiv> 7"
abbreviation (input) MMAP_BOT :: word64 where "MMAP_BOT \<equiv> 0xF0000000"
abbreviation (input) MMAP_TOP :: word64 where "MMAP_TOP \<equiv> 0x1000000000"
abbreviation (input) NS_IN_US :: word64 where "NS_IN_US \<equiv> 1000"
abbreviation (input) CLOCK_REALTIME :: int where "CLOCK_REALTIME \<equiv> 0"
abbreviation (input) STDOUT_FD :: int where "STDOUT_FD \<equiv> 1"
abbreviation (input) STDERR_FD :: int where "STDERR_FD \<equiv> 2"
abbreviation (input) PICO_FD_START :: int where "PICO_FD_START \<equiv> 3"
abbreviation (input) UART_PADDR :: word64 where "UART_PADDR \<equiv> 0xc81004c0"
abbreviation (input) UART_STATUS_TX_FIFO_FULL :: nat where "UART_STATUS_TX_FIFO_FULL \<equiv> 21"
abbreviation (input) UART_CONTROL_TX_ENABLE :: nat where "UART_CONTROL_TX_ENABLE \<equiv> 12"

subsection \<open>Memory\<close>

definition sys_brk :: "world \<Rightarrow> word64 \<Rightarrow> sos \<Rightarrow> word64 \<times> sos" where
  "sys_brk W newbrk s =
     (if newbrk = 0 then (morecore_base s, s)
      else if newbrk < morecore_top s \<and> newbrk > morecore_area W then (newbrk, s\<lparr>morecore_base := newbrk\<rparr>)
      else (0, s))"

text \<open>
  The search of \<open>sys_mmap\<close> for a place in the address space of the kernel process: where it ends,
  and the address space. If the region cannot be defined the loop goes on to read \<open>reg->vtop\<close>
  through a null pointer.
\<close>

partial_function (option) mmap_find :: "word64 \<Rightarrow> addrspace \<Rightarrow> word64 \<Rightarrow> (word64 \<times> addrspace) option" where
  "mmap_find len as addr =
     (if addr < MMAP_TOP then
        (case as_seek_region as addr of
           None \<Rightarrow>
             let (err, as') = as_define_region as addr len (or READ WRITE)
             in if err = 0 then Some (addr, as') else None
         | Some reg \<Rightarrow> mmap_find len as (PAGE_ALIGN_4K (vtop reg) + PAGE_SIZE_4K))
      else Some (addr, as))"

declare mmap_find.simps [code]

definition mmap_page :: "world \<Rightarrow> word64 \<Rightarrow> word64 \<Rightarrow> nat \<Rightarrow> sos \<Rightarrow> sos option" where
  "mmap_page W p base i s = do {
     ((page, _), s) \<leftarrow> frame_alloc_important W s;
     e \<leftarrow> get_frame page s;
     (slot, s) \<leftarrow> alloc_slot s;
     let (_, s) = cspace_copy (cspace s) slot (cspace s) (fte_cap e) seL4_AllRights s;
     v \<leftarrow> get_proc s p;
     as \<leftarrow> p_as v;
     (_, s) \<leftarrow> sos_map_frame W (as_pt as) slot (p_vspace v) (base + word_of_nat i * PAGE_SIZE_4K) seL4_AllRights
                seL4_ARM_Default_VMAttributes page True s;
     upd_frame page (\<lambda>e. e\<lparr>fte_user_cap := slot\<rparr>) s }"

definition sys_mmap :: "world \<Rightarrow> word64 \<Rightarrow> word64 \<Rightarrow> sos \<Rightarrow> (word64 \<times> sos) option" where
  "sys_mmap W ogaddr len s = do {
     (p, v) \<leftarrow> proc_at 0 s;
     c_assert (ogaddr = 0);
     let len = len + PAGE_SIZE_4K;
     as \<leftarrow> p_as v;
     (addr, as) \<leftarrow> mmap_find len as MMAP_BOT;
     let s = set_proc p (v\<lparr>p_as := Some as\<rparr>) s;
     if addr > MMAP_TOP \<or> addr + len > MMAP_TOP then Some (- 1, s)
     else do {
       reg \<leftarrow> as_seek_region as addr;
       s \<leftarrow> for_each (mmap_page W p (vbase reg)) [0..<unat (BYTES_TO_4K_PAGES len)] s;
       Some (vbase reg, s) } }"

text \<open>The pages of \<open>sys_munmap\<close> from \<open>i\<close> on: whether all were there.\<close>

primrec munmap_pages :: "word64 \<Rightarrow> word64 \<Rightarrow> nat list \<Rightarrow> sos \<Rightarrow> (bool \<times> sos) option" where
  "munmap_pages pt base [] s = Some (True, s)"
| "munmap_pages pt base (i # is) s = do {
     pte \<leftarrow> page_lookup pt (PAGE_ALIGN_4K (base + word_of_nat i * PAGE_SIZE_4K)) (mem s);
     let bits = (if pte = 0 then P_INVALID else page_get_bits (load64 (mem s) pte));
     if bits = 0 then do {
       s \<leftarrow> frame_free (page_entry_number (load64 (mem s) pte)) s;
       munmap_pages pt base is (set_word pte (page_update_entry P_INVALID 0) s) }
     else Some (False, s) }"

definition sys_munmap :: "word64 \<Rightarrow> word64 \<Rightarrow> sos \<Rightarrow> (int \<times> sos) option" where
  "sys_munmap addr len s = do {
     (p, v) \<leftarrow> proc_at 0 s;
     as \<leftarrow> p_as v;
     reg \<leftarrow> as_seek_region as addr;
     (ok, s) \<leftarrow> munmap_pages (as_pt as) (vbase reg) [0..<unat (BYTES_TO_4K_PAGES len)] s;
     if \<not> ok then Some (- 1, s)
     else do {
       s \<leftarrow> upd_proc p (\<lambda>v. v\<lparr>p_as := map_option (\<lambda>as. snd (as_destroy_region as addr)) (p_as v)\<rparr>) s;
       Some (0, s) } }"

definition sys_madvise :: int where
  "sys_madvise = 0"

subsection \<open>Time\<close>

definition get_freq :: "sos \<Rightarrow> word64 \<times> sos" where
  "get_freq s =
     (if sys_freq s = 0 then let (f, s) = timestamp_get_freq s in (f, s\<lparr>sys_freq := f\<rparr>) else (sys_freq s, s))"

partial_function (option) sleep_loop :: "word64 \<Rightarrow> word64 \<Rightarrow> word64 \<Rightarrow> sos \<Rightarrow> sos option" where
  "sleep_loop freq start us s = do {
     (t, s) \<leftarrow> timestamp_us freq s;
     if t - start < us then let (_, s) = lib_call ''seL4_Yield'' [] s in sleep_loop freq start us s
     else Some s }"

declare sleep_loop.simps [code]

definition sys_nanosleep :: "word64 \<Rightarrow> sos \<Rightarrow> (int \<times> sos) option" where
  "sys_nanosleep req s = do {
     let (freq, s) = get_freq s;
     let us = load64 (mem s) req * US_IN_S + load64 (mem s) (req + 8) div NS_IN_US;
     (start, s) \<leftarrow> timestamp_us freq s;
     s \<leftarrow> sleep_loop freq start us s;
     Some (0, s) }"

definition sys_clock_gettime :: "int \<Rightarrow> word64 \<Rightarrow> sos \<Rightarrow> (int \<times> sos) option" where
  "sys_clock_gettime clk_id res s = do {
     let (freq, s) = get_freq s;
     if clk_id \<noteq> CLOCK_REALTIME then Some (- EINVAL, s)
     else do {
       (micros, s) \<leftarrow> timestamp_us freq s;
       Some (0, set_word (res + 8) (micros mod US_IN_S * NS_IN_US) (set_word res (micros div US_IN_S) s)) } }"

subsection \<open>The end of the program, threads and users\<close>

text \<open>\<open>abort\<close> and \<open>sos_abort\<close> do not return.\<close>

definition sys_exit :: "sos \<Rightarrow> (int \<times> sos) option" where
  "sys_exit s = None"

definition sys_tgkill :: "sos \<Rightarrow> (int \<times> sos) option" where
  "sys_tgkill s = None"

definition sys_tkill :: "sos \<Rightarrow> (int \<times> sos) option" where
  "sys_tkill s = None"

definition sys_rt_sigprocmask :: int where "sys_rt_sigprocmask = 0"
definition sys_gettid :: int where "sys_gettid = 0"
definition sys_getpid :: int where "sys_getpid = 0"
definition sys_exit_group :: int where "sys_exit_group = 0"
definition sys_set_tid_address :: int where "sys_set_tid_address = - ENOSYS"
definition sys_getuid :: int where "sys_getuid = 0"
definition sys_getgid :: int where "sys_getgid = 0"
definition sys_openat :: int where "sys_openat = ENOSYS"

subsection \<open>The serial port\<close>

definition uart_init :: "sos \<Rightarrow> sos option" where
  "uart_init s = do {
     (uart_vaddr, s) \<leftarrow> sos_map_device (PAGE_ALIGN_4K UART_PADDR) PAGE_SIZE_4K s;
     c_assert (uart_vaddr \<noteq> 0);
     let s = s\<lparr>uart := uart_vaddr + (UART_PADDR AND mask seL4_PageBits)\<rparr>;
     let (control, s) = lib_call ''uart->control'' [] s;
     let (_, s) = lib_call ''uart->control ='' [or control (2 ^ UART_CONTROL_TX_ENABLE)] s;
     Some s }"

partial_function (option) uart_wait :: "sos \<Rightarrow> sos option" where
  "uart_wait s =
     (let (status, s) = lib_call ''uart->status'' [] s
      in if bit status UART_STATUS_TX_FIFO_FULL then uart_wait s else Some s)"

declare uart_wait.simps [code]

definition uart_put :: "byte \<Rightarrow> sos \<Rightarrow> sos option" where
  "uart_put c s = do {
     s \<leftarrow> uart_wait s;
     let (_, s) = lib_call ''uart->wfifo ='' [uint c] s;
     Some s }"

text \<open>A newline is followed by a carriage return, which is not followed by anything.\<close>

definition uart_putchar :: "byte \<Rightarrow> sos \<Rightarrow> sos option" where
  "uart_putchar c s = do {
     s \<leftarrow> uart_put c s;
     if c = 10 then uart_put 13 s else Some s }"

subsection \<open>Input and output\<close>

definition debug_put_char :: "byte \<Rightarrow> sos \<Rightarrow> sos option" where
  "debug_put_char c s = (let (_, s) = lib_call ''seL4_DebugPutChar'' [uint c] s in Some s)"

definition vputchar :: "byte \<Rightarrow> sos \<Rightarrow> sos option" where
  "vputchar c s = (if uart_output s then uart_putchar c s else debug_put_char c s)"

definition update_vputchar :: "bool \<Rightarrow> sos \<Rightarrow> sos" where
  "update_vputchar v s = s\<lparr>uart_output := v\<rparr>"

definition sys_output :: "word64 \<Rightarrow> word64 \<Rightarrow> sos \<Rightarrow> (word64 \<times> sos) option" where
  "sys_output data n s = do {
     s \<leftarrow> for_each (\<lambda>i s. vputchar (mem s (data + word_of_nat i)) s) [0..<unat n] s;
     Some (n, s) }"

definition get_errno :: "sos \<Rightarrow> int \<times> sos" where
  "get_errno s = lib_call ''errno'' [] s"

definition fail_errno :: "sos \<Rightarrow> (int \<times> sos) option" where
  "fail_errno s = (let (e, s) = get_errno s in Some (- e, s))"

text \<open>An \<open>iovec\<close> is a base and a length of 8 bytes each.\<close>

definition iov_base :: "word64 \<Rightarrow> nat \<Rightarrow> sos \<Rightarrow> word64" where
  "iov_base iov i s = load64 (mem s) (iov + 16 * word_of_nat i)"

definition iov_len :: "word64 \<Rightarrow> nat \<Rightarrow> sos \<Rightarrow> word64" where
  "iov_len iov i s = load64 (mem s) (iov + 16 * word_of_nat i + 8)"

text \<open>The sum of the lengths is a \<open>long long\<close>, whose overflow is undefined; so it is never above \<open>SSIZE_MAX\<close>.\<close>

primrec iov_sum :: "word64 \<Rightarrow> nat list \<Rightarrow> int \<Rightarrow> sos \<Rightarrow> int option" where
  "iov_sum iov [] acc s = Some acc"
| "iov_sum iov (i # is) acc s = do {
     let acc = acc + sint (iov_len iov i s);
     c_assert (- SSIZE_MAX - 1 \<le> acc \<and> acc \<le> SSIZE_MAX);
     iov_sum iov is acc s }"

primrec writev_console :: "word64 \<Rightarrow> nat list \<Rightarrow> int \<Rightarrow> sos \<Rightarrow> (int \<times> sos) option" where
  "writev_console iov [] ret s = Some (ret, s)"
| "writev_console iov (i # is) ret s = do {
     (n, s) \<leftarrow> sys_output (iov_base iov i s) (iov_len iov i s) s;
     writev_console iov is (ret + sint n) s }"

primrec writev_pico :: "int \<Rightarrow> word64 \<Rightarrow> nat list \<Rightarrow> int \<Rightarrow> sos \<Rightarrow> (int \<times> sos) option" where
  "writev_pico fd iov [] ret s = Some (ret, s)"
| "writev_pico fd iov (i # is) ret s = do {
     let (res, s) = lib_call ''pico_write'' [fd, uint (iov_base iov i s), uint (iov_len iov i s)] s;
     if res = - 1 then fail_errno s else writev_pico fd iov is (ret + res) s }"

definition sys_writev :: "int \<Rightarrow> word64 \<Rightarrow> int \<Rightarrow> sos \<Rightarrow> (int \<times> sos) option" where
  "sys_writev fildes iov iovcnt s =
     (if iovcnt \<le> 0 \<or> iovcnt > IOV_MAX then Some (- EINVAL, s)
      else do {
        n \<leftarrow> iov_sum iov [0..<nat iovcnt] 0 s;
        if n = 0 then Some (0, s)
        else if fildes = STDOUT_FD \<or> fildes = STDERR_FD then writev_console iov [0..<nat iovcnt] 0 s
        else if fildes \<ge> PICO_FD_START then writev_pico (fildes - PICO_FD_START) iov [0..<nat iovcnt] 0 s
        else Some (0, s) })"

primrec readv_pico :: "int \<Rightarrow> word64 \<Rightarrow> nat list \<Rightarrow> int \<Rightarrow> sos \<Rightarrow> int \<times> sos" where
  "readv_pico fd iov [] acc s = (acc, s)"
| "readv_pico fd iov (i # is) acc s =
     (let (ret, s) = lib_call ''pico_read'' [fd, uint (iov_base iov i s), uint (iov_len iov i s)] s
      in if ret = - 1 then (acc, s) else readv_pico fd iov is (acc + ret) s)"

definition sys_readv :: "int \<Rightarrow> word64 \<Rightarrow> int \<Rightarrow> sos \<Rightarrow> (int \<times> sos) option" where
  "sys_readv fd iov iovcnt s =
     (if fd \<ge> PICO_FD_START then
        let (n, s) = readv_pico (fd - PICO_FD_START) iov [0..<nat iovcnt] 0 s
        in if n = 0 then fail_errno s else Some (n, s)
      else Some (- EINVAL, s))"

definition sys_ioctl :: "int \<Rightarrow> sos \<Rightarrow> (int \<times> sos) option" where
  "sys_ioctl fd s = (if fd = STDOUT_FD then Some (0, s) else None)"

subsection \<open>Sockets\<close>

text \<open>A call of picoTCP for a socket: its descriptor without the offset, then the other arguments.\<close>

definition pico_call :: "string \<Rightarrow> int \<Rightarrow> int list \<Rightarrow> (int \<Rightarrow> sos \<Rightarrow> (int \<times> sos) option) \<Rightarrow> sos \<Rightarrow> (int \<times> sos) option" where
  "pico_call f sd args k s =
     (if sd \<ge> PICO_FD_START then let (ret, s) = lib_call f ((sd - PICO_FD_START) # args) s in k ret s
      else Some (- EINVAL, s))"

definition zero_or_errno :: "int \<Rightarrow> sos \<Rightarrow> (int \<times> sos) option" where
  "zero_or_errno ret s = (if ret = 0 then Some (0, s) else fail_errno s)"

definition sys_socket :: "int \<Rightarrow> int \<Rightarrow> int \<Rightarrow> sos \<Rightarrow> (int \<times> sos) option" where
  "sys_socket sdomain ty protocol s =
     (let (new_sd, s) = lib_call ''pico_newsocket'' [sdomain, ty, protocol] s
      in if new_sd < 0 then fail_errno s else Some (new_sd + PICO_FD_START, s))"

definition sys_bind :: "int \<Rightarrow> word64 \<Rightarrow> int \<Rightarrow> sos \<Rightarrow> (int \<times> sos) option" where
  "sys_bind sd local_addr socklen = pico_call ''pico_bind'' sd [uint local_addr, socklen] zero_or_errno"

definition sys_listen :: "int \<Rightarrow> int \<Rightarrow> sos \<Rightarrow> (int \<times> sos) option" where
  "sys_listen sd backlog = pico_call ''pico_listen'' sd [backlog] zero_or_errno"

definition sys_connect :: "int \<Rightarrow> word64 \<Rightarrow> int \<Rightarrow> sos \<Rightarrow> (int \<times> sos) option" where
  "sys_connect sd saddr socklen = pico_call ''pico_connect'' sd [uint saddr, socklen] zero_or_errno"

text \<open>\<open>pico_accept\<close> returns the new socket; only a result of 0 is passed on as a success.\<close>

definition sys_accept :: "int \<Rightarrow> word64 \<Rightarrow> word64 \<Rightarrow> sos \<Rightarrow> (int \<times> sos) option" where
  "sys_accept sd orig socklen = pico_call ''pico_accept'' sd [uint orig, uint socklen] zero_or_errno"

definition sys_sendto :: "int \<Rightarrow> word64 \<Rightarrow> int \<Rightarrow> int \<Rightarrow> word64 \<Rightarrow> int \<Rightarrow> sos \<Rightarrow> (int \<times> sos) option" where
  "sys_sendto sd buf len flags dst socklen =
     pico_call ''pico_sendto'' sd [uint buf, len, flags, uint dst, socklen]
       (\<lambda>ret s. if ret = 0 then Some (- EWOULDBLOCK, s) else if ret < 0 then fail_errno s else Some (ret, s))"

definition sys_recvfrom :: "int \<Rightarrow> word64 \<Rightarrow> int \<Rightarrow> int \<Rightarrow> word64 \<Rightarrow> word64 \<Rightarrow> sos \<Rightarrow> (int \<times> sos) option" where
  "sys_recvfrom sd buf len flags addr socklen =
     pico_call ''pico_recvfrom'' sd [uint buf, len, flags, uint addr, uint socklen]
       (\<lambda>ret s. if ret \<ge> 0 then Some (ret, s) else fail_errno s)"

definition sys_close :: "int \<Rightarrow> sos \<Rightarrow> (int \<times> sos) option" where
  "sys_close sockfd = pico_call ''pico_close'' sockfd [] zero_or_errno"

definition sys_getsockname :: "int \<Rightarrow> word64 \<Rightarrow> word64 \<Rightarrow> sos \<Rightarrow> (int \<times> sos) option" where
  "sys_getsockname sd local_addr socklen = pico_call ''pico_getsockname'' sd [uint local_addr, uint socklen] zero_or_errno"

definition sys_getpeername :: "int \<Rightarrow> word64 \<Rightarrow> word64 \<Rightarrow> sos \<Rightarrow> (int \<times> sos) option" where
  "sys_getpeername sd remote_addr socklen = pico_call ''pico_getpeername'' sd [uint remote_addr, uint socklen] zero_or_errno"

definition sys_fcntl :: "int \<Rightarrow> int \<Rightarrow> int \<Rightarrow> sos \<Rightarrow> (int \<times> sos) option" where
  "sys_fcntl sockfd cmd arg = pico_call ''pico_fcntl'' sockfd [cmd, arg] zero_or_errno"

definition sys_setsockopt :: "int \<Rightarrow> int \<Rightarrow> int \<Rightarrow> word64 \<Rightarrow> int \<Rightarrow> sos \<Rightarrow> (int \<times> sos) option" where
  "sys_setsockopt sockfd level optname optval optlen =
     pico_call ''pico_setsockopt'' sockfd [level, optname, uint optval, optlen] zero_or_errno"

definition sys_getsockopt :: "int \<Rightarrow> int \<Rightarrow> int \<Rightarrow> word64 \<Rightarrow> word64 \<Rightarrow> sos \<Rightarrow> (int \<times> sos) option" where
  "sys_getsockopt sockfd level optname optval optlen =
     pico_call ''pico_getsockopt'' sockfd [level, optname, uint optval, uint optlen] zero_or_errno"

text \<open>
  The descriptors of a \<open>pollfd\<close> array, translated in place up to the first that is no socket; the
  flag says whether all were. On that error those before it stay translated.
\<close>

primrec ppoll_fds :: "int list \<Rightarrow> bool \<times> int list" where
  "ppoll_fds [] = (True, [])"
| "ppoll_fds (fd # rest) =
     (if fd \<ge> PICO_FD_START then let (ok, rest) = ppoll_fds rest in (ok, (fd - PICO_FD_START) # rest)
      else (False, fd # rest))"

definition sys_ppoll :: "int list \<Rightarrow> word64 \<Rightarrow> sos \<Rightarrow> (int \<times> int list \<times> sos) option" where
  "sys_ppoll pfd tmo_p s =
     (if length pfd > RLIMIT_NOFILE then Some (- EINVAL, pfd, s)
      else
        let (ok, pfd) = ppoll_fds pfd
        in if \<not> ok then Some (- EINVAL, pfd, s)
           else
             let (ret, s) = lib_call ''pico_ppoll'' (pfd @ [uint tmo_p]) s;
                 pfd = map (\<lambda>fd. fd + PICO_FD_START) pfd
             in if ret \<ge> 0 then Some (ret, pfd, s)
                else let (e, s) = get_errno s in Some (- e, pfd, s))"

section \<open>Lemmas\<close>

text \<open>The break of the heap of SOS stays inside its area.\<close>

lemma sys_brk_inside:
  assumes "morecore_area W \<le> morecore_base s" "morecore_base s \<le> morecore_top s" "sys_brk W newbrk s = (r, s')"
  shows "morecore_area W \<le> morecore_base s' \<and> morecore_base s' \<le> morecore_top s' \<and> (r = morecore_base s' \<or> r = 0 \<and> s' = s)"
  using assms by (auto simp: sys_brk_def split: if_split_asm)

subsection \<open>Memory for the C library\<close>

text \<open>
  A place that \<open>mmap_find\<close> returns below the top of the area is the start of a new region, which
  does not overlap any other.
\<close>

lemma mmap_find_fresh:
  assumes "mmap_find len as a = Some r" "fst r < MMAP_TOP"
  shows "as_define_region as (fst r) len (or READ WRITE) = (0, snd r)"
  using assms
proof (induction rule: mmap_find.raw_induct [rotated, consumes 1, case_names step])
  case (step find len as a r)
  show ?case
  proof (cases "as_seek_region as a")
    case None
    then show ?thesis using step(2,3) by (cases "as_define_region as a len (or READ WRITE)") (auto split: if_split_asm)
  next
    case (Some reg)
    then show ?thesis using step by (auto split: if_split_asm)
  qed
qed

subsection \<open>The serial port\<close>

text \<open>What the serial port was given to send, and the bytes it is given for a text.\<close>

definition line_out :: "kcall \<Rightarrow> int list" where
  "line_out c = (case c of Lib_call f args \<Rightarrow> if f = ''uart->wfifo ='' then args else [] | _ \<Rightarrow> [])"

definition sent :: "sos \<Rightarrow> int list" where
  "sent s = concat (map line_out (rev (klog s)))"

definition line_text :: "byte list \<Rightarrow> int list" where
  "line_text bs = concat (map (\<lambda>b. if b = 10 then [10, 13] else [uint b]) bs)"

definition prints :: "byte list \<Rightarrow> sos \<Rightarrow> sos \<Rightarrow> bool" where
  "prints bs s s' \<longleftrightarrow> sent s' = sent s @ line_text bs \<and> mem s' = mem s \<and> uart_output s' = uart_output s"

lemma prints_nothing [simp]: "prints [] s s"
  by (simp add: prints_def line_text_def)

lemma prints_trans: "prints bs s s1 \<Longrightarrow> prints cs s1 s' \<Longrightarrow> prints (bs @ cs) s s'"
  by (simp add: prints_def line_text_def)

lemma uart_wait_prints: "uart_wait s = Some s' \<Longrightarrow> prints [] s s'"
proof (induction rule: uart_wait.raw_induct [rotated, consumes 1, case_names step])
  case (step wait s s')
  obtain v s1 where s1: "lib_call ''uart->status'' [] s = (v, s1)" by force
  then have "prints [] s s1"
    by (auto simp: prints_def sent_def line_out_def line_text_def lib_call_def kinvoke_def)
  then show ?case
    using step s1 prints_trans [of "[]" s s1 "[]" s'] by (auto split: if_split_asm)
qed

lemma uart_put_sends:
  assumes "uart_put c s = Some s'"
  shows "sent s' = sent s @ [uint c] \<and> mem s' = mem s \<and> uart_output s' = uart_output s"
proof -
  obtain s1 where s1: "uart_wait s = Some s1" "s' = snd (lib_call ''uart->wfifo ='' [uint c] s1)"
    using assms by (auto simp: uart_put_def bind_eq_Some_conv split_def Let_def)
  then show ?thesis
    using uart_wait_prints [OF s1(1)] by (simp add: prints_def sent_def line_out_def line_text_def lib_call_def kinvoke_def)
qed

lemma uart_putchar_prints:
  assumes "uart_putchar c s = Some s'"
  shows "prints [c] s s'"
proof -
  obtain s1 where s1: "uart_put c s = Some s1" "if c = 10 then uart_put 13 s1 = Some s' else s' = s1"
    using assms by (auto simp: uart_putchar_def bind_eq_Some_conv split: if_split_asm)
  then show ?thesis
    using uart_put_sends [OF s1(1)] uart_put_sends [of 13 s1 s'] by (auto simp: prints_def line_text_def split: if_split_asm)
qed

lemma output_prints:
  assumes "for_each (\<lambda>i s. vputchar (mem s (data + word_of_nat i)) s) is s = Some s'" "uart_output s"
  shows "prints (map (\<lambda>i. mem s (data + word_of_nat i)) is) s s'"
  using assms
proof (induction "is" arbitrary: s)
  case (Cons i "is")
  then obtain s1 where s1: "uart_putchar (mem s (data + word_of_nat i)) s = Some s1"
    "for_each (\<lambda>i s. vputchar (mem s (data + word_of_nat i)) s) is s1 = Some s'"
    by (auto simp: vputchar_def bind_eq_Some_conv)
  have p: "prints [mem s (data + word_of_nat i)] s s1" by (rule uart_putchar_prints [OF s1(1)])
  then have "prints (map (\<lambda>i. mem s (data + word_of_nat i)) is) s1 s'"
    using Cons.IH [OF s1(2)] Cons.prems(2) by (simp add: prints_def)
  then show ?case using prints_trans [OF p] by simp
qed simp

lemma writev_console_prints:
  assumes "writev_console iov is ret s = Some (r, s')" "uart_output s"
  shows "prints (concat (map (\<lambda>i. load_list (mem s) (iov_base iov i s) (unat (iov_len iov i s))) is)) s s' \<and>
    r = ret + (\<Sum>i\<leftarrow>is. sint (iov_len iov i s))"
  using assms
proof (induction "is" arbitrary: s ret)
  case (Cons i "is")
  then obtain s1 where s1: "for_each (\<lambda>j t. vputchar (mem t (iov_base iov i s + word_of_nat j)) t) [0..<unat (iov_len iov i s)] s = Some s1"
    "writev_console iov is (ret + sint (iov_len iov i s)) s1 = Some (r, s')"
    by (auto simp: sys_output_def bind_eq_Some_conv)
  have p: "prints (load_list (mem s) (iov_base iov i s) (unat (iov_len iov i s))) s s1"
    using output_prints [OF s1(1) Cons.prems(2)] by (simp add: load_list_def)
  then have same: "iov_base iov j s1 = iov_base iov j s" "iov_len iov j s1 = iov_len iov j s" "mem s1 = mem s" "uart_output s1" for j
    using Cons.prems(2) by (simp_all add: prints_def iov_base_def iov_len_def)
  show ?case
    using Cons.IH [OF s1(2) same(4)] prints_trans [OF p] by (simp add: same)
qed simp

text \<open>
  Writing to the standard output or error sends every byte of the vectors to the serial port in
  order, each newline followed by a carriage return, and returns the number of bytes.
\<close>

theorem sys_writev_prints:
  assumes "uart_output s" "fd = STDOUT_FD \<or> fd = STDERR_FD" "0 < n" "n \<le> IOV_MAX"
    "iov_sum iov [0..<nat n] 0 s \<noteq> Some 0" "sys_writev fd iov n s = Some (r, s')"
  shows "sent s' = sent s @ line_text (concat (map (\<lambda>i. load_list (mem s) (iov_base iov i s) (unat (iov_len iov i s))) [0..<nat n])) \<and>
    r = (\<Sum>i\<leftarrow>[0..<nat n]. sint (iov_len iov i s))"
proof -
  have "writev_console iov [0..<nat n] 0 s = Some (r, s')"
    using assms by (auto simp: sys_writev_def bind_eq_Some_conv split: if_split_asm)
  from writev_console_prints [OF this assms(1)] show ?thesis by (simp add: prints_def)
qed

subsection \<open>Sockets\<close>

text \<open>
  A connection that picoTCP accepts is reported as an error: whenever \<open>pico_accept\<close> returns a
  socket other than 0, \<open>sys_accept\<close> returns the negated \<open>errno\<close>.
\<close>

lemma sys_accept_fails:
  assumes "sd \<ge> PICO_FD_START" "lib_call ''pico_accept'' [sd - PICO_FD_START, uint orig, uint socklen] s = (new_sd, s1)" "new_sd \<noteq> 0"
  shows "sys_accept sd orig socklen s = Some (- fst (lib_call ''errno'' [] s1), snd (lib_call ''errno'' [] s1))"
  using assms by (simp add: sys_accept_def pico_call_def zero_or_errno_def fail_errno_def get_errno_def split_def Let_def)

end
