(* ===== verification/Main_Loop.thy ===== *)
theory Main_Loop
  imports Syscalls Muslc Bootstrap
begin

text \<open>
  The start of SOS and its event loop, \<open>sos/src/main.c\<close>. The messages that arrive, the network
  stack and what the boot information says are the environment. \<open>handle_syscall\<close> runs in a
  coroutine: its definition covers the coroutine from its start to its end, and so does an
  iteration of the event loop for the coroutine that it starts; what runs while a coroutine waits
  is in the environment. \<open>init_muslc\<close> only enters the functions of the theory \<open>Muslc\<close> into a
  table of the C library.

  The lemmas show that the badge of a process leads back to the process, and that its system
  calls are run in its name.
\<close>

section \<open>Definitions\<close>

abbreviation (input) NUM_SYSCALLS :: word64 where "NUM_SYSCALLS \<equiv> 14"
abbreviation (input) seL4_BadgeBits :: nat where "seL4_BadgeBits \<equiv> 64"
abbreviation (input) seL4_NotificationBits :: nat where "seL4_NotificationBits \<equiv> 5"
abbreviation (input) seL4_Fault_NullFault :: word64 where "seL4_Fault_NullFault \<equiv> 0"
abbreviation (input) seL4_Fault_VMFault :: word64 where "seL4_Fault_VMFault \<equiv> 5"
abbreviation (input) SOS_STACK :: word64 where "SOS_STACK \<equiv> 0xC0000000"
abbreviation (input) SOS_STACK_PAGES :: nat where "SOS_STACK_PAGES \<equiv> 100"

definition IRQ_EP_BADGE :: word64 where "IRQ_EP_BADGE = BIT (seL4_BadgeBits - 1)"
definition IRQ_BADGE_NETWORK_IRQ :: word64 where "IRQ_BADGE_NETWORK_IRQ = BIT 0"
definition IRQ_BADGE_NETWORK_TICK :: word64 where "IRQ_BADGE_NETWORK_TICK = BIT 1"
definition IRQ_BADGE_TIMER :: word64 where "IRQ_BADGE_TIMER = BIT 2"

definition TIMER_PADDR :: word64 where "TIMER_PADDR = PAGE_ALIGN_4K TIMER_MUX"

subsection \<open>System calls\<close>

definition syscall_table :: "(world \<Rightarrow> word64 \<Rightarrow> sos \<Rightarrow> (int \<times> sos) option) list" where
  "syscall_table = [\<lambda>_ _ _. None, syscall_write, syscall_read, syscall_open, syscall_close, \<lambda>_. syscall_brk, syscall_usleep,
     \<lambda>_. syscall_time_stamp, syscall_getdirent, syscall_stat, syscall_proc_create, syscall_proc_delete,
     \<lambda>_. syscall_proc_my_id, \<lambda>_. syscall_proc_status, syscall_proc_wait]"

definition handle_syscall :: "world \<Rightarrow> pid_t \<Rightarrow> sos \<Rightarrow> sos option" where
  "handle_syscall W pid s = do {
     (reply, s) \<leftarrow> alloc_slot s;
     let syscall_number = GetMR 0 s;
     let (err, s) = cspace_save_reply_cap (cspace s) reply s;
     c_assert (err = 0);
     p \<leftarrow> proc_get pid s;
     s \<leftarrow> (if ISINRANGE 1 syscall_number NUM_SYSCALLS then do {
             f \<leftarrow> rd syscall_table (unat syscall_number);
             (nwords, s) \<leftarrow> f W p s;
             let (_, s) = kinvoke (Send_Reply reply (nat nwords)) s;
             Some s }
           else Some s);
     free_slot reply s }"

subsection \<open>The event loop\<close>

definition timer_callback :: "world \<Rightarrow> word64 \<Rightarrow> word32 \<Rightarrow> word64 \<Rightarrow> sos \<Rightarrow> sos option" where
  "timer_callback W f i data s = (if f = USLEEP_HANDLER then usleep_handler W data s else None)"

definition handle_irq :: "world \<Rightarrow> word64 \<Rightarrow> sos \<Rightarrow> sos option" where
  "handle_irq W badge s = do {
     s \<leftarrow> (if badge AND IRQ_BADGE_NETWORK_IRQ \<noteq> 0 then network_irq W s else Some s);
     s \<leftarrow> (if badge AND IRQ_BADGE_NETWORK_TICK \<noteq> 0 then network_tick W s else Some s);
     if badge AND IRQ_BADGE_TIMER \<noteq> 0 then do { (_, s) \<leftarrow> timer_interrupt (timer_callback W) s; Some s } else Some s }"

definition loop_step :: "world \<Rightarrow> sos \<Rightarrow> sos option" where
  "loop_step W s = do {
     s \<leftarrow> reap W s;
     let (badge, label, regs) = ipc_recv W s;
     let s = s\<lparr>mrs := regs\<rparr>;
     let pid = GET_PID_BADGE badge;
     if badge AND IRQ_EP_BADGE \<noteq> 0 then handle_irq W badge s
     else if label = seL4_Fault_VMFault then vm_fault W pid s
     else if label = seL4_Fault_NullFault then handle_syscall W pid s
     else None }"

text \<open>The loop never returns; its runs are the states that it goes through.\<close>

inductive syscall_loop :: "world \<Rightarrow> sos \<Rightarrow> sos \<Rightarrow> bool" for W where
  loop_start: "syscall_loop W s s"
| loop_more: "syscall_loop W s s1 \<Longrightarrow> loop_step W s1 = Some s2 \<Longrightarrow> syscall_loop W s s2"

subsection \<open>Starting\<close>

definition sos_ipc_init :: "sos \<Rightarrow> ((cptr \<times> cptr) \<times> sos) option" where
  "sos_ipc_init s = do {
     (ut, ntfn, s) \<leftarrow> alloc_retype 0 seL4_NotificationObject seL4_NotificationBits s;
     c_assert (ut \<noteq> 0);
     s \<leftarrow> must (TCB_BindNotification seL4_CapInitThreadTCB ntfn) s;
     (ut, ipc_ep, s) \<leftarrow> alloc_retype 0 seL4_EndpointObject seL4_EndpointBits s;
     c_assert (ut \<noteq> 0);
     Some ((ipc_ep, ntfn), s) }"

definition badge_irq_ntfn :: "cptr \<Rightarrow> word64 \<Rightarrow> sos \<Rightarrow> (cptr \<times> sos) option" where
  "badge_irq_ntfn ntfn badge s = do {
     (badged_cap, s) \<leftarrow> alloc_slot s;
     c_assert (badged_cap \<noteq> seL4_CapNull);
     let (_, s) = cspace_mint (cspace s) badged_cap (cspace s) ntfn seL4_AllRights (badge OR IRQ_EP_BADGE) s;
     Some (badged_cap, s) }"

text \<open>
  \<open>main_continued\<close> up to the event loop. C leaves open in which order the two capabilities for the
  network are made; here it is the order of the arguments.
\<close>

definition main_continued :: "world \<Rightarrow> sos \<Rightarrow> sos option" where
  "main_continued W s = do {
     ((ipc_ep, ntfn), s) \<leftarrow> sos_ipc_init s;
     (timer_vaddr, s) \<leftarrow> sos_map_device (PAGE_ALIGN_4K TIMER_PADDR) PAGE_SIZE_4K s;
     (irq_cap, s) \<leftarrow> badge_irq_ntfn ntfn IRQ_BADGE_NETWORK_IRQ s;
     (tick_cap, s) \<leftarrow> badge_irq_ntfn ntfn IRQ_BADGE_NETWORK_TICK s;
     s \<leftarrow> network_init W irq_cap tick_cap timer_vaddr s;
     (timer_cap, s) \<leftarrow> badge_irq_ntfn ntfn IRQ_BADGE_TIMER s;
     (_, s) \<leftarrow> start_timer timer_cap timer_vaddr s;
     s \<leftarrow> frame_table_init s;
     s \<leftarrow> shared_buf_init W s;
     s \<leftarrow> vfs_bootstrap W s;
     let s = pager_bootstrap s;
     (success, s) \<leftarrow> proc_bootstrap W ipc_ep s;
     c_assert success;
     Some s }"

definition map_stack_page :: "nat \<Rightarrow> sos \<Rightarrow> sos option" where
  "map_stack_page i s = do {
     (frame, frame_cap, s) \<leftarrow> alloc_retype 0 seL4_ARM_SmallPageObject seL4_PageBits s;
     c_assert (frame \<noteq> 0);
     (err, s) \<leftarrow> map_frame frame_cap seL4_CapInitThreadVSpace (SOS_STACK + word_of_nat i * PAGE_SIZE_4K) seL4_AllRights
                  seL4_ARM_Default_VMAttributes s;
     c_assert (err = 0);
     Some s }"

definition sos_main :: "world \<Rightarrow> seL4_BootInfo \<Rightarrow> word64 \<Rightarrow> sos \<Rightarrow> sos option" where
  "sos_main W bi fan_out s = do {
     (d, s) \<leftarrow> sos_bootstrap bi fan_out (dma s) s;
     s \<leftarrow> uart_init (s\<lparr>dma := d\<rparr>);
     let s = update_vputchar True s;
     s \<leftarrow> for_each map_stack_page [0..<SOS_STACK_PAGES] s;
     main_continued W s }"

section \<open>Lemmas\<close>

subsection \<open>Badges\<close>

lemma SET_PID_BADGE_sum: "SET_PID_BADGE pid = word_of_int (101 + 1048576 * pid)"
proof -
  have "(101 :: int) = take_bit 20 101" by simp
  then have small: "bit (101 :: int) n \<Longrightarrow> n < 20" for n by (metis bit_take_bit_iff)
  have "\<not> bit (101 :: int) n \<or> \<not> bit (push_bit 20 pid) n" for n using small [of n] by (auto simp: bit_push_bit_iff)
  then have "(101 :: int) + push_bit 20 pid = or 101 (push_bit 20 pid)" by (rule disjunctive_add)
  then show ?thesis unfolding SET_PID_BADGE_def by (simp flip: push_bit_eq_mult add: push_bit_eq_mult mult.commute)
qed

lemma uint_small64: "0 \<le> x \<Longrightarrow> x < 18446744073709551616 \<Longrightarrow> uint (word_of_int x :: word64) = x"
  by (simp add: uint_word_of_int_eq take_bit_int_eq_self)

lemma and_push_bit_0: "\<not> bit (a :: word64) n \<Longrightarrow> a AND push_bit n 1 = 0"
  by (auto intro!: bit_word_eqI simp: bit_and_iff bit_exp_iff)

lemma badge_round_trip:
  assumes "0 \<le> pid" "pid < 2048"
  shows "GET_PID_BADGE (SET_PID_BADGE pid) = pid" "SET_PID_BADGE pid AND IRQ_EP_BADGE = 0"
proof -
  let ?b = "word_of_int (101 + 1048576 * pid) :: word64"
  have u: "uint ?b = 101 + 1048576 * pid" using assms by (intro uint_small64) simp_all
  have "uint (drop_bit 20 ?b) = (101 + 1048576 * pid) div 1048576"
    unfolding drop_bit_eq_div uint_div u by simp
  then have "uint (drop_bit 20 ?b) = pid" by simp
  then have d: "drop_bit 20 ?b = word_of_int pid" by (metis word_of_int_uint)
  have "sint (ucast (word_of_int pid :: word64) :: word32) = pid"
    using assms by (simp add: unsigned_of_int signed_of_int take_bit_int_eq_self signed_take_bit_int_eq_self)
  then show "GET_PID_BADGE (SET_PID_BADGE pid) = pid"
    unfolding GET_PID_BADGE_def SET_PID_BADGE_sum word_to_int32_def d .
  have "?b < 2 ^ 63" unfolding word_less_def u using assms by simp
  then have "take_bit 63 ?b = ?b" by (rule take_bit_small64) simp
  then have "\<not> bit ?b 63" by (metis bit_take_bit_iff less_irrefl)
  then show "SET_PID_BADGE pid AND IRQ_EP_BADGE = 0"
    unfolding SET_PID_BADGE_sum IRQ_EP_BADGE_def BIT_def using and_push_bit_0 [of ?b 63] by simp
qed

section \<open>Properties\<close>

text \<open>
  C2. A system call is executed for the process that made it. When the event loop receives a
  message with the badge of process \<open>pid\<close> and a valid number, it runs exactly the handler of that
  number, on the structure of that process, with the message as its arguments and with the table
  of processes and the memory as they were; the last thing it does to the kernel is to send the
  reply, which has the length and the words that the handler left. The badge of a process is
  never taken for that of an interrupt.
\<close>

theorem syscall_dispatch:
  assumes "reap_list s = []" "ipc_recv W s = (SET_PID_BADGE pid, seL4_Fault_NullFault, regs)" "0 \<le> pid" "pid < int MAX_PROCESSES"
    "1 \<le> regs 0" "regs 0 \<le> NUM_SYSCALLS" "loop_step W s = Some s'"
  shows "\<exists>p reply n s1 s2. proc_get pid s = Some p \<and>
    (syscall_table ! unat (regs 0)) W p s1 = Some (n, s2) \<and>
    procs s1 = procs s \<and> proc_mem s1 = proc_mem s \<and> mem s1 = mem s \<and> mrs s1 = regs \<and>
    klog s' = Send_Reply reply (nat n) # klog s2 \<and> mrs s' = mrs s2"
proof -
  have badge: "GET_PID_BADGE (SET_PID_BADGE pid) = pid" "SET_PID_BADGE pid AND IRQ_EP_BADGE = 0"
    using badge_round_trip [of pid] assms(3,4) by simp_all
  have range: "ISINRANGE 1 (regs 0) NUM_SYSCALLS" using assms(5,6) by (auto simp: ISINRANGE_def Let_def)
  have "handle_syscall W pid (s\<lparr>mrs := regs\<rparr>) = Some s'"
    using assms(7) unfolding loop_step_def reap_def by (simp add: assms(1,2) badge Let_def)
  then obtain reply s0 where slot: "alloc_slot (s\<lparr>mrs := regs\<rparr>) = Some (reply, s0)"
    and rest: "(let syscall_number = GetMR 0 s0; (err, s) = cspace_save_reply_cap (cspace s0) reply s0 in do {
      c_assert (err = 0);
      p \<leftarrow> proc_get pid s;
      s \<leftarrow> (if ISINRANGE 1 syscall_number NUM_SYSCALLS then do {
              f \<leftarrow> rd syscall_table (unat syscall_number);
              (nwords, s) \<leftarrow> f W p s;
              let (_, s) = kinvoke (Send_Reply reply (nat nwords)) s;
              Some s }
            else Some s);
      free_slot reply s }) = Some s'"
    by (auto simp: handle_syscall_def bind_eq_Some_conv)
  note st0 = still_sos [OF still_alloc_slot [OF slot]]
  obtain err s1 where save: "cspace_save_reply_cap (cspace s0) reply s0 = (err, s1)" by fastforce
  note st1 = still_sos [OF still_cspace(5) [OF save]]
  have "GetMR 0 s0 = regs 0" using st0 by (simp add: GetMR_def)
  then obtain p n s2 where "proc_get pid s1 = Some p" "(syscall_table ! unat (regs 0)) W p s1 = Some (n, s2)"
    and free: "free_slot reply (snd (kinvoke (Send_Reply reply (nat n)) s2)) = Some s'"
    using rest range by (auto simp: save bind_eq_Some_conv rd_Some kinvoke_def)
  moreover have "proc_get pid s1 = proc_get pid s" using st0 st1 by (simp add: proc_get_def)
  moreover have "klog s' = Send_Reply reply (nat n) # klog s2" "mrs s' = mrs s2"
    using free by (auto simp: free_slot_def kinvoke_def bind_eq_Some_conv)
  ultimately show ?thesis
    using st0 st1 by (intro exI [of _ p] exI [of _ reply] exI [of _ n] exI [of _ s1] exI [of _ s2]) simp
qed


text \<open>Process 2 asks for its pid.\<close>

definition world_my_id :: world where
  "world_my_id = world_example\<lparr>ipc_recv := (\<lambda>_. (SET_PID_BADGE 2, seL4_Fault_NullFault, (\<lambda>_. 0)(0 := 12)))\<rparr>"

definition my_id_example :: sos where
  "my_id_example = family_example\<lparr>cspace := cspace frames_example, kresp := kresp sos_example\<rparr>"

lemma my_id_runs: "\<exists>s'. loop_step world_my_id my_id_example = Some s' \<and> klog s' \<noteq> klog my_id_example"
proof -
  have badge: "GET_PID_BADGE (SET_PID_BADGE 2) = 2" "SET_PID_BADGE 2 AND IRQ_EP_BADGE = 0"
    using badge_round_trip [of 2] by simp_all
  have "reap_list my_id_example = []" "ipc_recv world_my_id my_id_example = (SET_PID_BADGE 2, seL4_Fault_NullFault, (\<lambda>_. 0)(0 := 12))"
    by (simp_all add: my_id_example_def family_example_def sos_example_def world_my_id_def)
  then show ?thesis
    unfolding loop_step_def reap_def
    by (simp add: badge handle_syscall_def my_id_example_def family_example_def frames_example_def sos_example_def
        world_example_def alloc_slot_def free_slot_def cspace_eval zero_cspace_def cspace_save_reply_cap_def kinvoke_def
        syscall_table_def syscall_proc_my_id_def reply1_def proc_get_def get_proc_def set_proc_def GetMR_def SetMR_def
        ISINRANGE_def)
qed

theorem syscall_dispatch_witness: "\<exists>s'. loop_step world_my_id my_id_example = Some s' \<and> mrs s' 0 = 2"
proof -
  obtain s' where s': "loop_step world_my_id my_id_example = Some s'" using my_id_runs by blast
  have e: "reap_list my_id_example = []" "ipc_recv world_my_id my_id_example = (SET_PID_BADGE 2, seL4_Fault_NullFault, (\<lambda>_. 0)(0 := 12))"
    "proc_get 2 my_id_example = Some 0x1000"
    by (simp_all add: my_id_example_def family_example_def sos_example_def world_my_id_def proc_get_def set_proc_def)
  obtain p n s1 s2 where d: "proc_get 2 my_id_example = Some p" "(syscall_table ! 12) world_my_id p s1 = Some (n, s2)"
    "proc_mem s1 = proc_mem my_id_example" "mrs s' = mrs s2"
    using syscall_dispatch [OF e(1,2) _ _ _ _ s'] by auto
  have "get_proc s1 0x1000 = Some ((fresh_proc world_example 0)\<lparr>p_pid := 2, p_child_list := [3, 4]\<rparr>)"
    using d(3) by (simp add: get_proc_def my_id_example_def family_example_def set_proc_def)
  then have "mrs s2 0 = 2"
    using d(1,2) e(3) by (auto simp: syscall_table_def syscall_proc_my_id_def reply1_def SetMR_def)
  then show ?thesis using s' d(4) by auto
qed

subsection \<open>Sleeping processes\<close>

text \<open>
  The timer interrupt with the callback that SOS registers. Two processes sleep, one until 25000 and
  one until 45000; a coroutine that is woken replies to its process.
\<close>

definition world_sleep :: world where
  "world_sleep = world_example\<lparr>resumes := (\<lambda>co w s. Some (snd (kinvoke (Send_Reply co 1) s)))\<rparr>"

definition sleepers :: pqueue where
  "sleepers = \<lparr>pq_size = 2, pq_time = 20000,
     pq_head = [new_job 1 5000 20000 ONE_SHOT USLEEP_HANDLER 7, new_job 2 15000 30000 ONE_SHOT USLEEP_HANDLER 8]\<rparr>"

definition sleep_example :: sos where
  "sleep_example = sos_example\<lparr>kresp := (\<lambda>l. case l of Read_cntfrq # _ \<Rightarrow> 62500000 | _ \<Rightarrow> 0), timer_initialised := True, pq := Some sleepers\<rparr>"

theorem timer_interrupt_runs_due_jobs_witness:
  "timer_loop (timer_callback world_sleep) 0 sleep_example =
     fire_all (timer_callback world_sleep) [new_job 1 5000 20000 ONE_SHOT USLEEP_HANDLER 7] 0 sleep_example \<and>
   (\<exists>s' q'. timer_interrupt (timer_callback world_sleep) sleep_example = Some (CLOCK_R_OK, s') \<and> pq s' = Some q' \<and>
      pq_time q' = 30000 \<and> new_job 2 15000 30000 ONE_SHOT USLEEP_HANDLER 8 \<in> set (pq_head q'))"
proof -
  have s: "timer_initialised sleep_example" "pq sleep_example = Some sleepers" "freq_ok sleep_example"
    by (simp_all add: sleep_example_def freq_ok_def)
  have ok: "clock_ok sleepers" by (simp add: clock_ok_def sleepers_def pq_sorted_def new_job_def)
  have cb: "cb_ok (timer_callback world_sleep) sleepers"
    by (simp add: cb_ok_def sleepers_def new_job_def timer_callback_def usleep_handler_def world_sleep_def kinvoke_def SetMR_def)
  have due: "filter (due sleepers) (pq_head sleepers) = [new_job 1 5000 20000 ONE_SHOT USLEEP_HANDLER 7]"
    "\<not> due sleepers (new_job 2 15000 30000 ONE_SHOT USLEEP_HANDLER 8)"
    "new_job 2 15000 30000 ONE_SHOT USLEEP_HANDLER 8 \<in> set (pq_head sleepers)" "pq_time sleepers + 10000 = 30000"
    by (simp_all add: sleepers_def due_def ISINRANGE_def new_job_def)
  show ?thesis
    using timer_interrupt_runs_due_jobs [OF s(1,2) ok cb s(3)] due by fastforce
qed

end
