(* ===== verification/Proc_Table.thy ===== *)
theory Proc_Table
  imports Main_Loop Pagemap
begin

text \<open>
  The table of processes across the whole kernel. The array \<open>procs\<close> is well formed if every
  entry is null or points to a live process structure whose \<open>pid\<close> is its index; then no two
  entries are equal, and no entry is dangling. \<open>proc_create\<close> holds a structure that is not yet in
  the array while it waits for memory, and several creations may wait at the same time; the
  invariant \<open>table_ok\<close> also says that the structures that coroutines hold are live, in no entry,
  and each held only once.

  The argument is one of rely and guarantee. What runs while a coroutine waits is the
  environment, and is relied on to keep the invariant, with the structures of the waiting
  coroutine held for it (\<open>procs_stable\<close>): it may create, publish and destroy processes, and the
  creations of others that it resumes may publish what they hold. Every operation of SOS up to an
  iteration of the event loop is shown to guarantee the same. The collection \<open>same\<close> has the
  operations that leave the table alone, the collection \<open>tabled\<close> those that may wait and keep the
  invariant.
\<close>

section \<open>The invariant\<close>

definition pids_of :: "(word64 \<Rightarrow> proc option) \<Rightarrow> word64 \<Rightarrow> pid_t option" where
  "pids_of m p = (if p = 0 then None else map_option p_pid (m p))"

definition table_wf :: "word64 list \<Rightarrow> (word64 \<Rightarrow> pid_t option) \<Rightarrow> word64 set \<Rightarrow> bool" where
  "table_wf ps m Q \<longleftrightarrow> length ps = MAX_PROCESSES \<and> (\<forall>i < MAX_PROCESSES. ps ! i \<noteq> 0 \<longrightarrow> m (ps ! i) = Some (int i)) \<and>
     (\<forall>p \<in> Q. m p \<noteq> None \<and> p \<notin> set ps)"

text \<open>The structures that are held, by the running coroutine and by the others, are the private ones.\<close>

definition table_fits :: "word64 list \<Rightarrow> (word64 \<Rightarrow> pid_t option) \<Rightarrow> word64 list \<Rightarrow> word64 list \<Rightarrow> bool" where
  "table_fits ps m hs qs \<longleftrightarrow> table_wf ps m (set (hs @ qs)) \<and> distinct (hs @ qs)"

definition table_ok :: "sos \<Rightarrow> bool" where
  "table_ok s \<longleftrightarrow> table_fits (procs s) (pids_of (proc_mem s)) (held_procs s) (parked_procs s)"

definition table_step :: "sos \<Rightarrow> sos \<Rightarrow> bool" where
  "table_step s s' \<longleftrightarrow> (table_ok s \<longrightarrow> table_ok s' \<and> held_procs s' = held_procs s)"

definition procs_stable :: "world \<Rightarrow> bool" where
  "procs_stable W \<longleftrightarrow> (\<forall>e s w s'. yields W e s = Some (w, s') \<longrightarrow> table_step s s') \<and>
     (\<forall>co w s s'. resumes W co w s = Some s' \<longrightarrow> table_step s s') \<and>
     (\<forall>s s'. network_irq W s = Some s' \<longrightarrow> table_step s s') \<and>
     (\<forall>s s'. network_tick W s = Some s' \<longrightarrow> table_step s s') \<and>
     (\<forall>a b c s s'. network_init W a b c s = Some s' \<longrightarrow> table_step s s')"

definition table_kept :: "world \<Rightarrow> sos \<Rightarrow> sos \<Rightarrow> bool" where
  "table_kept W s s' \<longleftrightarrow> (procs_stable W \<longrightarrow> table_step s s')"

text \<open>The stronger relation of the operations that do not touch the table.\<close>

definition table_same :: "sos \<Rightarrow> sos \<Rightarrow> bool" where
  "table_same s s' \<longleftrightarrow> procs s' = procs s \<and> pids_of (proc_mem s') = pids_of (proc_mem s) \<and>
     held_procs s' = held_procs s \<and> parked_procs s' = parked_procs s"

named_theorems same \<open>operations that leave the table of processes alone\<close>
named_theorems tabled \<open>operations that keep the table of processes well formed\<close>

lemma table_wfD: "table_wf ps m Q \<Longrightarrow> i < MAX_PROCESSES \<Longrightarrow> ps ! i \<noteq> 0 \<Longrightarrow> m (ps ! i) = Some (int i)"
  unfolding table_wf_def by blast

lemma table_wf_distinct:
  assumes "table_wf ps m Q" "i < MAX_PROCESSES" "j < MAX_PROCESSES" "ps ! i = ps ! j" "ps ! i \<noteq> 0"
  shows "i = j"
proof -
  have "m (ps ! i) = Some (int i)" by (rule table_wfD [OF assms(1,2,5)])
  moreover have "m (ps ! j) = Some (int j)" by (rule table_wfD [OF assms(1,3) assms(5) [unfolded assms(4)]])
  ultimately show ?thesis unfolding assms(4) by simp
qed

lemma pids_of_get: "map_option p_pid (get_proc s p) = pids_of (proc_mem s) p"
  by (simp add: pids_of_def get_proc_def)

lemma get_proc_pids [same]: "get_proc s p = Some v \<Longrightarrow> pids_of (proc_mem s) p = Some (p_pid v)"
  by (simp flip: pids_of_get)

lemma pids_of_upd [simp]: "pids_of m p = Some (p_pid v) \<Longrightarrow> pids_of (m(p \<mapsto> v)) = pids_of m"
  by (auto simp: pids_of_def fun_eq_iff)

lemma still_same: "still s s' \<Longrightarrow> table_same s s'"
  by (simp add: table_same_def still_sos)

lemma table_same_refl [simp]: "table_same s s"
  by (simp add: table_same_def)

lemma table_kept_refl [simp]: "table_kept W s s"
  by (simp add: table_kept_def table_step_def)

lemma table_same_kept: "table_same s s' \<Longrightarrow> table_kept W s s'"
  by (simp add: table_same_def table_kept_def table_step_def table_ok_def)

lemma table_kept_trans [trans]: "table_kept W s t \<Longrightarrow> table_kept W t u \<Longrightarrow> table_kept W s u"
  by (simp add: table_kept_def table_step_def)

lemma ends_same: "x = Some (r, s') \<Longrightarrow> ends (\<lambda>(_, s'). table_same s s') x \<Longrightarrow> table_same s s'"
  and ends_same1: "y = Some s' \<Longrightarrow> ends (table_same s) y \<Longrightarrow> table_same s s'"
  and ends_kept: "x = Some (r, s') \<Longrightarrow> ends (\<lambda>(_, s'). table_kept W s s') x \<Longrightarrow> table_kept W s s'"
  and ends_kept1: "y = Some s' \<Longrightarrow> ends (table_kept W s) y \<Longrightarrow> table_kept W s s'"
  by (simp_all add: ends_def)

lemmas table_defs = table_same_def table_kept_def table_step_def table_ok_def

lemmas still_table [same] = still [THEN still_same]

lemma world_kept [tabled]:
  "yields W e s = Some (w, s') \<Longrightarrow> table_kept W s s'" "resumes W co w s = Some s' \<Longrightarrow> table_kept W s s'"
  "network_irq W s = Some s' \<Longrightarrow> table_kept W s s'" "network_tick W s = Some s' \<Longrightarrow> table_kept W s s'"
  "network_init W a b c s = Some s' \<Longrightarrow> table_kept W s s'"
  unfolding table_kept_def procs_stable_def by blast+

interpretation table: observed_paging "table_kept W" W for W
proof (unfold_locales, goal_cases)
  case (3 p s s1 s2 s3)
  then show ?case by (auto simp: table_defs coro_inc_def coro_dec_def upd_proc_def bind_eq_Some_conv dest!: same)
next
  case 8
  then show ?case by (rule world_kept)
qed (auto simp: table_defs bind_eq_Some_conv dest!: same)

lemmas table_files [tabled] = table.vfs_open_kept [THEN keptD] table.vfs_lookup_kept [THEN keptD] table.VOP_kept [THEN keptD]
  table.VOP_RECLAIM_kept [THEN keptD] table.nfs_get_statbuf_kept [THEN keptD] table.pageout_kept [THEN keptD]
  table.pagein_kept [THEN keptD] table.vfs_close_kept [THEN kept1D]

section \<open>Frames and page tables\<close>

lemma same_copy [same]:
  "sos_copyin p a n s = (r, s') \<Longrightarrow> table_same s s'" "sos_copyout p a n s = (r, s') \<Longrightarrow> table_same s s'"
  "malloc m s = (q, s') \<Longrightarrow> table_same s s'" "copyin_bytes p bs n s = Some (i, s') \<Longrightarrow> table_same s s'"
  by (auto simp: sos_copyin_def sos_copyout_def malloc_def kinvoke_def copyin_bytes_def bind_eq_Some_conv table_same_def Let_def)

lemma same_set_frame [same]: "set_frame page e s = Some s' \<Longrightarrow> table_same s s'"
  by (auto simp: set_frame_def bind_eq_Some_conv table_same_def)

lemma same_upd_frame [same]: "upd_frame page f s = Some s' \<Longrightarrow> table_same s s'"
  by (auto simp: upd_frame_def bind_eq_Some_conv dest!: same)

lemma same_clock_step [same]: "clock_step e s = Some s' \<Longrightarrow> table_same s s'"
  by (erule ends_same1, unfold clock_step_def, intro paths)
    (auto simp: table_defs kinvoke_def bind_eq_Some_conv split: if_split_asm dest!: same)

lemma same_clock_loop [same]: "clock_loop s = Some s' \<Longrightarrow> table_same s s'"
proof (induction rule: clock_loop.raw_induct [rotated, consumes 1, case_names step])
  case (step loop s s')
  show ?case
    by (rule endsD [OF _ step(2)], intro paths) (auto simp: table_defs ends_def dest!: same step(1))
qed

lemma same_frame_free [same]: "frame_free page s = Some s' \<Longrightarrow> table_same s s'"
  by (erule ends_same1, unfold frame_free_def, intro paths) (auto simp: table_defs split: if_split_asm dest!: same)

lemma evict_kept [tabled]: "evict W s = Some (page, s') \<Longrightarrow> table_kept W s s'"
  by (erule ends_kept, unfold evict_def, intro paths) (auto simp: table_defs dest!: same tabled)

lemma frame_alloc_as_kept [tabled]: "frame_alloc_as imp W s = Some (r, s') \<Longrightarrow> table_kept W s s'"
  by (erule ends_kept, unfold frame_alloc_as_def, intro paths) (auto simp: table_defs split: if_split_asm dest!: same tabled)

lemma frame_alloc_kept [tabled]:
  "frame_alloc W s = Some (r, s') \<Longrightarrow> table_kept W s s'" "frame_alloc_important W s = Some (r, s') \<Longrightarrow> table_kept W s s'"
  by (simp_all add: frame_alloc_def frame_alloc_important_def frame_alloc_as_kept)

lemma set_word_table [simp]: "procs (set_word a v s) = procs s" "proc_mem (set_word a v s) = proc_mem s"
  "held_procs (set_word a v s) = held_procs s" "parked_procs (set_word a v s) = parked_procs s"
  by (simp_all add: set_word_def)

lemma page_table_init_kept [tabled]: "page_table_init W s = Some (pt, s') \<Longrightarrow> table_kept W s s'"
  by (erule ends_kept, unfold page_table_init_def, intro paths) (auto simp: table_defs dest!: same tabled)

lemma level_get_kept:
  assumes "\<And>t s. table_same s (fill t s)"
  shows "level_get W fill slot s = Some (t, s') \<Longrightarrow> table_kept W s s'"
  using assms
  by (elim ends_kept, unfold level_get_def, intro paths) (auto simp: table_defs dest!: tabled)

lemma same_invalidate_all: "table_same s (invalidate_all pt s)"
  by (simp add: invalidate_all_eq table_same_def)

lemma page_table_insert_kept [tabled]: "page_table_insert W pt vaddr page s = Some (r, s') \<Longrightarrow> table_kept W s s'"
  by (erule ends_kept, unfold page_table_insert_def, intro paths)
    (auto simp: table_defs dest!: level_get_kept [OF table_same_refl] level_get_kept [OF same_invalidate_all])

lemma objects_frame_kept [tabled]: "objects_frame W pt s = Some (f, s') \<Longrightarrow> table_kept W s s'"
  by (erule ends_kept, unfold objects_frame_def, intro paths) (auto simp: table_defs dest!: tabled)

lemma save_seL4_info_kept [tabled]: "save_seL4_info W pt ut slot s = Some s' \<Longrightarrow> table_kept W s s'"
  by (erule ends_kept1, unfold save_seL4_info_def, intro paths) (auto simp: table_defs dest!: tabled)

lemma sos_map_loop_kept [tabled]:
  "sos_map_loop W pt f v a rt at n e s = Some (r, s') \<Longrightarrow> table_kept W s s'"
proof (induction n arbitrary: e s r s')
  case (Suc n)
  show ?case
    using Suc.prems
    by (elim ends_kept, unfold sos_map_loop.simps, intro paths)
      (auto simp: table_defs ends_def split: if_split_asm dest!: same tabled Suc.IH)
qed simp

lemma sos_map_frame_kept [tabled]:
  "sos_map_frame W pt f v a rt at page k s = Some (r, s') \<Longrightarrow> table_kept W s s'"
  by (erule ends_kept, unfold sos_map_frame_def, intro paths) (auto simp: table_defs ends_def dest!: same tabled)


section \<open>Giving memory back\<close>

lemma same_add_free_list [same]: "add_free_list i s = Some (r, s') \<Longrightarrow> table_same s s'"
  by (erule ends_same, unfold add_free_list_def, intro paths) (auto simp: table_defs dest!: same)

lemma same_pagefile_remove [same]: "pagefile_remove i s = Some (r, s') \<Longrightarrow> table_same s s'"
  by (erule ends_same, unfold pagefile_remove_def, intro paths) (auto simp: table_defs ends_def dest!: same)

lemma same_for_each:
  assumes "\<And>i s s'. f i s = Some s' \<Longrightarrow> table_same s s'"
  shows "for_each f xs s = Some s' \<Longrightarrow> table_same s s'"
  by (induction xs arbitrary: s) (fastforce simp: table_defs bind_eq_Some_conv dest: assms)+

lemma same_destroy_entry [same]: "destroy_entry pt l s = Some s' \<Longrightarrow> table_same s s'"
  by (erule ends_same1, unfold destroy_entry_def, intro paths) (auto simp: table_defs ends_def dest!: same)

lemma same_destroy_level:
  assumes "\<And>t s s'. sub t s = Some s' \<Longrightarrow> table_same s s'"
  shows "destroy_level sub t s = Some s' \<Longrightarrow> table_same s s'"
  unfolding destroy_level_def
  by (erule same_for_each [rotated]) (auto simp: table_defs Let_def bind_eq_Some_conv split: if_split_asm dest!: same assms)

lemma same_destroy_pt [same]: "destroy_pt pt s = Some s' \<Longrightarrow> table_same s s'"
  unfolding destroy_pt_def by (erule same_for_each [rotated]) (rule same_destroy_entry)

lemma same_destroy_object [same]: "destroy_object frame i s = Some s' \<Longrightarrow> table_same s s'"
  by (erule ends_same1, unfold destroy_object_def, intro paths) (auto simp: table_defs ends_def dest!: same)

lemma same_destroy_all [same]: "for_each (destroy_object frame) is s = Some s' \<Longrightarrow> table_same s s'"
  by (erule same_for_each [rotated]) (rule same_destroy_object)

lemma same_destroy_levels [same]: "destroy_level (destroy_level (destroy_level destroy_pt)) t s = Some s' \<Longrightarrow> table_same s s'"
  by (elim same_destroy_level [rotated] same_destroy_pt)

lemma same_destroy_objects [same]: "destroy_objects frame s = Some s' \<Longrightarrow> table_same s s'"
proof (induction rule: destroy_objects.raw_induct [rotated, consumes 1, case_names step])
  case (step loop frame s s')
  show ?case
    by (rule endsD [OF _ step(2)], intro paths)
      (auto simp: table_defs ends_def dest!: same step(1))
qed

lemma same_page_table_destroy [same]: "page_table_destroy pt s = Some s' \<Longrightarrow> table_same s s'"
  by (erule ends_same1, unfold page_table_destroy_def, intro paths)
    (auto simp: table_defs ends_def dest!: same)

lemma same_upd_proc: "upd_proc p f s = Some s' \<Longrightarrow> (\<And>v. p_pid (f v) = p_pid v) \<Longrightarrow> table_same s s'"
  by (auto simp: upd_proc_def bind_eq_Some_conv table_defs dest!: same)

lemma same_unmap_buf_page [same]: "unmap_buf_page pid i s = Some s' \<Longrightarrow> table_same s s'"
  by (erule ends_same1, unfold unmap_buf_page_def, intro paths) (auto simp: table_defs ends_def dest!: same)

lemma same_unmap_pages [same]: "for_each (unmap_buf_page pid) is s = Some s' \<Longrightarrow> table_same s s'"
  by (erule same_for_each [rotated]) (rule same_unmap_buf_page)

lemma same_sos_unmap_buf [same]: "sos_unmap_buf pid s = Some s' \<Longrightarrow> table_same s s'"
  by (erule ends_same1, unfold sos_unmap_buf_def, intro paths)
    (auto simp: table_defs zero_buf_def dest!: same same_upd_proc)


section \<open>Page faults and loading\<close>

lemma kept_for_each:
  assumes "\<And>i s s'. f i s = Some s' \<Longrightarrow> table_kept W s s'"
  shows "for_each f xs s = Some s' \<Longrightarrow> table_kept W s s'"
proof (induction xs arbitrary: s)
  case (Cons x xs)
  then obtain t where "f x s = Some t" "for_each f xs t = Some s'" by (auto simp: bind_eq_Some_conv)
  then show ?case using assms Cons.IH table_kept_trans by blast
qed simp

lemma map_buf_page_kept [tabled]: "map_buf_page W pid p reg i s = Some s' \<Longrightarrow> table_kept W s s'"
  by (erule ends_kept1, unfold map_buf_page_def, intro paths) (auto simp: table_defs ends_def dest!: same tabled)

lemma map_buf_pages_kept [tabled]: "for_each (map_buf_page W pid p reg) is s = Some s' \<Longrightarrow> table_kept W s s'"
  by (erule kept_for_each [rotated]) (rule map_buf_page_kept)

lemma sos_map_buf_kept [tabled]: "sos_map_buf W pid s = Some s' \<Longrightarrow> table_kept W s s'"
  by (erule ends_kept1, unfold sos_map_buf_def, intro paths) (auto simp: table_defs ends_def dest!: same same_upd_proc tabled)

lemma as_create_kept [tabled]: "as_create W s = Some (a, s') \<Longrightarrow> table_kept W s s'"
  by (erule ends_kept, unfold as_create_def, intro paths) (auto simp: table_defs dest!: same tabled)

lemma same_fault_remap [same]: "fault_remap p pid vaddr entry s = Some s' \<Longrightarrow> table_same s s'"
  by (erule ends_same1, unfold fault_remap_def, intro paths) (auto simp: table_defs ends_def dest!: same)

lemma fault_frame_kept [tabled]: "fault_frame W p as vaddr s = Some (r, s') \<Longrightarrow> table_kept W s s'"
  by (erule ends_kept, unfold fault_frame_def, intro paths) (auto simp: table_defs dest!: same tabled)

lemma fault_pagein_kept [tabled]: "fault_pagein W p pid as vaddr entry s = Some s' \<Longrightarrow> table_kept W s s'"
  by (erule ends_kept1, unfold fault_pagein_def, intro paths) (auto simp: table_defs ends_def dest!: same tabled)

lemma fault_fresh_kept [tabled]: "fault_fresh W p pid as vaddr s = Some s' \<Longrightarrow> table_kept W s s'"
  by (auto simp: fault_fresh_def bind_eq_Some_conv table_defs dest!: same tabled)

lemma fault_map_kept [tabled]: "fault_map W p pid as vaddr s = Some s' \<Longrightarrow> table_kept W s s'"
  by (erule ends_kept1, unfold fault_map_def, intro paths) (auto simp: table_defs ends_def dest!: same tabled)

lemma SetMR_table [simp]: "procs (SetMR i v s) = procs s" "proc_mem (SetMR i v s) = proc_mem s"
  "held_procs (SetMR i v s) = held_procs s" "parked_procs (SetMR i v s) = parked_procs s"
  by (simp_all add: SetMR_def)

lemma vm_fault_kept [tabled]: "vm_fault W pid s = Some s' \<Longrightarrow> table_kept W s s'"
  by (erule ends_kept1, unfold vm_fault_def, intro paths) (auto simp: table_defs ends_def dest!: same tabled)

lemma same_drop_slot [same]: "drop_slot slot s = Some s' \<Longrightarrow> table_same s s'"
  by (erule ends_same1, unfold drop_slot_def, intro paths) (auto simp: table_defs ends_def dest!: same)

lemma load_loadee_kept [tabled]: "load_loadee W pid pt v a rt fl s = Some (r, s') \<Longrightarrow> table_kept W s s'"
  by (erule ends_kept, unfold load_loadee_def, intro paths) (auto simp: table_defs bind_eq_Some_conv split: if_split_asm dest!: same tabled)

lemma load_loader_kept [tabled]: "load_loader W pt l slot a s = Some (r, s') \<Longrightarrow> table_kept W s s'"
  by (erule ends_kept, unfold load_loader_def, intro paths) (auto simp: table_defs dest!: same tabled)

lemma copy_page_table [simp]:
  "procs (copy_page page src dst pos n s) = procs s" "proc_mem (copy_page page src dst pos n s) = proc_mem s"
  "held_procs (copy_page page src dst pos n s) = held_procs s" "parked_procs (copy_page page src dst pos n s) = parked_procs s"
  by (simp_all add: copy_page_def Let_def)

lemma load_pages_kept [tabled]:
  "load_pages W pid p l le sz fsz fl rt src dst pos s = Some (r, s') \<Longrightarrow> table_kept W s s'"
proof -
  have "load_pages W pid p l le sz fsz fl rt src dst pos s = Some y \<Longrightarrow> table_kept W s (snd y)" for y
  proof (induction rule: load_pages.raw_induct [rotated, consumes 1, case_names step])
    case (step loop W pid p l le sz fsz fl rt src dst pos s y)
    show ?case
      by (rule endsD [OF _ step(2)], intro paths) (auto simp: table_defs ends_def dest!: same tabled step(1))
  qed
  then show "load_pages W pid p l le sz fsz fl rt src dst pos s = Some (r, s') \<Longrightarrow> table_kept W s s'" by fastforce
qed

lemma load_segment_kept [tabled]:
  "load_segment_into_vspace W pid l le src sz fsz dst rt fl s = Some (r, s') \<Longrightarrow> table_kept W s s'"
  by (auto simp: load_segment_into_vspace_def bind_eq_Some_conv dest!: tabled)

lemma same_upd_as [same]: "upd_as p f s = Some (r, s') \<Longrightarrow> table_same s s'"
  by (erule ends_same, unfold upd_as_def, intro paths) (auto simp: table_defs dest!: same)

lemma load_header_kept [tabled]: "load_header W pid p l le elf i s = Some (r, s') \<Longrightarrow> table_kept W s s'"
  by (erule ends_kept, unfold load_header_def, intro paths) (auto simp: table_defs dest!: same tabled)

lemma load_headers_kept [tabled]: "load_headers W pid p l le elf is s = Some (r, s') \<Longrightarrow> table_kept W s s'"
proof (induction "is" arbitrary: s)
  case (Cons i "is")
  show ?case
    using Cons.prems
    by (elim ends_kept, unfold load_headers.simps, intro paths) (auto simp: table_defs ends_def dest!: tabled Cons.IH)
qed simp

lemma load_image_kept [tabled]: "load_image W pid p l le elf s = Some (r, s') \<Longrightarrow> table_kept W s s'"
  by (erule ends_kept, unfold load_image_def, intro paths) (auto simp: table_defs dest!: tabled)

lemma elf_load_kept [tabled]: "elf_load W pid l le elf s = Some (r, s') \<Longrightarrow> table_kept W s s'"
  by (auto simp: elf_load_def bind_eq_Some_conv split: if_split_asm dest!: tabled)

lemma read_file_kept [tabled]: "read_file W vn elf n off s = Some s' \<Longrightarrow> table_kept W s s'"
proof (induction rule: read_file.raw_induct [rotated, consumes 1, case_names step])
  case (step loop W vn elf n off s s')
  show ?case
    by (rule endsD [OF _ step(2)], intro paths) (auto simp: table_defs ends_def dest!: same tabled step(1))
qed

lemma elf_load_fs_kept [tabled]: "elf_load_fs W pid l le path s = Some (r, s') \<Longrightarrow> table_kept W s s'"
  by (erule ends_kept, unfold elf_load_fs_def, intro paths) (auto simp: table_defs ends_def dest!: same tabled)


section \<open>Files and timers\<close>

lemma same_set_file [same]: "set_file p i f s = Some s' \<Longrightarrow> table_same s s'"
  by (auto simp: set_file_def bind_eq_Some_conv table_defs dest!: same)

lemma same_place_loop [same]: "place_loop n p f s = Some (r, s') \<Longrightarrow> table_same s s'"
  by (induction n) (auto simp: Let_def bind_eq_Some_conv split: if_split_asm dest!: same)

lemma same_fdt [same]:
  "fdt_place p vn mode s = Some (r, s') \<Longrightarrow> table_same s s'" "fdt_placeat p vn mode fd s = Some (i, s') \<Longrightarrow> table_same s s'"
  "reply1 w s = Some (i, s') \<Longrightarrow> table_same s s'"
  by (auto simp: fdt_place_def fdt_placeat_def reply1_def bind_eq_Some_conv table_defs dest!: same)

lemma transfer_kept [tabled]: "transfer W how f n pid s = Some (r, s') \<Longrightarrow> table_kept W s s'"
  by (auto simp: transfer_def split: if_split_asm dest!: tabled)

lemma syscall_readwrite_kept [tabled]: "syscall_readwrite W p how s = Some (r, s') \<Longrightarrow> table_kept W s s'"
  by (erule ends_kept, unfold syscall_readwrite_def, intro paths) (auto simp: table_defs ends_def dest!: same tabled)

lemma syscall_files_kept [tabled]:
  "syscall_write W p s = Some (r, s') \<Longrightarrow> table_kept W s s'" "syscall_read W p s = Some (r, s') \<Longrightarrow> table_kept W s s'"
  by (auto simp: syscall_write_def syscall_read_def dest!: tabled)

lemma syscall_open_kept [tabled]: "syscall_open W p s = Some (r, s') \<Longrightarrow> table_kept W s s'"
  by (erule ends_kept, unfold syscall_open_def, intro paths) (auto simp: table_defs ends_def dest!: same tabled)

lemma syscall_close_kept [tabled]: "syscall_close W p s = Some (r, s') \<Longrightarrow> table_kept W s s'"
  by (erule ends_kept, unfold syscall_close_def, intro paths) (auto simp: table_defs ends_def dest!: same tabled)

lemma syscall_getdirent_kept [tabled]: "syscall_getdirent W p s = Some (r, s') \<Longrightarrow> table_kept W s s'"
  by (erule ends_kept, unfold syscall_getdirent_def, intro paths) (auto simp: table_defs ends_def dest!: same tabled)

lemma syscall_stat_kept [tabled]: "syscall_stat W p s = Some (r, s') \<Longrightarrow> table_kept W s s'"
  by (erule ends_kept, unfold syscall_stat_def, intro paths) (auto simp: table_defs ends_def dest!: same tabled)

lemma same_register_timer [same]: "register_timer d ty f x s = Some (i, s') \<Longrightarrow> table_same s s'"
  by (erule ends_same, unfold register_timer_def, intro paths) (auto simp: table_defs)

lemma same_timestamps [same]:
  "timestamp_get_freq s = (f, s') \<Longrightarrow> table_same s s'" "timestamp_ms g s = Some (t, s') \<Longrightarrow> table_same s s'"
  by (auto simp: timestamp_get_freq_def timestamp_ms_def timestamp_ticks_def bind_eq_Some_conv kinvoke_def table_defs Let_def)

lemma timer_callback_kept [tabled]: "timer_callback W f i x s = Some s' \<Longrightarrow> table_kept W s s'"
  by (auto simp: timer_callback_def usleep_handler_def bind_eq_Some_conv table_defs split: if_split_asm dest!: tabled)

lemma fire_kept [tabled]: "fire (timer_callback W) job s = Some (t, s') \<Longrightarrow> table_kept W s s'"
  by (erule ends_kept, unfold fire_def, intro paths) (auto simp: table_defs dest!: same tabled)

lemma timer_loop_kept [tabled]: "timer_loop (timer_callback W) t s = Some (r, s') \<Longrightarrow> table_kept W s s'"
proof -
  have "timer_loop cb t s = Some y \<Longrightarrow> cb = timer_callback W \<Longrightarrow> table_kept W s (snd y)" for cb y
  proof (induction rule: timer_loop.raw_induct [rotated, consumes 1, case_names step])
    case (step loop cb t s y)
    show ?case
      unfolding step(3)
      by (rule endsD [OF _ step(2) [unfolded step(3)]], intro paths)
        (auto simp: table_defs ends_def step(3) dest!: tabled step(1))
  qed
  then show "timer_loop (timer_callback W) t s = Some (r, s') \<Longrightarrow> table_kept W s s'" by fastforce
qed

lemma timer_interrupt_kept [tabled]: "timer_interrupt (timer_callback W) s = Some (r, s') \<Longrightarrow> table_kept W s s'"
  by (erule ends_kept, unfold timer_interrupt_def, intro paths) (auto simp: table_defs dest!: same tabled)

lemma handle_irq_kept [tabled]: "handle_irq W badge s = Some s' \<Longrightarrow> table_kept W s s'"
  by (erule ends_kept1, unfold handle_irq_def, intro paths) (auto simp: table_defs split: if_split_asm dest!: tabled)


section \<open>Processes\<close>

subsection \<open>The end of a process\<close>

text \<open>\<open>VOP_RECLAIM\<close> does not wait for a process that is a zombie, so the files of one are given up at once.\<close>

lemma proc_get_cong: "procs t = procs s \<Longrightarrow> proc_get pid t = proc_get pid s"
  by (simp add: proc_get_def)

lemma get_proc_cong: "proc_mem t = proc_mem s \<Longrightarrow> get_proc t p = get_proc s p"
  by (simp add: get_proc_def)

lemma pids_of_null [simp]: "pids_of m 0 = None"
  by (simp add: pids_of_def)

lemma case_ops:
  assumes "(case ops of Dev_ops \<Rightarrow> x | Nfs_ops \<Rightarrow> y) = Some r"
  obtains "x = Some r" | "y = Some r"
  using assms by (cases ops) auto

lemma reclaim_zombie:
  assumes "VOP_RECLAIM W vn pid s = Some (r, s')" "proc_get pid s = Some p" "get_proc s p = Some v" "p_state v = ZOMBIE"
  shows "procs s' = procs s" "proc_mem s' = proc_mem s" "held_procs s' = held_procs s" "parked_procs s' = parked_procs s"
  using assms
  by (auto simp: VOP_RECLAIM_def vnfs_reclaim_def dev_reclaim_def console_close_def bind_eq_Some_conv
      split: if_split_asm elim!: case_ops)

definition zombie_at :: "word64 \<Rightarrow> pid_t \<Rightarrow> sos \<Rightarrow> bool" where
  "zombie_at p pid s \<longleftrightarrow> proc_get pid s = Some p \<and> (\<exists>v. get_proc s p = Some v \<and> p_state v = ZOMBIE)"

lemma close_zombie_file:
  assumes "zombie_at p pid s" "VOP_RECLAIM W vn pid s = Some (r, t)" "set_file p i f t = Some s'"
  shows "table_same s s' \<and> zombie_at p pid s'"
proof -
  obtain v where v: "proc_get pid s = Some p" "get_proc s p = Some v" "p_state v = ZOMBIE"
    using assms(1) by (auto simp: zombie_at_def)
  note t = reclaim_zombie [OF assms(2) v]
  have "proc_get pid t = Some p" "get_proc t p = Some v" using v(1,2) t by (simp_all add: proc_get_cong [of t s] get_proc_cong [of t s])
  moreover have "p \<noteq> 0" using v(2) by auto
  moreover have "table_same s s'" using same_set_file [OF assms(3)] t by (simp add: table_defs)
  ultimately show ?thesis using assms(3) v(3) by (auto simp: set_file_def zombie_at_def bind_eq_Some_conv)
qed

lemma fdt_destroy_zombie:
  assumes "fdt_destroy W p pid s = Some s'" "zombie_at p pid s"
  shows "table_same s s'"
proof -
  let ?body = "\<lambda>i s. do {
      f \<leftarrow> get_file p i s;
      (case f of None \<Rightarrow> Some s | Some f \<Rightarrow> do { (_, s) \<leftarrow> VOP_RECLAIM W (of_vn f) pid s; set_file p i None s }) }"
  have "for_each ?body is s = Some t \<Longrightarrow> zombie_at p pid s \<Longrightarrow> table_same s t" for "is" t s
  proof (induction "is" arbitrary: s)
    case (Cons i "is")
    then obtain u where u: "?body i s = Some u" "for_each ?body is u = Some t" by (auto simp: bind_eq_Some_conv)
    have "table_same s u \<and> zombie_at p pid u"
      using u(1) Cons.prems(2)
      by (auto simp: bind_eq_Some_conv split: option.split_asm dest: close_zombie_file [OF Cons.prems(2)])
    then show ?case using Cons.IH [OF u(2)] by (simp add: table_same_def)
  qed simp
  then show ?thesis
    using assms by (auto simp: fdt_destroy_def bind_eq_Some_conv table_defs dest!: same_upd_proc)
qed

lemma set_procs_Some:
  "set_procs pid q s = Some s' \<longleftrightarrow> 0 \<le> pid \<and> nat pid < length (procs s) \<and> s' = s\<lparr>procs := (procs s)[nat pid := q]\<rparr>"
  by (auto simp: set_procs_def bind_eq_Some_conv wr_Some)

lemma pids_of_free [simp]: "pids_of (m(p := None)) = (pids_of m)(p := None)"
  by (auto simp: pids_of_def fun_eq_iff)

lemma clear_entry:
  assumes "table_ok t" "proc_get pid t = Some p" "p \<noteq> 0"
    "procs t' = (procs t)[nat pid := 0]" "pids_of (proc_mem t') = (pids_of (proc_mem t))(p := None)"
    "held_procs t' = held_procs t" "parked_procs t' = parked_procs t"
  shows "table_ok t'"
proof -
  define Q where "Q = set (held_procs t @ parked_procs t)"
  let ?ps = "procs t" and ?m = "pids_of (proc_mem t)" and ?i = "nat pid"
  have i: "?i < MAX_PROCESSES" "?ps ! ?i = p" and wf: "table_wf ?ps ?m Q"
    using assms(1,2) by (auto simp: proc_get_def rd_Some table_ok_def table_fits_def table_wf_def Q_def split: if_split_asm)
  have other: "?ps ! j \<noteq> p" if "j < MAX_PROCESSES" "j \<noteq> ?i" for j
    using table_wf_distinct [OF wf that(1) i(1)] that(2) i(2) assms(3) by auto
  have "table_wf (?ps[?i := 0]) (?m(p := None)) Q"
    unfolding table_wf_def
  proof (intro conjI ballI allI impI)
    show "length (?ps[?i := 0]) = MAX_PROCESSES" using wf by (simp add: table_wf_def)
  next
    fix j assume j: "j < MAX_PROCESSES" "?ps[?i := 0] ! j \<noteq> 0"
    then have "j \<noteq> ?i" using i(1) wf by (auto simp: table_wf_def)
    then show "(?m(p := None)) (?ps[?i := 0] ! j) = Some (int j)" using j other [OF j(1)] table_wfD [OF wf j(1)] by simp
  next
    fix q assume q: "q \<in> Q"
    then have qs: "q \<notin> set ?ps" "?m q \<noteq> None" using wf by (auto simp: table_wf_def)
    then have "q \<noteq> p" using i wf by (auto simp: table_wf_def)
    then show "(?m(p := None)) q \<noteq> None" using qs(2) by simp
    have "q \<noteq> 0" using qs(2) by (auto simp: pids_of_def)
    then show "q \<notin> set (?ps[?i := 0])" using qs(1) set_update_subset_insert [of ?ps ?i 0] by auto
  qed
  then show ?thesis using assms(1) unfolding table_ok_def table_fits_def assms(4-7) Q_def by blast
qed

lemma same_free_ut_if [same]: "free_ut_if ut b s = Some s' \<Longrightarrow> table_same s s'"
  by (auto simp: free_ut_if_def split: if_split_asm dest!: same)

lemma destroy_memory_kept:
  assumes "destroy_memory p pid s = Some (r, s')" "proc_get pid s = Some p"
  shows "table_kept W s s'"
proof -
  have "ends (\<lambda>(r, s'). p \<noteq> 0 \<and> procs s' = (procs s)[nat pid := 0] \<and> pids_of (proc_mem s') = (pids_of (proc_mem s))(p := None) \<and>
        held_procs s' = held_procs s \<and> parked_procs s' = parked_procs s)
      (destroy_memory p pid s)"
    unfolding destroy_memory_def
    by (intro paths) (auto simp: table_same_def free_proc_def set_procs_Some split: if_split_asm dest!: same)
  then show ?thesis
    using assms clear_entry [OF _ assms(2)] by (auto simp: table_kept_def table_step_def dest: endsD)
qed

lemma proc_destroy_kept [tabled]: "proc_destroy W pid s = Some (r, s') \<Longrightarrow> table_kept W s s'"
proof -
  have files: "table_same s t"
    if "proc_at pid s = Some (p, v)" "p_state v = ZOMBIE" "(if p_fdt v \<noteq> None then fdt_destroy W p pid s else Some s) = Some t" for p v t
  proof -
    have "zombie_at p pid s" using that(1,2) by (auto simp: proc_at_def zombie_at_def bind_eq_Some_conv)
    then show ?thesis using that(3) fdt_destroy_zombie by (auto split: if_split_asm)
  qed
  have step: "table_kept W s s'"
    if "proc_at pid s = Some (p, v)" "p_state v = ZOMBIE" "(if p_fdt v \<noteq> None then fdt_destroy W p pid s else Some s) = Some t"
      "destroy_memory p pid t = Some (r, s')" for p v t r s'
  proof -
    note t = files [OF that(1-3)]
    then have "proc_get pid t = Some p"
      using that(1) by (auto simp: proc_at_def bind_eq_Some_conv table_same_def proc_get_cong [of t s])
    then show ?thesis using destroy_memory_kept [OF that(4)] table_same_kept [OF t] table_kept_trans by blast
  qed
  have "ends (\<lambda>(r, s'). table_kept W s s') (proc_destroy W pid s)"
    unfolding proc_destroy_def
    by (intro paths; clarsimp simp: ends_def simp del: not_None_eq)
      (erule (2) files [THEN table_same_kept], erule (3) step)
  then show "proc_destroy W pid s = Some (r, s') \<Longrightarrow> table_kept W s s'" by (auto dest: endsD)
qed

lemma reap_kept [tabled]: "reap W s = Some s' \<Longrightarrow> table_kept W s s'"
  by (erule ends_kept1, unfold reap_def, intro paths) (auto simp: table_defs dest!: tabled)


subsection \<open>Lists of processes\<close>

lemma same_wait_list [same]:
  "proc_wait_list_add pid w s = Some (r, s') \<Longrightarrow> table_same s s'" "add_child pid c s = Some (r, s') \<Longrightarrow> table_same s s'"
  "add_reap_list pid s = (r, s') \<Longrightarrow> table_same s s'"
  by (auto simp: proc_wait_list_add_def add_child_def add_reap_list_def bind_eq_Some_conv table_defs
      split: if_split_asm prod.split_asm dest!: same same_upd_proc)

lemma ends_each_same: "(\<And>i t. ends (table_same t) (f i t)) \<Longrightarrow> ends (table_same s) (for_each f xs s)"
  by (auto simp: ends_def intro: same_for_each)

lemma ends_each_kept: "(\<And>i t. ends (table_kept W t) (f i t)) \<Longrightarrow> ends (table_kept W s) (for_each f xs s)"
  by (auto simp: ends_def intro: kept_for_each)

lemma same_wait_all_child [same]: "wait_all_child parent s = Some s' \<Longrightarrow> table_same s s'"
  by (erule ends_same1, unfold wait_all_child_def, intro paths ends_each_same) (auto dest!: same)

lemma same_destroy_child_list [same]: "destroy_child_list pid s = Some s' \<Longrightarrow> table_same s s'"
  by (erule ends_same1, unfold destroy_child_list_def, intro paths ends_each_same) (auto simp: table_defs dest!: same)

lemma proc_wait_wakeup_kept [tabled]: "proc_wait_wakeup W pid s = Some s' \<Longrightarrow> table_kept W s s'"
  by (erule ends_kept1, unfold proc_wait_wakeup_def, intro paths ends_each_kept) (auto simp: ends_def dest!: tabled)

lemma zombiefy_kept [tabled]: "zombiefy W pid s = Some (r, s') \<Longrightarrow> table_kept W s s'"
  by (erule ends_kept, unfold zombiefy_def, intro paths) (auto simp: table_defs dest!: same tabled)

subsection \<open>Creating and starting a process\<close>

lemma new_proc_private:
  assumes "new_proc W name s = Some (p, s')" "table_ok s"
  shows "table_ok s'" "held_procs s' = p # held_procs s" "p \<noteq> 0"
proof -
  obtain v t where v: "p \<noteq> 0" "get_proc t p = None" "s' = set_proc p v (t\<lparr>held_procs := p # held_procs t\<rparr>)" "table_same s t"
    using assms(1) by (auto simp: new_proc_def bind_eq_Some_conv split: prod.split_asm dest!: same)
  let ?Q = "set (held_procs t @ parked_procs t)"
  have wf: "table_wf (procs t) (pids_of (proc_mem t)) ?Q" and d: "distinct (held_procs t @ parked_procs t)"
    using assms(2) v(4) by (simp_all add: table_defs table_fits_def)
  have none: "pids_of (proc_mem t) p = None" using v(1,2) by (simp flip: pids_of_get)
  have out: "p \<notin> set (procs t)"
  proof
    assume "p \<in> set (procs t)"
    then obtain i where i: "i < MAX_PROCESSES" "procs t ! i = p" using wf by (auto simp: in_set_conv_nth table_wf_def)
    then show False using table_wfD [OF wf i(1)] v(1) none by simp
  qed
  show "p \<noteq> 0" by (rule v(1))
  show "held_procs s' = p # held_procs s" using v(3,4) by (simp add: table_same_def)
  have new: "p \<notin> ?Q" using wf none unfolding table_wf_def by blast
  have m: "pids_of ((proc_mem t)(p \<mapsto> v)) = (pids_of (proc_mem t))(p \<mapsto> p_pid v)"
    using v(1) by (auto simp: pids_of_def fun_eq_iff)
  have "table_wf (procs t) ((pids_of (proc_mem t))(p \<mapsto> p_pid v)) (insert p ?Q)" using wf out by (auto simp: table_wf_def)
  then show "table_ok s'" using new d by (simp add: table_ok_def table_fits_def v(3) m)
qed

lemma publish:
  assumes "table_wf ps m (insert p Q)" "p \<notin> Q" "p \<noteq> 0" "nat pid < length ps" "0 \<le> pid"
  shows "table_wf (ps[nat pid := p]) (m(p \<mapsto> pid)) Q"
  unfolding table_wf_def
proof (intro conjI ballI allI impI)
  have out: "p \<notin> set ps" using assms(1) by (simp add: table_wf_def)
  show "length (ps[nat pid := p]) = MAX_PROCESSES" using assms(1) by (simp add: table_wf_def)
  {
    fix j assume j: "j < MAX_PROCESSES" "ps[nat pid := p] ! j \<noteq> 0"
    have l: "j < length ps" using j(1) assms(1) by (simp add: table_wf_def)
    show "(m(p \<mapsto> pid)) (ps[nat pid := p] ! j) = Some (int j)"
    proof (cases "j = nat pid")
      case True
      then show ?thesis using assms(4,5) by simp
    next
      case False
      then have "ps ! j \<noteq> p" using out l by auto
      then show ?thesis using False j table_wfD [OF assms(1) j(1)] by simp
    qed
  next
    fix q assume q: "q \<in> Q"
    then have "q \<noteq> p" "m q \<noteq> None" "q \<notin> set ps" using assms(1,2) by (auto simp: table_wf_def)
    then show "(m(p \<mapsto> pid)) q \<noteq> None" "q \<notin> set (ps[nat pid := p])"
      using set_update_subset_insert [of ps "nat pid" p] by auto
  }
qed

text \<open>From the new structure to its entry: what runs in between keeps it private.\<close>

lemma create_entry_kept:
  assumes "new_proc W name s = Some (p, s1)" "table_kept W s1 s3"
    "upd_proc p (init_proc as fdt pid pr buf) s3 = Some s4" "enter_proc pid p s4 = Some s5"
  shows "table_kept W s s5"
  unfolding table_kept_def table_step_def
proof (intro impI)
  assume W: "procs_stable W" and "table_ok s"
  note new = new_proc_private [OF assms(1) \<open>table_ok s\<close>]
  have ok: "table_ok s3" "held_procs s3 = p # held_procs s"
    using assms(2) W new(1,2) by (simp_all add: table_kept_def table_step_def)
  have s5: "procs s5 = (procs s3)[nat pid := p]" "pids_of (proc_mem s5) = (pids_of (proc_mem s3))(p \<mapsto> pid)"
    "nat pid < length (procs s3)" "0 \<le> pid" "held_procs s5 = held_procs s" "parked_procs s5 = parked_procs s3"
    using assms(3,4) new(3) ok(2)
    by (auto simp: upd_proc_def bind_eq_Some_conv enter_proc_def set_procs_Some init_proc_def pids_of_def fun_eq_iff)
  let ?Q = "set (held_procs s @ parked_procs s3)"
  have "table_wf (procs s3) (pids_of (proc_mem s3)) (insert p ?Q)" "p \<notin> ?Q" "distinct (held_procs s @ parked_procs s3)"
    using ok by (simp_all add: table_ok_def table_fits_def)
  then show "table_ok s5 \<and> held_procs s5 = held_procs s"
    using publish [OF _ _ new(3) s5(3,4)] unfolding table_ok_def table_fits_def s5(1,2,5,6) by blast
qed

lemma same_find_next_pid [same]: "find_next_pid s = Some (pid, s') \<Longrightarrow> table_same s s'"
proof -
  have "next_pid_loop pid s = Some y \<Longrightarrow> table_same s (snd y)" for pid y
  proof (induction rule: next_pid_loop.raw_induct [rotated, consumes 1, case_names step])
    case (step loop pid s y)
    show ?case
      by (rule endsD [OF _ step(2)], intro paths) (auto simp: table_defs ends_def dest!: step(1))
  qed
  then show "find_next_pid s = Some (pid, s') \<Longrightarrow> table_same s s'" by (fastforce simp: find_next_pid_def)
qed

lemma same_create [same]:
  "create_vspace p s = Some (r, s') \<Longrightarrow> table_same s s'" "create_cspace p s = Some (r, s') \<Longrightarrow> table_same s s'"
  "create_ipc_buffer p s = Some (r, s') \<Longrightarrow> table_same s s'"
proof -
  have "ends (\<lambda>(_, s'). table_same s s') (create_vspace p s)"
    unfolding create_vspace_def by (intro paths) (auto simp: table_defs dest!: same same_upd_proc)
  then show "create_vspace p s = Some (r, s') \<Longrightarrow> table_same s s'" by (rule ends_same [rotated])
  have "ends (\<lambda>(_, s'). table_same s s') (create_cspace p s)"
    unfolding create_cspace_def by (intro paths) (auto simp: table_defs dest!: same same_upd_proc)
  then show "create_cspace p s = Some (r, s') \<Longrightarrow> table_same s s'" by (rule ends_same [rotated])
  have "ends (\<lambda>(_, s'). table_same s s') (create_ipc_buffer p s)"
    unfolding create_ipc_buffer_def by (intro paths) (auto simp: table_defs dest!: same same_upd_proc)
  then show "create_ipc_buffer p s = Some (r, s') \<Longrightarrow> table_same s s'" by (rule ends_same [rotated])
qed

lemma open_console_kept [tabled]: "open_console W p pid fd r s = Some (r', s') \<Longrightarrow> table_kept W s s'"
  by (erule ends_kept, unfold open_console_def, intro paths) (auto simp: table_defs dest!: same tabled)


lemma proc_create_entry_kept:
  assumes "new_proc W name s = Some (p, s1)" "find_next_pid s1 = Some (pid, s2)" "as_create W s2 = Some (as, s3)"
    "upd_proc p (init_proc as fdt pid pr buf) s3 = Some s4" "enter_proc pid p s4 = Some s5"
  shows "table_kept W s s5"
proof -
  have "table_kept W s1 s3" using assms(2,3) by (auto simp: table_defs dest!: same tabled)
  then show ?thesis by (rule create_entry_kept [OF assms(1) _ assms(4,5)])
qed

lemma proc_create_kept [tabled]: "proc_create W name s = Some (p, s') \<Longrightarrow> table_kept W s s'"
  by (erule ends_kept, unfold proc_create_def, intro paths)
    (clarify, drule (4) proc_create_entry_kept, (auto simp: table_defs dest!: same tabled)[1])+

lemma same_stack_words [same]: "stack_words v s = (i, s') \<Longrightarrow> table_same s s'"
  by (auto simp: stack_words_def stack_write_def Let_def table_defs)

lemma same_init_process_stack [same]: "init_process_stack p v s = Some (sp, s') \<Longrightarrow> table_same s s'"
  by (erule ends_same, unfold init_process_stack_def, intro paths) (auto simp: table_defs dest!: same)

lemma same_start [same]:
  "start_endpoint p s = Some (c, s') \<Longrightarrow> table_same s s'" "start_tcb p c s = Some (ok, s') \<Longrightarrow> table_same s s'"
  "start_region f p s = Some (ok, s') \<Longrightarrow> table_same s s'" "start_thread p sp s = Some (ok, s') \<Longrightarrow> table_same s s'"
proof -
  have "ends (\<lambda>(_, s'). table_same s s') (start_endpoint p s)"
    unfolding start_endpoint_def by (intro paths) (auto simp: table_defs dest!: same)
  then show "start_endpoint p s = Some (c, s') \<Longrightarrow> table_same s s'" by (rule ends_same [rotated])
  have "ends (\<lambda>(_, s'). table_same s s') (start_tcb p c s)"
    unfolding start_tcb_def by (intro paths) (auto simp: table_defs dest!: same same_upd_proc)
  then show "start_tcb p c s = Some (ok, s') \<Longrightarrow> table_same s s'" by (rule ends_same [rotated])
  have "ends (\<lambda>(_, s'). table_same s s') (start_region f p s)"
    unfolding start_region_def by (intro paths) (auto simp: table_defs dest!: same)
  then show "start_region f p s = Some (ok, s') \<Longrightarrow> table_same s s'" by (rule ends_same [rotated])
  have "ends (\<lambda>(_, s'). table_same s s') (start_thread p sp s)"
    unfolding start_thread_def by (intro paths) (auto simp: table_defs dest!: same same_upd_proc)
  then show "start_thread p sp s = Some (ok, s') \<Longrightarrow> table_same s s'" by (rule ends_same [rotated])
qed

lemma same_start_regions [same]: "start_regions p s = Some (ok, s') \<Longrightarrow> table_same s s'"
  by (erule ends_same, unfold start_regions_def, intro paths) (auto simp: table_defs ends_def dest!: same)

lemma same_start_ipc_buffer [same]: "start_ipc_buffer p s = Some (ok, s') \<Longrightarrow> table_same s s'"
  by (erule ends_same, unfold start_ipc_buffer_def, intro paths) (auto simp: table_defs ends_def dest!: same)

lemma start_load_kept [tabled]: "start_load W p name s = Some (ok, s') \<Longrightarrow> table_kept W s s'"
  by (erule ends_kept, unfold start_load_def, intro paths) (auto simp: table_defs dest!: tabled)

lemma start_steps_kept [tabled]: "start_steps W p name s = Some (ok, s') \<Longrightarrow> table_kept W s s'"
  by (erule ends_kept, unfold start_steps_def, intro paths) (auto simp: table_defs ends_def dest!: same tabled)

lemma start_fail_kept [tabled]: "start_fail W p s = Some (r, s') \<Longrightarrow> table_kept W s s'"
  by (erule ends_kept, unfold start_fail_def, intro paths) (auto simp: table_defs dest!: same tabled)

lemma proc_start_kept [tabled]: "proc_start W name s = Some (r, s') \<Longrightarrow> table_kept W s s'"
  by (erule ends_kept, unfold proc_start_def, intro paths) (auto simp: table_defs ends_def dest!: tabled)

section \<open>System calls and the event loop\<close>

lemma syscall_proc_create_kept [tabled]: "syscall_proc_create W p s = Some (r, s') \<Longrightarrow> table_kept W s s'"
  by (erule ends_kept, unfold syscall_proc_create_def, intro paths)
    (auto simp: table_defs ends_def bind_eq_Some_conv split: if_split_asm dest!: same tabled)

lemma syscall_proc_delete_kept [tabled]: "syscall_proc_delete W p s = Some (r, s') \<Longrightarrow> table_kept W s s'"
  by (erule ends_kept, unfold syscall_proc_delete_def, intro paths)
    (auto simp: table_defs ends_def split: if_split_asm dest!: same tabled)

lemma same_status_step: "status_step a i ns = Some ns' \<Longrightarrow> table_same (snd ns) (snd ns')"
  by (cases ns) (auto simp: status_step_def bind_eq_Some_conv table_defs Let_def split: if_split_asm)

lemma same_status_steps [same]: "for_each (status_step a) is ns = Some (n, s') \<Longrightarrow> table_same (snd ns) s'"
proof -
  have "for_each (status_step a) is ns = Some ns' \<Longrightarrow> table_same (snd ns) (snd ns')" for ns'
    by (induction "is" arbitrary: ns) (fastforce simp: table_same_def bind_eq_Some_conv dest: same_status_step)+
  then show "for_each (status_step a) is ns = Some (n, s') \<Longrightarrow> table_same (snd ns) s'" by fastforce
qed

lemma same_syscall_proc_status [same]: "syscall_proc_status p s = Some (r, s') \<Longrightarrow> table_same s s'"
  by (erule ends_same, unfold syscall_proc_status_def, intro paths) (auto simp: table_defs ends_def dest!: same)

lemma same_syscalls [same]:
  "syscall_proc_my_id p s = Some (r, s') \<Longrightarrow> table_same s s'" "syscall_time_stamp p s = Some (r, s') \<Longrightarrow> table_same s s'"
  "syscall_brk p s = Some (r, s') \<Longrightarrow> table_same s s'"
  by (auto simp: syscall_proc_my_id_def syscall_time_stamp_def syscall_brk_def bind_eq_Some_conv Let_def table_defs dest!: same)

lemma syscall_proc_wait_kept [tabled]: "syscall_proc_wait W p s = Some (r, s') \<Longrightarrow> table_kept W s s'"
  by (erule ends_kept, unfold syscall_proc_wait_def, intro paths)
    (auto simp: table_defs ends_def bind_eq_Some_conv split: if_split_asm dest!: same same_upd_proc tabled)

lemma syscall_usleep_kept [tabled]: "syscall_usleep W p s = Some (r, s') \<Longrightarrow> table_kept W s s'"
  by (erule ends_kept, unfold syscall_usleep_def, intro paths) (auto simp: table_defs ends_def dest!: same tabled)

lemma syscall_table_kept:
  assumes "rd syscall_table i = Some f" "f W p s = Some (r, s')"
  shows "table_kept W s s'"
proof -
  have "f \<in> set syscall_table" using assms(1) by (auto simp: rd_Some)
  then show ?thesis using assms(2) unfolding syscall_table_def by (auto dest!: same tabled intro: table_same_kept)
qed

lemma handle_syscall_kept [tabled]: "handle_syscall W pid s = Some s' \<Longrightarrow> table_kept W s s'"
  by (erule ends_kept1, unfold handle_syscall_def, intro paths)
    (auto simp: table_defs ends_def bind_eq_Some_conv kinvoke_def split: if_split_asm dest!: same syscall_table_kept)

lemma loop_step_kept [tabled]: "loop_step W s = Some s' \<Longrightarrow> table_kept W s s'"
  by (erule ends_kept1, unfold loop_step_def, intro paths) (auto simp: table_defs ends_def dest!: tabled)


section \<open>Starting\<close>

lemma same_map_device_page [same]: "map_device_page a s = Some (r, s') \<Longrightarrow> table_same s s'"
  by (erule ends_same, unfold map_device_page_def, intro paths) (auto simp: table_defs dest!: same)

lemma same_map_device_loop [same]: "map_device_loop a e s = Some (r, s') \<Longrightarrow> table_same s s'"
proof -
  have "map_device_loop a e s = Some y \<Longrightarrow> table_same s (snd y)" for y
  proof (induction rule: map_device_loop.raw_induct [rotated, consumes 1, case_names step])
    case (step loop a e s y)
    show ?case
      by (rule endsD [OF _ step(2)], intro paths) (auto simp: table_defs ends_def dest!: same step(1))
  qed
  then show "map_device_loop a e s = Some (r, s') \<Longrightarrow> table_same s s'" by fastforce
qed

lemma same_boot [same]:
  "must c s = Some s' \<Longrightarrow> table_same s s'" "sos_map_device a n s = Some (r, s') \<Longrightarrow> table_same s s'"
  "cspace_irq_control_get cs p q i e s = (k, s') \<Longrightarrow> table_same s s'"
  by (auto simp: must_def sos_map_device_def cspace_irq_control_get_def bind_eq_Some_conv Let_def
      split: prod.split_asm if_split_asm dest!: same)

lemma same_sos_ipc_init [same]: "sos_ipc_init s = Some (r, s') \<Longrightarrow> table_same s s'"
  by (erule ends_same, unfold sos_ipc_init_def, intro paths) (auto simp: table_defs dest!: same)

lemma same_badge_irq_ntfn [same]: "badge_irq_ntfn ntfn b s = Some (r, s') \<Longrightarrow> table_same s s'"
  by (erule ends_same, unfold badge_irq_ntfn_def, intro paths) (auto simp: table_defs dest!: same)

lemma same_init_irq [same]: "init_irq i e n s = Some (r, s') \<Longrightarrow> table_same s s'"
  by (erule ends_same, unfold init_irq_def, intro paths) (auto simp: table_defs dest!: same)

lemma same_stop_timer [same]: "stop_timer s = Some (r, s') \<Longrightarrow> table_same s s'"
  by (erule ends_same, unfold stop_timer_def, intro paths) (auto simp: table_defs dest!: same)

lemma same_start_timer [same]: "start_timer n v s = Some (r, s') \<Longrightarrow> table_same s s'"
  by (erule ends_same, unfold start_timer_def, intro paths) (auto simp: table_defs split: if_split_asm dest!: same)

lemma same_map_table_pages [same]: "map_table_pages n v s = Some (r, s') \<Longrightarrow> table_same s s'"
  by (induction n arbitrary: v s) (fastforce simp: table_defs bind_eq_Some_conv dest!: same)+

lemma same_frame_table_init [same]: "frame_table_init s = Some s' \<Longrightarrow> table_same s s'"
  by (erule ends_same1, unfold frame_table_init_def, intro paths) (auto simp: table_defs dest!: same)

lemma alloc_buffers_kept [tabled]: "alloc_buffers n W v s = Some (r, s') \<Longrightarrow> table_kept W s s'"
  by (induction n arbitrary: v s) (fastforce simp: table_defs bind_eq_Some_conv dest!: tabled)+

lemma shared_buf_init_kept [tabled]: "shared_buf_init W s = Some s' \<Longrightarrow> table_kept W s s'"
  by (erule ends_kept1, unfold shared_buf_init_def, intro paths) (auto simp: table_defs dest!: tabled)

lemma same_vnodes [same]:
  "dev_create_vnode s = Some (v, s') \<Longrightarrow> table_same s s'" "console_init s = (i, s') \<Longrightarrow> table_same s s'"
  "nfs_create_vnode W s = Some (v, s') \<Longrightarrow> table_same s s'" "set_nfs_data v d s = Some s' \<Longrightarrow> table_same s s'"
  by (auto simp: dev_create_vnode_def vnode_init_def console_init_def serial_init_def nfs_create_vnode_def set_nfs_data_def
      bind_eq_Some_conv Let_def kinvoke_def table_defs split: prod.split_asm if_split_asm dest!: same)

lemma same_nfs_bootstrap [same]: "nfs_bootstrap W s = Some (v, s') \<Longrightarrow> table_same s s'"
  by (erule ends_same, unfold nfs_bootstrap_def, intro paths) (auto simp: table_defs dest!: same)

lemma same_vfs_bootstrap [same]: "vfs_bootstrap W s = Some s' \<Longrightarrow> table_same s s'"
  by (erule ends_same1, unfold vfs_bootstrap_def, intro paths) (auto simp: table_defs ends_def dest!: same)

lemma kernel_proc_kept [tabled]: "kernel_proc W s = Some (p, s') \<Longrightarrow> table_kept W s s'"
proof -
  assume "kernel_proc W s = Some (p, s')"
  then obtain s1 s2 as s3 s4 where k: "new_proc W ''spaghettiOS'' s = Some (p, s1)"
    "upd_proc p (\<lambda>v. v\<lparr>p_vspace := seL4_CapInitThreadVSpace\<rparr>) s1 = Some s2" "as_create W s2 = Some (as, s3)"
    "upd_proc p (init_proc as None 0 False (shared_buf_begin s3)) s3 = Some s4" "enter_proc 0 p s4 = Some s'"
    by (auto simp: kernel_proc_def bind_eq_Some_conv)
  have "table_kept W s1 s3" using k(2,3) by (auto simp: table_defs dest!: same_upd_proc tabled)
  then show "table_kept W s s'" by (rule create_entry_kept [OF k(1) _ k(4,5)])
qed

lemma proc_bootstrap_kept [tabled]: "proc_bootstrap W e s = Some (r, s') \<Longrightarrow> table_kept W s s'"
  by (erule ends_kept, unfold proc_bootstrap_def, intro paths) (auto simp: table_defs dest!: tabled)

lemma main_continued_kept: "main_continued W s = Some s' \<Longrightarrow> table_kept W s s'"
  by (erule ends_kept1, unfold main_continued_def pager_bootstrap_def, intro paths) (auto simp: table_defs dest!: same tabled)

lemma syscall_loop_kept: "syscall_loop W s s' \<Longrightarrow> table_kept W s s'"
  by (induction rule: syscall_loop.induct) (auto intro: table_kept_trans dest: loop_step_kept)


section \<open>Properties\<close>

lemma table_ok_entries:
  assumes "table_ok s"
  shows "length (procs s) = MAX_PROCESSES"
    "\<forall>i < MAX_PROCESSES. procs s ! i \<noteq> 0 \<longrightarrow> (\<exists>v. get_proc s (procs s ! i) = Some v \<and> p_pid v = int i)"
    "\<forall>i < MAX_PROCESSES. \<forall>j < MAX_PROCESSES. procs s ! i = procs s ! j \<longrightarrow> procs s ! i \<noteq> 0 \<longrightarrow> i = j"
proof -
  have wf: "table_wf (procs s) (pids_of (proc_mem s)) (set (held_procs s @ parked_procs s))"
    using assms by (simp add: table_ok_def table_fits_def)
  show "length (procs s) = MAX_PROCESSES" using wf by (simp add: table_wf_def)
  show "\<forall>i < MAX_PROCESSES. procs s ! i \<noteq> 0 \<longrightarrow> (\<exists>v. get_proc s (procs s ! i) = Some v \<and> p_pid v = int i)"
    using table_wfD [OF wf] by (auto simp flip: pids_of_get)
  show "\<forall>i < MAX_PROCESSES. \<forall>j < MAX_PROCESSES. procs s ! i = procs s ! j \<longrightarrow> procs s ! i \<noteq> 0 \<longrightarrow> i = j"
    using table_wf_distinct [OF wf] by blast
qed

text \<open>
  C1. The table of processes stays well formed. After any number of iterations of the event loop,
  whatever messages, faults and interrupts arrive and wherever coroutines wait, every entry of
  \<open>procs\<close> is null or points to a live process structure whose \<open>pid\<close> is its index, so no entry
  dangles and no two pids share a structure; and the structures that suspended creations hold are
  live, distinct and not yet in the table (\<open>table_ok\<close>). What runs while a coroutine waits is
  relied on to keep this invariant and to leave to the waiting coroutine what it holds
  (\<open>procs_stable\<close>), which is what every operation of the event loop is shown to guarantee; so
  other creations may start, go on and finish meanwhile.
\<close>

theorem process_table_wf:
  assumes "procs_stable W" "table_ok s" "syscall_loop W s s'"
  shows "table_ok s' \<and> held_procs s' = held_procs s \<and> length (procs s') = MAX_PROCESSES \<and>
    (\<forall>i < MAX_PROCESSES. procs s' ! i \<noteq> 0 \<longrightarrow> (\<exists>v. get_proc s' (procs s' ! i) = Some v \<and> p_pid v = int i)) \<and>
    (\<forall>i < MAX_PROCESSES. \<forall>j < MAX_PROCESSES. procs s' ! i = procs s' ! j \<longrightarrow> procs s' ! i \<noteq> 0 \<longrightarrow> i = j)"
proof -
  have "table_ok s'" "held_procs s' = held_procs s"
    using syscall_loop_kept [OF assms(3)] assms(1,2) by (simp_all add: table_kept_def table_step_def)
  then show ?thesis using table_ok_entries by blast
qed

section \<open>Witness\<close>

text \<open>
  Process 2 sleeps while another coroutine is in the middle of a creation: its structure at 0x3000
  is not in the array. During the sleep that coroutine gets its memory and enters the structure.
\<close>

definition finish_creation :: "sos \<Rightarrow> sos option" where
  "finish_creation s = (case parked_procs s of
     [] \<Rightarrow> Some s
   | p # ps \<Rightarrow> do {
       s \<leftarrow> upd_proc p (init_proc None (Some fdt_create) 4 False 0) s;
       s \<leftarrow> set_procs 4 p s;
       Some (s\<lparr>parked_procs := ps\<rparr>) })"

definition world_creation :: world where
  "world_creation = world_example\<lparr>ipc_recv := (\<lambda>_. (SET_PID_BADGE 2, seL4_Fault_NullFault, (\<lambda>_. 0)(0 := 6, 1 := 20))),
     yields := (\<lambda>e s. do { s \<leftarrow> finish_creation s; Some (Woken, s) })\<rparr>"

definition creation_example :: sos where
  "creation_example = set_proc 0x3000 (fresh_proc world_example 0) (my_id_example\<lparr>parked_procs := [0x3000]\<rparr>)"

lemma finish_creation_step:
  assumes "finish_creation s = Some s'"
  shows "table_step s s'"
proof (cases "parked_procs s")
  case Nil
  then show ?thesis using assms by (simp add: finish_creation_def table_step_def)
next
  case (Cons p ps)
  then have s': "procs s' = (procs s)[4 := p]" "pids_of (proc_mem s') = (pids_of (proc_mem s))(p \<mapsto> 4)" "4 < length (procs s)"
    "p \<noteq> 0" "held_procs s' = held_procs s" "parked_procs s' = ps"
    using assms
    by (auto simp: finish_creation_def upd_proc_def bind_eq_Some_conv set_procs_Some init_proc_def pids_of_def fun_eq_iff)
  have "table_ok s'" if "table_ok s"
  proof -
    let ?Q = "set (held_procs s @ ps)"
    have "table_wf (procs s) (pids_of (proc_mem s)) (insert p ?Q)" "p \<notin> ?Q" "distinct (held_procs s @ ps)"
      using that Cons by (auto simp: table_ok_def table_fits_def)
    then show ?thesis
      using publish [of "procs s" "pids_of (proc_mem s)" p ?Q 4] s'(3,4) unfolding table_ok_def table_fits_def s' by simp
  qed
  then show ?thesis using s'(5) by (simp add: table_step_def)
qed

lemma world_creation_stable: "procs_stable world_creation"
  unfolding procs_stable_def world_creation_def
  by (auto simp: world_example_def table_step_def [of s s for s] bind_eq_Some_conv intro: finish_creation_step)

lemma creation_example_ok: "table_ok creation_example"
  by (auto simp: table_ok_def table_fits_def table_wf_def creation_example_def my_id_example_def family_example_def sos_example_def
      set_proc_def pids_of_def world_example_def nth_Cons' nth_append)

lemma creation_runs: "\<exists>s'. loop_step world_creation creation_example = Some s' \<and> procs s' ! 4 = 0x3000 \<and> parked_procs s' = []"
proof -
  have badge: "GET_PID_BADGE (SET_PID_BADGE 2) = 2" "SET_PID_BADGE 2 AND IRQ_EP_BADGE = 0"
    using badge_round_trip [of 2] by simp_all
  have "reap_list creation_example = []"
    "ipc_recv world_creation creation_example = (SET_PID_BADGE 2, seL4_Fault_NullFault, (\<lambda>_. 0)(0 := 6, 1 := 20))"
    by (simp_all add: creation_example_def my_id_example_def family_example_def sos_example_def world_creation_def)
  moreover have "pqueue_push 1 pqueue_init 0 20000 ONE_SHOT 1 1 =
      (1, 2, \<lparr>pq_size = 1, pq_time = 0, pq_head = [new_job 1 0 20000 ONE_SHOT 1 1]\<rparr>)"
    by code_simp
  ultimately show ?thesis
    unfolding loop_step_def reap_def
    by (simp add: badge handle_syscall_def creation_example_def my_id_example_def family_example_def frames_example_def sos_example_def
        world_creation_def world_example_def alloc_slot_def free_slot_def cspace_eval zero_cspace_def cspace_save_reply_cap_def kinvoke_def
        syscall_table_def syscall_usleep_def register_timer_def finish_creation_def upd_proc_def set_procs_Some set_procs_def
        reply1_def proc_get_def get_proc_def set_proc_def GetMR_def SetMR_def ISINRANGE_def word_to_int32_def)
qed

theorem process_table_wf_witness:
  "\<exists>s'. syscall_loop world_creation creation_example s' \<and> procs creation_example ! 4 = 0 \<and> procs s' ! 4 = 0x3000 \<and>
     parked_procs creation_example = [0x3000] \<and> parked_procs s' = [] \<and> table_ok s' \<and> get_proc s' 0x3000 \<noteq> None"
proof -
  obtain s' where s': "loop_step world_creation creation_example = Some s'" "procs s' ! 4 = 0x3000" "parked_procs s' = []"
    using creation_runs by blast
  have run: "syscall_loop world_creation creation_example s'" by (rule loop_more [OF loop_start s'(1)])
  note t = process_table_wf [OF world_creation_stable creation_example_ok run]
  have "\<forall>i < MAX_PROCESSES. procs s' ! i \<noteq> 0 \<longrightarrow> (\<exists>v. get_proc s' (procs s' ! i) = Some v \<and> p_pid v = int i)"
    by (rule t [THEN conjunct2, THEN conjunct2, THEN conjunct2, THEN conjunct1])
  from this [rule_format, of 4] have "get_proc s' 0x3000 \<noteq> None" using s'(2) by auto
  moreover have "procs creation_example ! 4 = 0" "parked_procs creation_example = [0x3000]"
    by (simp_all add: creation_example_def my_id_example_def family_example_def sos_example_def)
  ultimately show ?thesis using run t [THEN conjunct1] s'(2,3) by (intro exI [of _ s'] conjI)
qed

end
