(* ===== verification/Ringbuffer.thy ===== *)
theory Ringbuffer
  imports Prelude
begin

text \<open>
  The ring buffer macros of \<open>sos/src/ringbuffer.h\<close>. The array is a list as long as \<open>calloc\<close> made
  it, \<open>calloc\<close> being taken to succeed; an index outside it ends the run. The indices are never
  negative, so C's \<open>%\<close> is \<open>mod\<close>, and they are not bounded, so the size is taken to be below
  the largest \<open>int\<close>.

  The lemmas show that a new buffer of size \<open>n\<close> is a queue for \<open>n\<close> elements, and that the next
  write leaves the array: the indices run through \<open>n + 1\<close> positions, but \<open>bufferInit\<close> allocates
  \<open>n\<close>.
\<close>

section \<open>Definitions\<close>

record 'a ringBuffer =
  rb_size :: int
  rb_start :: int
  rb_end :: int
  elems :: "'a list"

definition bufferInit :: "int \<Rightarrow> 'a \<Rightarrow> 'a ringBuffer" where
  "bufferInit S zero = \<lparr>rb_size = S, rb_start = 0, rb_end = 0, elems = replicate (nat S) zero\<rparr>"

definition nextStartIndex :: "'a ringBuffer \<Rightarrow> int" where
  "nextStartIndex b = (rb_start b + 1) mod (rb_size b + 1)"

definition nextEndIndex :: "'a ringBuffer \<Rightarrow> int" where
  "nextEndIndex b = (rb_end b + 1) mod (rb_size b + 1)"

definition isBufferEmpty :: "'a ringBuffer \<Rightarrow> bool" where
  "isBufferEmpty b = (rb_end b = rb_start b)"

definition isBufferFull :: "'a ringBuffer \<Rightarrow> bool" where
  "isBufferFull b = (nextEndIndex b = rb_start b)"

definition bufferWrite :: "'a \<Rightarrow> 'a ringBuffer \<Rightarrow> 'a ringBuffer option" where
  "bufferWrite x b = do {
     es \<leftarrow> wr (elems b) (nat (rb_end b)) x;
     let b = b\<lparr>elems := es, rb_end := (rb_end b + 1) mod (rb_size b + 1)\<rparr>;
     Some (if isBufferEmpty b then b\<lparr>rb_start := nextStartIndex b\<rparr> else b) }"

definition bufferRead :: "'a ringBuffer \<Rightarrow> ('a \<times> 'a ringBuffer) option" where
  "bufferRead b = do {
     x \<leftarrow> rd (elems b) (nat (rb_start b));
     Some (x, b\<lparr>rb_start := nextStartIndex b\<rparr>) }"

section \<open>Lemmas\<close>

text \<open>The buffer after \<open>xs\<close> was written and the first \<open>k\<close> elements were read.\<close>

definition filled :: "nat \<Rightarrow> 'a \<Rightarrow> 'a list \<Rightarrow> nat \<Rightarrow> 'a ringBuffer" where
  "filled n z xs k = \<lparr>rb_size = int n, rb_start = int k, rb_end = int (length xs), elems = xs @ replicate (n - length xs) z\<rparr>"

primrec read_all :: "nat \<Rightarrow> 'a ringBuffer \<Rightarrow> ('a list \<times> 'a ringBuffer) option" where
  "read_all 0 b = Some ([], b)"
| "read_all (Suc m) b = do { (x, b) \<leftarrow> bufferRead b; (xs, b) \<leftarrow> read_all m b; Some (x # xs, b) }"

lemma bufferWrite_filled:
  assumes "length xs < n"
  shows "bufferWrite x (filled n z xs 0) = Some (filled n z (xs @ [x]) 0)"
proof -
  have "replicate (n - length xs) z = z # replicate (n - length xs - 1) z"
    using assms by (cases "n - length xs") simp_all
  moreover have "(int (length xs) + 1) mod (int n + 1) = int (length xs) + 1" using assms by (intro mod_pos_pos_trivial) simp_all
  ultimately show ?thesis
    using assms by (simp add: bufferWrite_def filled_def isBufferEmpty_def Let_def)
qed

lemma for_each_append: "for_each f (xs @ ys) s = for_each f xs s \<bind> for_each f ys"
  by (induction xs arbitrary: s) simp_all

lemma writes_filled: "length xs \<le> n \<Longrightarrow> for_each bufferWrite xs (bufferInit (int n) z) = Some (filled n z xs 0)"
proof (induction xs rule: rev_induct)
  case Nil
  then show ?case by (simp add: bufferInit_def filled_def)
next
  case (snoc x xs)
  then show ?case using bufferWrite_filled [of xs n x z] by (simp add: for_each_append)
qed

lemma bufferRead_filled:
  assumes "k < length xs" "length xs \<le> n"
  shows "bufferRead (filled n z xs k) = Some (xs ! k, filled n z xs (Suc k))"
proof -
  have "(int k + 1) mod (int n + 1) = int k + 1" using assms by (intro mod_pos_pos_trivial) simp_all
  then show ?thesis using assms by (simp add: bufferRead_def filled_def nextStartIndex_def nth_append)
qed

lemma reads_filled:
  "k + m \<le> length xs \<Longrightarrow> length xs \<le> n \<Longrightarrow> read_all m (filled n z xs k) = Some (take m (drop k xs), filled n z xs (k + m))"
proof (induction m arbitrary: k)
  case (Suc m)
  have "drop k xs = xs ! k # drop (Suc k) xs" using Suc.prems(1) by (simp add: Cons_nth_drop_Suc)
  then show ?case using Suc.IH [of "Suc k"] Suc.prems by (simp add: bufferRead_filled)
qed simp

section \<open>Properties\<close>

text \<open>
  C40. A new ring buffer of size \<open>n\<close> is a queue for up to \<open>n\<close> elements: what was written is read in
  the same order, and the buffer is empty again afterwards. The write of one more element than
  \<open>n\<close> is outside the array that \<open>bufferInit\<close> allocated.
\<close>

theorem ring_buffer_fifo_until_full:
  assumes "length xs \<le> n"
  shows "\<exists>b b'. for_each bufferWrite xs (bufferInit (int n) z) = Some b \<and>
    read_all (length xs) b = Some (xs, b') \<and> isBufferEmpty b' \<and>
    (if length xs = n then bufferWrite x b = None else bufferWrite x b \<noteq> None)"
proof -
  have "read_all (length xs) (filled n z xs 0) = Some (xs, filled n z xs (length xs))"
    using reads_filled [of 0 "length xs" xs n z] assms by simp
  moreover have "length xs = n \<Longrightarrow> bufferWrite x (filled n z xs 0) = None"
    by (simp add: bufferWrite_def filled_def)
  moreover have "length xs \<noteq> n \<Longrightarrow> bufferWrite x (filled n z xs 0) \<noteq> None"
    using bufferWrite_filled [of xs n x z] assms by simp
  moreover have "isBufferEmpty (filled n z xs (length xs))" by (simp add: isBufferEmpty_def filled_def)
  ultimately show ?thesis using writes_filled [OF assms, of z] by auto
qed

theorem ring_buffer_fifo_until_full_witness:
  "\<exists>b b'. for_each bufferWrite [3, 1, 2] (bufferInit 3 (0 :: int)) = Some b \<and> read_all 3 b = Some ([3, 1, 2], b') \<and> bufferWrite 4 b = None"
  using ring_buffer_fifo_until_full [of "[3, 1, 2 :: int]" 3 0 4] by (simp add: eval_nat_numeral) blast

end
