(* ===== verification/Picoro.thy ===== *)
theory Picoro
  imports Prelude
begin

text \<open>
  Coroutines, \<open>sos/src/picoro/picoro.c\<close>. The lists of running and idle coroutines are threaded
  through the \<open>next\<close> pointers of the \<open>coro\<close> objects. A \<open>jmp_buf\<close> is the place where its coroutine is
  suspended; \<open>pass\<close> stores the place of the caller and jumps to that of the head of the running
  list, where the static variable \<open>saved\<close> is the value that \<open>pass\<close> returns. A jump through a null
  pointer or to a place that was never stored ends the run.

  The \<open>coro\<close> objects are \<open>first\<close>, at the address \<open>A 0\<close>, and the variable \<open>me\<close> of the n-th activation of
  \<open>coroutine_main\<close>, at the address \<open>A n\<close>; activations never end, so the addresses differ. Where the
  stack has no room for another activation \<open>A n\<close> is 0, and the run ends.

  What a coroutine does between two calls is up to it; a run of the program is a sequence of the
  four things that the coroutine at the head of the running list can do: create a coroutine,
  resume one it has been given, yield, and return from its function. The lemmas show that the two
  lists never share a coroutine in any reachable state and that \<open>resumable\<close> tells exactly which
  coroutines may be resumed.
\<close>

section \<open>Definitions\<close>

text \<open>
  Where a suspended coroutine is: inside \<open>resume\<close> or \<open>yield\<close>, at the first or at the later \<open>pass\<close> of
  \<open>coroutine_main\<close>, or at a \<open>setjmp\<close> before \<open>coroutine_start\<close>.
\<close>

datatype (plugins only: code size) point = In_resume | In_yield | In_main_new | In_main_loop | Forking

record picoro =
  co_next :: "word64 \<Rightarrow> word64"
  co_state :: "word64 \<Rightarrow> point option"
  co_fun :: "word64 \<Rightarrow> word64"
  running_co :: word64
  idle_co :: word64
  saved :: word64
  activations :: nat

definition picoro_init :: "(nat \<Rightarrow> word64) \<Rightarrow> picoro" where
  "picoro_init A = \<lparr>co_next = (\<lambda>_. 0), co_state = (\<lambda>_. None), co_fun = (\<lambda>_. 0), running_co = A 0, idle_co = 0, saved = 0,
     activations = 0\<rparr>"

definition get_running :: "picoro \<Rightarrow> word64" where
  "get_running s = running_co s"

definition resumable :: "word64 \<Rightarrow> picoro \<Rightarrow> bool" where
  "resumable c s = (c \<noteq> 0 \<and> co_next s c = 0)"

text \<open>The new head of the list and the new \<open>next\<close> pointers; for \<open>pop\<close> also the coroutine.\<close>

definition co_push :: "word64 \<Rightarrow> word64 \<Rightarrow> (word64 \<Rightarrow> word64) \<Rightarrow> word64 \<times> (word64 \<Rightarrow> word64)" where
  "co_push lst c nx = (c, nx(c := lst))"

definition co_pop :: "word64 \<Rightarrow> (word64 \<Rightarrow> word64) \<Rightarrow> (word64 \<times> word64 \<times> (word64 \<Rightarrow> word64)) option" where
  "co_pop lst nx = do {
     c_assert (lst \<noteq> 0);
     Some (lst, nx lst, nx(lst := 0)) }"

definition pass :: "word64 \<Rightarrow> point \<Rightarrow> word64 \<Rightarrow> picoro \<Rightarrow> picoro option" where
  "pass me p arg s = do {
     let s = s\<lparr>saved := arg, co_state := (co_state s)(me \<mapsto> p)\<rparr>;
     c_assert (running_co s \<noteq> 0 \<and> co_state s (running_co s) \<noteq> None);
     Some s }"

definition co_resume :: "word64 \<Rightarrow> word64 \<Rightarrow> picoro \<Rightarrow> picoro option" where
  "co_resume c arg s = do {
     c_assert (resumable c s);
     let (r, nx) = co_push (running_co s) c (co_next s);
     pass (nx c) In_resume arg (s\<lparr>running_co := r, co_next := nx\<rparr>) }"

definition co_yield :: "word64 \<Rightarrow> picoro \<Rightarrow> picoro option" where
  "co_yield arg s = do {
     (me, r, nx) \<leftarrow> co_pop (running_co s) (co_next s);
     pass me In_yield arg (s\<lparr>running_co := r, co_next := nx\<rparr>) }"

text \<open>
  \<open>setjmp(running->state)\<close>, then \<open>coroutine_start\<close> up to the first \<open>pass\<close> of the new \<open>coroutine_main\<close>,
  which jumps back to the \<open>setjmp\<close>. The value it passes is lost.
\<close>

definition co_fork :: "(nat \<Rightarrow> word64) \<Rightarrow> picoro \<Rightarrow> picoro option" where
  "co_fork A s = do {
     let s = s\<lparr>co_state := (co_state s)(running_co s \<mapsto> Forking), activations := activations s + 1\<rparr>;
     let me = A (activations s);
     c_assert (me \<noteq> 0);
     let (i, nx) = co_push (idle_co s) me (co_next s);
     pass me In_main_new 0 (s\<lparr>idle_co := i, co_next := nx\<rparr>) }"

text \<open>
  \<open>coroutine\<close>, with what the idle coroutine does when it gets its function: a new one forks the
  next idle coroutine, and both yield their address to the creator.
\<close>

definition co_main :: "(nat \<Rightarrow> word64) \<Rightarrow> word64 \<Rightarrow> picoro \<Rightarrow> picoro option" where
  "co_main A me s = do {
     p \<leftarrow> co_state s me;
     let s = s\<lparr>co_fun := (co_fun s)(me := saved s)\<rparr>;
     s \<leftarrow> (case p of In_main_new \<Rightarrow> co_fork A s | In_main_loop \<Rightarrow> Some s | _ \<Rightarrow> None);
     co_yield me s }"

definition coroutine :: "(nat \<Rightarrow> word64) \<Rightarrow> word64 \<Rightarrow> picoro \<Rightarrow> (word64 \<times> picoro) option" where
  "coroutine A f s = do {
     s \<leftarrow> (if idle_co s = 0 then co_fork A s else Some s);
     (c, i, nx) \<leftarrow> co_pop (idle_co s) (co_next s);
     s \<leftarrow> co_resume c f (s\<lparr>idle_co := i, co_next := nx\<rparr>);
     s \<leftarrow> co_main A c s;
     Some (saved s, s) }"

text \<open>The function of the running coroutine returns \<open>ret\<close> to its loop in \<open>coroutine_main\<close>.\<close>

definition co_finish :: "word64 \<Rightarrow> picoro \<Rightarrow> picoro option" where
  "co_finish ret s = do {
     (me, r, nx) \<leftarrow> co_pop (running_co s) (co_next s);
     let (i, nx) = co_push (idle_co s) me nx;
     pass me In_main_loop ret (s\<lparr>running_co := r, idle_co := i, co_next := nx\<rparr>) }"

text \<open>
  The states of a run, with the set of the coroutines that \<open>coroutine\<close> has returned. The first
  coroutine is the program itself and does not return.
\<close>

inductive co_run :: "(nat \<Rightarrow> word64) \<Rightarrow> picoro \<Rightarrow> word64 set \<Rightarrow> bool" for A where
  co_begin: "co_run A (picoro_init A) {}"
| co_create: "co_run A s G \<Longrightarrow> coroutine A f s = Some (c, s') \<Longrightarrow> co_run A s' (insert c G)"
| co_resumes: "co_run A s G \<Longrightarrow> c \<in> G \<Longrightarrow> co_resume c arg s = Some s' \<Longrightarrow> co_run A s' G"
| co_yields: "co_run A s G \<Longrightarrow> co_yield v s = Some s' \<Longrightarrow> co_run A s' G"
| co_ends: "co_run A s G \<Longrightarrow> running_co s \<noteq> A 0 \<Longrightarrow> co_finish v s = Some s' \<Longrightarrow> co_run A s' G"

section \<open>Lemmas\<close>

subsection \<open>Lists of coroutines\<close>

fun co_list :: "(word64 \<Rightarrow> word64) \<Rightarrow> word64 \<Rightarrow> word64 list \<Rightarrow> bool" where
  "co_list nx p [] \<longleftrightarrow> p = 0"
| "co_list nx p (x # xs) \<longleftrightarrow> p = x \<and> x \<noteq> 0 \<and> co_list nx (nx x) xs"

lemma co_list_other [simp]: "x \<notin> set xs \<Longrightarrow> co_list (nx(x := v)) p xs = co_list nx p xs"
  by (induction xs arbitrary: p) auto

lemma co_list_head: "co_list nx p xs \<Longrightarrow> p = (if xs = [] then 0 else hd xs)"
  by (cases xs) auto

lemma co_list_next: "co_list nx p xs \<Longrightarrow> x \<in> set xs \<Longrightarrow> distinct xs \<Longrightarrow> nx x = 0 \<longleftrightarrow> x = last xs"
proof (induction xs arbitrary: p)
  case (Cons y ys)
  then show ?case by (cases ys) auto
qed simp


subsection \<open>The invariant\<close>

text \<open>
  The addresses of the activations are different. The running list is \<open>rs\<close> above the
  first coroutine, the idle list is \<open>is\<close>; the last idle coroutine has never had a function, and
  the others have been returned by \<open>coroutine\<close> before.
\<close>

definition addresses :: "(nat \<Rightarrow> word64) \<Rightarrow> bool" where
  "addresses A \<longleftrightarrow> A 0 \<noteq> 0 \<and> (\<forall>i j. A i = A j \<longrightarrow> A i \<noteq> 0 \<longrightarrow> i = j)"

definition co_lists :: "(nat \<Rightarrow> word64) \<Rightarrow> picoro \<Rightarrow> word64 list \<Rightarrow> word64 list \<Rightarrow> bool" where
  "co_lists A s rs is \<longleftrightarrow> co_list (co_next s) (running_co s) (rs @ [A 0]) \<and> co_list (co_next s) (idle_co s) is \<and>
     distinct (rs @ A 0 # is)"

definition co_places :: "(nat \<Rightarrow> word64) \<Rightarrow> picoro \<Rightarrow> word64 list \<Rightarrow> word64 list \<Rightarrow> word64 set \<Rightarrow> bool" where
  "co_places A s rs is G \<longleftrightarrow>
     (\<forall>c \<in> set (tl (rs @ [A 0])). co_state s c = Some In_resume) \<and>
     (is \<noteq> [] \<longrightarrow> co_state s (last is) = Some In_main_new) \<and>
     (\<forall>c \<in> set (butlast is). co_state s c = Some In_main_loop) \<and>
     (\<forall>c \<in> G. c \<notin> set rs \<longrightarrow> c \<notin> set is \<longrightarrow> co_next s c = 0 \<and> co_state s c = Some In_yield)"

definition co_inv :: "(nat \<Rightarrow> word64) \<Rightarrow> picoro \<Rightarrow> word64 list \<Rightarrow> word64 list \<Rightarrow> word64 set \<Rightarrow> bool" where
  "co_inv A s rs is G \<longleftrightarrow> co_lists A s rs is \<and> co_places A s rs is G \<and>
     set rs \<subseteq> G \<and> A 0 \<notin> G \<and> (is \<noteq> [] \<longrightarrow> last is \<notin> G) \<and> set (butlast is) \<subseteq> G \<and>
     (is = [] \<longrightarrow> rs = [] \<and> G = {}) \<and> G \<union> set is \<subseteq> A ` {1..activations s} - {0}"

lemma co_running: "co_lists A s rs is \<Longrightarrow> running_co s = hd (rs @ [A 0]) \<and> running_co s \<noteq> 0"
  by (cases rs) (auto simp: co_lists_def)

lemma fresh_address:
  assumes "addresses A" "A (Suc n) \<noteq> 0" "S \<subseteq> A ` {1..n} - {0}"
  shows "A (Suc n) \<notin> S" "A (Suc n) \<noteq> A 0"
proof -
  have ne: "A (Suc n) \<noteq> A i" if "i \<le> n" for i using assms(1,2) that unfolding addresses_def by (metis Suc_n_not_le_n)
  then have "A (Suc n) \<notin> A ` {1..n}" by (metis atLeastAtMost_iff imageE)
  then show "A (Suc n) \<notin> S" using assms(3) by blast
  show "A (Suc n) \<noteq> A 0" by (rule ne) simp
qed

lemma not_idle: "x \<notin> set is \<Longrightarrow> (is \<noteq> [] \<longrightarrow> last is \<noteq> x) \<and> x \<notin> set (butlast is)"
  by (auto dest: in_set_butlastD)

subsection \<open>Resuming, yielding and returning\<close>

lemma co_resume_inv:
  assumes inv: "co_inv A s rs is G" and c: "c \<in> G" and r: "co_resume c arg s = Some s'"
  shows "c \<notin> set rs \<and> c \<notin> set is \<and> co_inv A s' (c # rs) is G \<and> running_co s' = c \<and> saved s' = arg"
proof -
  have l: "co_lists A s rs is" and res: "c \<noteq> 0" "co_next s c = 0" and c0: "c \<noteq> A 0"
    using inv c r by (auto simp: co_inv_def co_resume_def resumable_def bind_eq_Some_conv)
  have "c \<notin> set rs"
    using co_list_next [of "co_next s" "running_co s" "rs @ [A 0]" c] l res c0 by (auto simp: co_lists_def)
  moreover have "c \<notin> set is"
    using co_list_next [of "co_next s" "idle_co s" "is" c] l res c inv by (fastforce simp: co_lists_def co_inv_def)
  moreover have s': "s' = s\<lparr>running_co := c, co_next := (co_next s)(c := running_co s), saved := arg,
      co_state := (co_state s)(running_co s \<mapsto> In_resume)\<rparr>"
    using r by (auto simp: co_resume_def co_push_def pass_def bind_eq_Some_conv)
  moreover have "co_inv A s' (c # rs) is G"
  proof -
    have "running_co s \<notin> set is" "running_co s \<in> set (rs @ [A 0])"
      using l by (cases rs; auto simp: co_lists_def)+
    then have "co_places A s' (c # rs) is G"
      using inv calculation(1,2) c not_idle [of "running_co s" "is"] by (cases rs) (auto simp: co_inv_def co_places_def co_lists_def s')
    moreover have "co_lists A s' (c # rs) is"
      using l res c0 calculation by (auto simp: co_lists_def s' \<open>c \<notin> set rs\<close> \<open>c \<notin> set is\<close>)
    ultimately show ?thesis using inv c by (auto simp: co_inv_def s')
  qed
  ultimately show ?thesis by simp
qed

lemma co_yield_inv:
  assumes inv: "co_inv A s rs is G" and y: "co_yield v s = Some s'"
  shows "\<exists>c rs'. rs = c # rs' \<and> running_co s = c \<and> co_inv A s' rs' is G \<and> running_co s' = hd (rs' @ [A 0]) \<and> saved s' = v \<and> resumable c s'"
proof -
  have l: "co_lists A s rs is" using inv by (simp add: co_inv_def)
  have s': "s' = s\<lparr>running_co := co_next s (running_co s), co_next := (co_next s)(running_co s := 0), saved := v,
      co_state := (co_state s)(running_co s \<mapsto> In_yield)\<rparr>" "co_next s (running_co s) \<noteq> 0"
    using y by (auto simp: co_yield_def co_pop_def pass_def bind_eq_Some_conv)
  then obtain c rs' where rs: "rs = c # rs'" "running_co s = c" using l by (cases rs) (auto simp: co_lists_def)
  have c: "c \<notin> set rs'" "c \<notin> set is" "c \<noteq> A 0" "c \<noteq> 0" "c \<in> G"
    using l inv rs by (auto simp: co_lists_def co_inv_def)
  have l': "co_lists A s' rs' is" using l c by (auto simp: co_lists_def rs s')
  moreover have "co_places A s' rs' is G"
    using inv c not_idle [OF c(2)] by (cases rs') (auto simp: co_inv_def co_places_def rs s')
  ultimately have "co_inv A s' rs' is G" using inv by (auto simp: co_inv_def rs s')
  then show ?thesis using co_running [OF l'] rs c by (auto simp: s' resumable_def)
qed

lemma co_finish_inv:
  assumes inv: "co_inv A s rs is G" and f: "co_finish v s = Some s'" and r: "running_co s \<noteq> A 0"
  shows "\<exists>c rs'. rs = c # rs' \<and> running_co s = c \<and> co_inv A s' rs' (c # is) G \<and> running_co s' = hd (rs' @ [A 0]) \<and> saved s' = v"
proof -
  have l: "co_lists A s rs is" using inv by (simp add: co_inv_def)
  then obtain c rs' where rs: "rs = c # rs'" "running_co s = c" using r by (cases rs) (auto simp: co_lists_def)
  have s': "s' = s\<lparr>running_co := co_next s c, idle_co := c, co_next := (co_next s)(c := 0, c := idle_co s), saved := v,
      co_state := (co_state s)(c \<mapsto> In_main_loop)\<rparr>"
    using f by (auto simp: co_finish_def co_pop_def co_push_def pass_def bind_eq_Some_conv rs)
  have c: "c \<notin> set rs'" "c \<notin> set is" "c \<noteq> A 0" "c \<noteq> 0" "c \<in> G" "is \<noteq> []"
    using l inv rs by (auto simp: co_lists_def co_inv_def)
  have l': "co_lists A s' rs' (c # is)" using l c by (auto simp: co_lists_def rs s')
  moreover have "co_places A s' rs' (c # is) G"
    using inv c not_idle [OF c(2)] by (cases rs') (auto simp: co_inv_def co_places_def rs s')
  ultimately have "co_inv A s' rs' (c # is) G" using inv c by (auto simp: co_inv_def rs s')
  then show ?thesis using co_running [OF l'] rs by (auto simp: s')
qed


subsection \<open>Creating\<close>

text \<open>Reusing an idle coroutine, and using the one that has never had a function, which forks the next one.\<close>

lemma coroutine_reuse:
  assumes "idle_co s = c" "c \<noteq> 0" "co_state s c = Some In_main_loop" "running_co s \<noteq> 0" "running_co s \<noteq> c"
  shows "\<exists>s'. coroutine A f s = Some (c, s') \<and> co_next s' = (co_next s)(c := 0) \<and> running_co s' = running_co s \<and>
    idle_co s' = co_next s c \<and> co_state s' = (co_state s)(running_co s \<mapsto> In_resume, c \<mapsto> In_yield) \<and>
    activations s' = activations s \<and> co_fun s' c = f"
  using assms
  by (simp add: coroutine_def co_pop_def co_resume_def resumable_def co_push_def pass_def co_main_def co_yield_def)

lemma coroutine_new:
  assumes "idle_co s = c" "c \<noteq> 0" "co_next s c = 0" "co_state s c = Some In_main_new" "running_co s \<noteq> 0" "running_co s \<noteq> c"
    "m = A (Suc (activations s))" "m \<noteq> c" "m \<noteq> running_co s" "m \<noteq> 0"
  shows "\<exists>s'. coroutine A f s = Some (c, s') \<and> co_next s' = (co_next s)(c := 0, m := 0) \<and> running_co s' = running_co s \<and>
    idle_co s' = m \<and> co_state s' = (co_state s)(running_co s \<mapsto> In_resume, c \<mapsto> In_yield, m \<mapsto> In_main_new) \<and>
    activations s' = Suc (activations s) \<and> co_fun s' c = f"
  using assms
  by (auto simp: coroutine_def co_pop_def co_resume_def resumable_def co_push_def pass_def co_main_def co_yield_def co_fork_def
      Let_def fun_upd_twist)

lemma coroutine_no_room:
  assumes "co_state s (idle_co s) = Some In_main_new \<and> co_next s (idle_co s) = 0 \<and> running_co s \<noteq> idle_co s \<or> idle_co s = 0"
    "A (Suc (activations s)) = 0"
  shows "coroutine A f s = None"
  using assms
  by (auto simp: coroutine_def co_pop_def co_resume_def resumable_def co_push_def pass_def co_main_def co_fork_def outcome_bind Let_def)

lemma coroutine_first:
  assumes "idle_co s = 0" "running_co s \<noteq> 0" "m = A (Suc (activations s))" "m \<noteq> 0" "m \<noteq> running_co s"
  shows "\<exists>s'. coroutine A f s = coroutine A f s' \<and> co_next s' = (co_next s)(m := 0) \<and> running_co s' = running_co s \<and>
    idle_co s' = m \<and> co_state s' = (co_state s)(running_co s \<mapsto> Forking, m \<mapsto> In_main_new) \<and> activations s' = Suc (activations s)"
  using assms
  by (intro exI [of _ "s\<lparr>co_next := (co_next s)(m := 0), idle_co := m, activations := Suc (activations s), saved := 0,
        co_state := (co_state s)(running_co s \<mapsto> Forking, m \<mapsto> In_main_new)\<rparr>"])
    (simp add: coroutine_def co_fork_def co_push_def pass_def Let_def)

lemma co_create_reuse_inv:
  assumes "co_inv A s rs is G" "is = c # is'" "is' \<noteq> []" "coroutine A f s = Some (d, s')"
  shows "d = c \<and> co_inv A s' rs is' (insert d G)"
proof -
  have l: "co_lists A s rs is" using assms(1) by (simp add: co_inv_def)
  have c: "idle_co s = c" "c \<noteq> 0" "co_state s c = Some In_main_loop" "c \<in> G" "c \<notin> set rs" "c \<notin> set is'" "c \<noteq> A 0"
    using assms(1-3) by (auto simp: co_inv_def co_lists_def co_places_def)
  have r: "running_co s \<noteq> 0" "running_co s \<noteq> c" "running_co s \<notin> set is'" "running_co s \<in> set (rs @ [A 0])"
    using l assms(2) by (cases rs; auto simp: co_lists_def)+
  obtain t where t: "coroutine A f s = Some (c, t)" "co_next t = (co_next s)(c := 0)" "running_co t = running_co s"
    "idle_co t = co_next s c" "co_state t = (co_state s)(running_co s \<mapsto> In_resume, c \<mapsto> In_yield)" "activations t = activations s"
    using coroutine_reuse [OF c(1-3) r(1,2), of A f] by blast
  have e: "d = c" "s' = t" using t(1) assms(4) by simp_all
  have "co_lists A t rs is'" using l c by (auto simp: co_lists_def assms(2) t)
  moreover have "co_places A t rs is' (insert c G)"
    using assms(1) c r not_idle [OF r(3)] not_idle [OF c(6)] by (cases rs) (auto simp: co_inv_def co_places_def assms(2,3) t)
  ultimately have "co_inv A t rs is' (insert c G)" using assms(1,3) c by (auto simp: co_inv_def assms(2) t)
  then show ?thesis using e by simp
qed

lemma co_create_new_inv:
  assumes A: "addresses A" and inv: "co_inv A s rs [c] G" and cr: "coroutine A f s = Some (d, s')"
  shows "d = c \<and> co_inv A s' rs [A (Suc (activations s))] (insert d G)"
proof -
  let ?m = "A (Suc (activations s))"
  have l: "co_lists A s rs [c]" using inv by (simp add: co_inv_def)
  have c: "idle_co s = c" "c \<noteq> 0" "co_next s c = 0" "co_state s c = Some In_main_new" "c \<notin> G" "c \<notin> set rs" "c \<noteq> A 0"
    using inv by (auto simp: co_inv_def co_lists_def co_places_def)
  have r: "running_co s \<noteq> 0" "running_co s \<noteq> c" "running_co s \<in> set (rs @ [A 0])"
    using l by (cases rs; auto simp: co_lists_def)+
  have m0: "?m \<noteq> 0" using coroutine_no_room [of s A f] c r cr by auto
  then have m: "?m \<notin> G" "?m \<noteq> c" "?m \<noteq> A 0" "?m \<noteq> 0" "?m \<notin> set rs"
    using fresh_address [OF A m0, of "G \<union> set [c]"] inv by (auto simp: co_inv_def)
  have mr: "?m \<noteq> running_co s" using m r(3) by auto
  obtain t where t: "coroutine A f s = Some (c, t)" "co_next t = (co_next s)(c := 0, ?m := 0)" "running_co t = running_co s"
    "idle_co t = ?m" "co_state t = (co_state s)(running_co s \<mapsto> In_resume, c \<mapsto> In_yield, ?m \<mapsto> In_main_new)"
    "activations t = Suc (activations s)"
    using coroutine_new [of s c ?m A f] c r m mr by auto
  have e: "d = c" "s' = t" using t(1) cr by simp_all
  have "co_lists A t rs [?m]" using l c m by (auto simp: co_lists_def t)
  moreover have "co_places A t rs [?m] (insert c G)"
    using inv c r m mr by (cases rs) (auto simp: co_inv_def co_places_def t)
  moreover have "insert c G \<union> set [?m] \<subseteq> A ` {1..activations t} - {0}"
    using inv m0 by (force simp: co_inv_def t)
  ultimately have "co_inv A t rs [?m] (insert c G)" using inv c m by (auto simp: co_inv_def)
  then show ?thesis using e by simp
qed

lemma co_create_first_inv:
  assumes A: "addresses A" and inv: "co_inv A s rs [] G" and cr: "coroutine A f s = Some (d, s')"
  shows "\<exists>is'. co_inv A s' rs is' (insert d G)"
proof -
  let ?m = "A (Suc (activations s))"
  have e: "rs = []" "G = {}" "idle_co s = 0" "running_co s = A 0" using inv by (auto simp: co_inv_def co_lists_def)
  have m0: "?m \<noteq> 0" using coroutine_no_room [of s A f] e cr by auto
  then have m: "?m \<noteq> A 0" "?m \<noteq> 0" "A 0 \<noteq> 0" using fresh_address [OF A m0, of "{}"] A by (auto simp: addresses_def)
  obtain t where t: "coroutine A f s = coroutine A f t" "co_next t = (co_next s)(?m := 0)" "running_co t = running_co s"
    "idle_co t = ?m" "co_state t = (co_state s)(running_co s \<mapsto> Forking, ?m \<mapsto> In_main_new)" "activations t = Suc (activations s)"
    using coroutine_first [of s ?m A f] e m by auto
  have "co_inv A t [] [?m] {}"
    using inv m e by (auto simp: co_inv_def co_lists_def co_places_def t)
  then show ?thesis using co_create_new_inv [OF A, of t "[]" ?m "{}" f d s'] cr t(1) e by auto
qed

lemma co_create_inv:
  assumes A: "addresses A" and inv: "co_inv A s rs is G" and cr: "coroutine A f s = Some (c, s')"
  shows "\<exists>is'. co_inv A s' rs is' (insert c G)"
proof (cases "is")
  case Nil
  then show ?thesis using co_create_first_inv [OF A _ cr] inv by simp
next
  case (Cons d is')
  then show ?thesis
    using co_create_new_inv [OF A _ cr] co_create_reuse_inv [OF inv Cons _ cr] inv by (cases "is' = []") auto
qed

lemma co_run_inv:
  assumes "co_run A s G" "addresses A"
  shows "\<exists>rs is. co_inv A s rs is G"
  using assms
proof (induction rule: co_run.induct)
  case co_begin
  then have "co_inv A (picoro_init A) [] [] {}"
    by (auto simp: co_inv_def co_lists_def co_places_def picoro_init_def addresses_def)
  then show ?case by blast
next
  case co_create
  then show ?case using co_create_inv by meson
next
  case co_resumes
  then show ?case using co_resume_inv by meson
next
  case co_yields
  then show ?case using co_yield_inv by meson
next
  case co_ends
  then show ?case using co_finish_inv by meson
qed

section \<open>Properties\<close>

lemma resumable_iff:
  assumes inv: "co_inv A s rs is G" and c: "c \<in> G"
  shows "resumable c s \<longleftrightarrow> c \<notin> set rs \<and> c \<notin> set is"
proof -
  have l: "co_lists A s rs is" and cG: "c \<noteq> A 0" "c \<noteq> 0" "is \<noteq> []" "c \<noteq> last is"
    using inv c by (auto simp: co_inv_def)
  have "c \<in> set rs \<Longrightarrow> co_next s c \<noteq> 0"
    using co_list_next [of "co_next s" "running_co s" "rs @ [A 0]" c] l cG by (auto simp: co_lists_def)
  moreover have "c \<in> set is \<Longrightarrow> co_next s c \<noteq> 0"
    using co_list_next [of "co_next s" "idle_co s" "is" c] l cG by (auto simp: co_lists_def)
  ultimately show ?thesis using inv c cG by (auto simp: resumable_def co_inv_def co_places_def)
qed

lemma resume_yield:
  assumes inv: "co_inv A s rs is G" and c: "c \<in> G" and r: "resumable c s"
  shows "\<exists>s1 s2. co_resume c arg s = Some s1 \<and> running_co s1 = c \<and> saved s1 = arg \<and>
    co_yield v s1 = Some s2 \<and> running_co s2 = running_co s \<and> saved s2 = v \<and> co_next s2 = co_next s"
proof -
  have out: "c \<notin> set rs" "c \<notin> set is" "c \<noteq> A 0" "c \<noteq> 0" "co_next s c = 0" "co_state s c = Some In_yield"
    using resumable_iff [OF inv c] inv c r by (auto simp: co_inv_def co_places_def resumable_def)
  moreover have "running_co s \<noteq> 0" "running_co s \<noteq> c"
    using inv out by (cases rs; auto simp: co_inv_def co_lists_def)+
  ultimately show ?thesis
    using r by (auto simp: co_resume_def co_yield_def co_push_def co_pop_def pass_def Let_def fun_upd_idem)
qed

text \<open>
  C20. The contract of the coroutines, in every state that a program can reach. The list of running
  coroutines ends with the first one and shares no coroutine with the list of idle ones; for a
  coroutine that the program was given, \<open>resumable\<close> holds exactly if it is on neither list; then
  \<open>resume\<close> does not fail, the coroutine gets the processor and the value, and if it yields, the
  one that resumed it has the processor again and gets the yielded value, with the lists as they were.
\<close>

theorem picoro_contract:
  assumes "addresses A" "co_run A s G" "c \<in> G"
  shows "\<exists>rs is. co_list (co_next s) (running_co s) (rs @ [A 0]) \<and> co_list (co_next s) (idle_co s) is \<and>
    distinct (rs @ A 0 # is) \<and> (resumable c s \<longleftrightarrow> c \<notin> set rs \<and> c \<notin> set is) \<and>
    (resumable c s \<longrightarrow> (\<exists>s1 s2. co_resume c arg s = Some s1 \<and> running_co s1 = c \<and> saved s1 = arg \<and>
      co_yield v s1 = Some s2 \<and> running_co s2 = running_co s \<and> saved s2 = v \<and> co_next s2 = co_next s))"
proof -
  obtain rs "is" where inv: "co_inv A s rs is G" using co_run_inv [OF assms(2,1)] by blast
  then have "co_lists A s rs is" by (simp add: co_inv_def)
  then show ?thesis
    using resumable_iff [OF inv assms(3)] resume_yield [OF inv assms(3), of arg v]
    by (intro exI [of _ rs] exI [of _ "is"]) (auto simp: co_lists_def)
qed

definition stack_addresses :: "nat \<Rightarrow> word64" where
  "stack_addresses n = (if n < 25 then word_of_nat (0xC0000000 + 16384 * n) else 0)"

lemma stack_addresses_ok: "addresses stack_addresses"
proof -
  have u: "unat (word_of_nat (0xC0000000 + 16384 * n) :: word64) = 0xC0000000 + 16384 * n" if "n < 25" for n
    using that by (intro unat_of_nat64) simp
  have "i = j" if "stack_addresses i = stack_addresses j" "stack_addresses i \<noteq> 0" for i j
  proof -
    have ij: "i < 25" "j < 25" using that by (auto simp: stack_addresses_def split: if_split_asm)
    then have "(word_of_nat (0xC0000000 + 16384 * i) :: word64) = word_of_nat (0xC0000000 + 16384 * j)"
      using that(1) unfolding stack_addresses_def by (simp only: if_True)
    then have "0xC0000000 + 16384 * i = (0xC0000000 + 16384 * j :: nat)" using u [OF ij(1)] u [OF ij(2)] by metis
    then show ?thesis by simp
  qed
  then show ?thesis by (simp add: addresses_def stack_addresses_def)
qed

theorem picoro_contract_witness:
  "\<exists>c s s1. coroutine stack_addresses 7 (picoro_init stack_addresses) = Some (c, s) \<and>
     co_resume c 8 s = Some s1 \<and> running_co s1 = c \<and> saved s1 = 8"
proof -
  obtain c s where cr: "coroutine stack_addresses 7 (picoro_init stack_addresses) = Some (c, s)" "resumable c s"
    by (simp add: coroutine_def co_fork_def co_pop_def co_resume_def resumable_def co_push_def pass_def co_main_def co_yield_def
        picoro_init_def stack_addresses_def)
  have "co_run stack_addresses s {c}" by (rule co_create [OF co_begin cr(1)])
  then show ?thesis using picoro_contract [OF stack_addresses_ok, of s "{c}" c 8] cr by auto
qed

end
