(* ===== verification/Sosapi.thy ===== *)
theory Sosapi
  imports Main_Loop
begin

text \<open>
  The library that user programs link to make system calls, \<open>libsosapi/src/sos.c\<close>. A user program
  has its own memory and message registers. \<open>seL4_Call\<close> blocks it until SOS replies; what memory
  and registers are then is the argument \<open>call\<close> of the definitions, which also gets the number of
  words of the message, and \<open>None\<close> means that no reply ever comes.

  The buffer that a process shares with SOS is at \<open>SHARE_BUF - PAGE_SIZE_4K * SHARE_BUF_SIZE\<close> in
  the process and at \<open>get_buf_from_pid\<close> in SOS. The lemmas show that what the library puts into the
  message and the buffer is what the handlers of SOS read there, and what an error answer to a
  read does to the program.
\<close>

section \<open>Definitions\<close>

abbreviation (input) SOS_SYS_WRITE :: word64 where "SOS_SYS_WRITE \<equiv> 1"
abbreviation (input) SOS_SYS_READ :: word64 where "SOS_SYS_READ \<equiv> 2"
abbreviation (input) SOS_SYS_OPEN :: word64 where "SOS_SYS_OPEN \<equiv> 3"
abbreviation (input) SOS_SYS_CLOSE :: word64 where "SOS_SYS_CLOSE \<equiv> 4"
abbreviation (input) SOS_SYS_BRK :: word64 where "SOS_SYS_BRK \<equiv> 5"
abbreviation (input) SOS_SYS_USLEEP :: word64 where "SOS_SYS_USLEEP \<equiv> 6"
abbreviation (input) SOS_SYS_TIME_STAMP :: word64 where "SOS_SYS_TIME_STAMP \<equiv> 7"
abbreviation (input) SOS_SYS_GETDIRENT :: word64 where "SOS_SYS_GETDIRENT \<equiv> 8"
abbreviation (input) SOS_SYS_STAT :: word64 where "SOS_SYS_STAT \<equiv> 9"
abbreviation (input) SOS_PROC_CREATE :: word64 where "SOS_PROC_CREATE \<equiv> 10"
abbreviation (input) SOS_PROC_DELETE :: word64 where "SOS_PROC_DELETE \<equiv> 11"
abbreviation (input) SOS_PROC_MY_ID :: word64 where "SOS_PROC_MY_ID \<equiv> 12"
abbreviation (input) SOS_PROC_STATUS :: word64 where "SOS_PROC_STATUS \<equiv> 13"
abbreviation (input) SOS_PROC_WAIT :: word64 where "SOS_PROC_WAIT \<equiv> 14"
abbreviation (input) SHARE_BUF :: word64 where "SHARE_BUF \<equiv> 0xD0000000"
abbreviation (input) SHARE_BUF_BASE :: word64 where "SHARE_BUF_BASE \<equiv> SHARE_BUF - PAGE_SIZE_4K * word_of_nat SHARE_BUF_SIZE"
abbreviation (input) sizeof_sos_stat_t :: word64 where "sizeof_sos_stat_t \<equiv> 32"

record user =
  umem :: "word64 \<Rightarrow> byte"
  umrs :: "nat \<Rightarrow> word64"

type_synonym kernel_call = "nat \<Rightarrow> user \<Rightarrow> user option"

definition set_mrs :: "word64 list \<Rightarrow> user \<Rightarrow> user" where
  "set_mrs ws u = u\<lparr>umrs := (\<lambda>i. if i < length ws then ws ! i else umrs u i)\<rparr>"

definition check_len :: "word64 \<Rightarrow> word64" where
  "check_len len =
     (if len > PAGE_SIZE_4K * word_of_nat SHARE_BUF_SIZE then PAGE_SIZE_4K * word_of_nat SHARE_BUF_SIZE else len)"

definition user_copyin :: "word64 \<Rightarrow> word64 \<Rightarrow> user \<Rightarrow> word64 \<times> user" where
  "user_copyin user_vaddr len u =
     (let len = check_len len in (len, u\<lparr>umem := memcpy (umem u) SHARE_BUF_BASE user_vaddr len\<rparr>))"

definition user_copyout :: "word64 \<Rightarrow> word64 \<Rightarrow> user \<Rightarrow> word64 \<times> user" where
  "user_copyout user_vaddr len u =
     (let len = check_len len in (len, u\<lparr>umem := memcpy (umem u) user_vaddr SHARE_BUF_BASE len\<rparr>))"

text \<open>\<open>strlen\<close> of the C library: it does not return for memory without a zero byte.\<close>

partial_function (option) strlen :: "(word64 \<Rightarrow> byte) \<Rightarrow> word64 \<Rightarrow> word64 \<Rightarrow> word64 option" where
  "strlen m a n = (if m (a + n) = 0 then Some n else strlen m a (n + 1))"

declare strlen.simps [code]

subsection \<open>Files\<close>

definition sos_sys_open :: "kernel_call \<Rightarrow> word64 \<Rightarrow> int \<Rightarrow> user \<Rightarrow> (int \<times> user) option" where
  "sos_sys_open call path mode u = do {
     n \<leftarrow> strlen (umem u) path 0;
     let u = set_mrs [SOS_SYS_OPEN, word_of_int mode, n + 1] u;
     let (_, u) = user_copyin path (n + 1) u;
     u \<leftarrow> call 3 u;
     Some (if umrs u 0 \<noteq> 0 then - 1 else word_to_int32 (umrs u 1), u) }"

definition sos_sys_close :: "kernel_call \<Rightarrow> int \<Rightarrow> user \<Rightarrow> (int \<times> user) option" where
  "sos_sys_close call file u = do {
     u \<leftarrow> call 2 (set_mrs [SOS_SYS_CLOSE, word_of_int file] u);
     Some (word_to_int32 (umrs u 0), u) }"

definition sos_sys_read :: "kernel_call \<Rightarrow> int \<Rightarrow> word64 \<Rightarrow> word64 \<Rightarrow> user \<Rightarrow> (int \<times> user) option" where
  "sos_sys_read call file buf nbyte u = do {
     u \<leftarrow> call 3 (set_mrs [SOS_SYS_READ, word_of_int file, nbyte] u);
     let bytes_read = umrs u 0;
     let (_, u) = user_copyout buf bytes_read u;
     Some (word_to_int32 bytes_read, u) }"

definition sos_sys_write :: "kernel_call \<Rightarrow> int \<Rightarrow> word64 \<Rightarrow> word64 \<Rightarrow> user \<Rightarrow> (int \<times> user) option" where
  "sos_sys_write call file buf nbyte u = do {
     let (nbyte, u) = user_copyin buf nbyte u;
     u \<leftarrow> call 3 (set_mrs [SOS_SYS_WRITE, word_of_int file, nbyte] u);
     Some (word_to_int32 (umrs u 0), u) }"

definition sos_getdirent :: "kernel_call \<Rightarrow> int \<Rightarrow> word64 \<Rightarrow> word64 \<Rightarrow> user \<Rightarrow> (int \<times> user) option" where
  "sos_getdirent call pos name nbyte u = do {
     c_assert (pos \<ge> 0);
     let (nbyte, u) = user_copyin name nbyte u;
     u \<leftarrow> call 3 (set_mrs [SOS_SYS_GETDIRENT, word_of_int pos, nbyte] u);
     let (_, u) = user_copyout name (umrs u 0) u;
     Some (word_to_int32 (umrs u 0), u) }"

definition sos_stat :: "kernel_call \<Rightarrow> word64 \<Rightarrow> word64 \<Rightarrow> user \<Rightarrow> (int \<times> user) option" where
  "sos_stat call path buf u = do {
     n \<leftarrow> strlen (umem u) path 0;
     let (nbyte, u) = user_copyin path (n + 1) u;
     u \<leftarrow> call 2 (set_mrs [SOS_SYS_STAT, nbyte] u);
     if umrs u 0 \<noteq> 0 then Some (word_to_int32 (umrs u 0), u)
     else do {
       let (_, u) = user_copyout buf sizeof_sos_stat_t u;
       Some (word_to_int32 (umrs u 0), u) } }"

subsection \<open>Processes\<close>

definition sos_process_create :: "kernel_call \<Rightarrow> word64 \<Rightarrow> user \<Rightarrow> (pid_t \<times> user) option" where
  "sos_process_create call path u = do {
     n \<leftarrow> strlen (umem u) path 0;
     let (nbytes, u) = user_copyin path (n + 1) u;
     u \<leftarrow> call 2 (set_mrs [SOS_PROC_CREATE, nbytes] u);
     Some (word_to_int32 (umrs u 0), u) }"

definition sos_process_delete :: "kernel_call \<Rightarrow> pid_t \<Rightarrow> user \<Rightarrow> (int \<times> user) option" where
  "sos_process_delete call pid u = do {
     u \<leftarrow> call 2 (set_mrs [SOS_PROC_DELETE, word_of_int pid] u);
     Some (word_to_int32 (umrs u 0), u) }"

definition sos_my_id :: "kernel_call \<Rightarrow> user \<Rightarrow> (pid_t \<times> user) option" where
  "sos_my_id call u = do {
     u \<leftarrow> call 1 (set_mrs [SOS_PROC_MY_ID] u);
     Some (word_to_int32 (umrs u 0), u) }"

definition sos_process_status :: "kernel_call \<Rightarrow> word64 \<Rightarrow> word32 \<Rightarrow> user \<Rightarrow> (int \<times> user) option" where
  "sos_process_status call processes max_active u = do {
     u \<leftarrow> call 2 (set_mrs [SOS_PROC_STATUS, ucast max_active] u);
     let nactive = umrs u 0;
     let (_, u) = user_copyout processes (nactive * word_of_nat sizeof_sos_process_t) u;
     Some (word_to_int32 nactive, u) }"

definition sos_process_wait :: "kernel_call \<Rightarrow> pid_t \<Rightarrow> user \<Rightarrow> (pid_t \<times> user) option" where
  "sos_process_wait call pid u = do {
     u \<leftarrow> call 2 (set_mrs [SOS_PROC_WAIT, word_of_int pid] u);
     Some (word_to_int32 (umrs u 0), u) }"

subsection \<open>Time and memory\<close>

definition sos_sys_usleep :: "kernel_call \<Rightarrow> int \<Rightarrow> user \<Rightarrow> user option" where
  "sos_sys_usleep call msec u =
     (if msec < 0 then Some u else call 2 (set_mrs [SOS_SYS_USLEEP, word_of_int msec] u))"

definition sos_sys_time_stamp :: "kernel_call \<Rightarrow> user \<Rightarrow> (int \<times> user) option" where
  "sos_sys_time_stamp call u = do {
     u \<leftarrow> call 1 (set_mrs [SOS_SYS_TIME_STAMP] u);
     Some (sint (umrs u 0), u) }"

definition sos_sys_brk :: "kernel_call \<Rightarrow> word64 \<Rightarrow> user \<Rightarrow> (int \<times> user) option" where
  "sos_sys_brk call newbrk u = do {
     u \<leftarrow> call 2 (set_mrs [SOS_SYS_BRK, newbrk] u);
     Some (sint (umrs u 1), u) }"

section \<open>Lemmas\<close>

text \<open>
  What SOS sees of a message: the registers, and in its own mapping of the buffer the bytes that
  the process put there.
\<close>

definition arrived :: "pid_t \<Rightarrow> user \<Rightarrow> sos \<Rightarrow> bool" where
  "arrived pid u s \<longleftrightarrow> mrs s = umrs u \<and>
     load_list (mem s) (get_buf_from_pid pid s) 1048576 = load_list (umem u) SHARE_BUF_BASE 1048576"

lemma check_len_eq: "check_len len = share_buf_check_len len"
  by (simp add: check_len_def share_buf_check_len_def)

lemma load_list_take: "n \<le> k \<Longrightarrow> load_list m a n = take n (load_list m a k)"
  by (simp add: load_list_def take_map)

lemma load_list_nth: "i < n \<Longrightarrow> load_list m a n ! i = m (a + word_of_nat i)"
  by (simp add: load_list_def)

lemma set_mrs_simps [simp]:
  "umem (set_mrs ws u) = umem u" "i < length ws \<Longrightarrow> umrs (set_mrs ws u) i = ws ! i"
  by (simp_all add: set_mrs_def)

lemma user_copyin_eq:
  "user_copyin a len u =
     (share_buf_check_len len, u\<lparr>umem := memcpy (umem u) SHARE_BUF_BASE a (share_buf_check_len len)\<rparr>)"
  by (simp add: user_copyin_def check_len_eq Let_def)

lemma user_copyout_eq:
  "user_copyout a len u =
     (share_buf_check_len len, u\<lparr>umem := memcpy (umem u) a SHARE_BUF_BASE (share_buf_check_len len)\<rparr>)"
  by (simp add: user_copyout_def check_len_eq Let_def)

lemma load_list_memcpy_word: "load_list (memcpy m dst src len) dst (unat len) = load_list m src (unat len)"
  using load_list_memcpy [of "unat len" m dst src] by simp

lemma load_list_shift: "load_list (\<lambda>x. m (b + (x - a))) a n = load_list m b n"
  by (simp add: load_list_def)

text \<open>The bytes the program copies into the buffer are those SOS copies out, for every length.\<close>

lemma arrived_bytes:
  assumes "arrived pid u' s" "umem u' = memcpy m SHARE_BUF_BASE a (share_buf_check_len len)"
  shows "copyout_bytes pid len s = load_list m a (min (unat len) 1048576)"
proof -
  let ?n = "unat (share_buf_check_len len)"
  have n: "?n = min (unat len) 1048576" by (rule share_buf_check_len_eq)
  have "copyout_bytes pid len s = load_list (umem u') SHARE_BUF_BASE ?n"
    using assms(1) load_list_take [of ?n 1048576] n by (simp add: copyout_bytes_def arrived_def)
  then show ?thesis using assms(2) load_list_memcpy_word n by metis
qed

lemma string_byte_nonzero: "c \<noteq> CHR 0x00 \<Longrightarrow> (word_of_nat (of_char c) :: byte) \<noteq> 0"
  using char_of_byte [of c] by (auto simp: char_of_def)

lemma strlen_string:
  assumes "load_list m a (length cs + 1) = string_bytes cs" "CHR 0x00 \<notin> set cs" "k \<le> length cs"
  shows "strlen m a (word_of_nat k) = Some (word_of_nat (length cs))"
  using assms(3)
proof (induction "length cs - k" arbitrary: k)
  case 0
  then have "k = length cs" by simp
  then have "m (a + word_of_nat k) = 0"
    using load_list_nth [of k "length cs + 1" m a] assms(1) by (simp add: string_bytes_def nth_append)
  then show ?case using \<open>k = length cs\<close> by (simp add: strlen.simps)
next
  case (Suc d)
  then have k: "k < length cs" by simp
  have "m (a + word_of_nat k) = word_of_nat (of_char (cs ! k))"
    using load_list_nth [of k "length cs + 1" m a] assms(1) k by (simp add: string_bytes_def nth_append)
  moreover have "(word_of_nat (of_char (cs ! k)) :: byte) \<noteq> 0"
    using string_byte_nonzero [of "cs ! k"] assms(2) k nth_mem by metis
  ultimately have "strlen m a (word_of_nat k) = strlen m a (word_of_nat (Suc k))"
    by (subst strlen.simps) (simp add: add.commute)
  then show ?case using Suc(1) [of "Suc k"] Suc(2) k by simp
qed

text \<open>A write sends the first mebibyte of the program's bytes at most, and says how many it sent.\<close>

lemma sos_sys_write_arrives:
  "\<exists>u1. sos_sys_write call file buf nbyte u = map_option (\<lambda>u2. (word_to_int32 (umrs u2 0), u2)) (call 3 u1) \<and>
     (\<forall>pid s. arrived pid u1 s \<longrightarrow> GetMR 0 s = SOS_SYS_WRITE \<and> GetMR 1 s = word_of_int file \<and>
        unat (GetMR 2 s) = min (unat nbyte) 1048576 \<and>
        copyout_bytes pid (GetMR 2 s) s = load_list (umem u) buf (min (unat nbyte) 1048576))"
proof -
  let ?n = "share_buf_check_len nbyte"
  let ?u = "set_mrs [SOS_SYS_WRITE, word_of_int file, ?n] (u\<lparr>umem := memcpy (umem u) SHARE_BUF_BASE buf ?n\<rparr>)"
  have "sos_sys_write call file buf nbyte u = map_option (\<lambda>u2. (word_to_int32 (umrs u2 0), u2)) (call 3 ?u)"
    by (simp add: sos_sys_write_def user_copyin_eq map_option_case split: option.split)
  moreover have "GetMR 0 s = SOS_SYS_WRITE" "GetMR 1 s = word_of_int file" "GetMR 2 s = ?n"
    "copyout_bytes pid ?n s = load_list (umem u) buf (min (unat nbyte) 1048576)" if r: "arrived pid ?u s" for pid s
    using r arrived_bytes [OF r, of "umem u" buf ?n] by (simp_all add: arrived_def GetMR_def share_buf_check_len_eq)
  ultimately show ?thesis by (intro exI [of _ ?u]) (simp add: share_buf_check_len_eq)
qed

text \<open>
  C21. The user library and SOS agree on the open call. For a path of less than a mebibyte in the
  program's memory, \<open>sos_sys_open\<close> sends one message of three words, and in every state of SOS
  that received it from the process the handler reads the number of the open call, the mode that
  the program gave and exactly its path. The program gets -1 if the reply has an error and the
  descriptor otherwise.
\<close>

theorem sos_sys_open_arrives:
  assumes cs: "load_list (umem u) path (length cs + 1) = string_bytes cs" "CHR 0x00 \<notin> set cs" "length cs < 1048576"
    and mode: "- (2 ^ 31) \<le> mode" "mode < 2 ^ 31"
  shows "\<exists>u1. sos_sys_open call path mode u =
      map_option (\<lambda>u2. (if umrs u2 0 \<noteq> 0 then - 1 else word_to_int32 (umrs u2 1), u2)) (call 3 u1) \<and>
    (\<forall>s curproc v. get_proc s curproc = Some v \<longrightarrow> arrived (p_pid v) u1 s \<longrightarrow>
       GetMR 0 s = 3 \<and> word_to_int32 (GetMR 1 s) = mode \<and> user_path curproc (GetMR 2 s) s = Some cs)"
proof -
  let ?n = "word_of_nat (length cs) + 1 :: word64"
  have n: "unat ?n = length cs + 1" using cs(3) unat_of_nat64 [of "length cs + 1"] by (simp add: add.commute)
  have len: "share_buf_check_len ?n = ?n" using n cs(3) by (simp add: share_buf_check_len_def word_less_nat_alt)
  let ?u = "(set_mrs [SOS_SYS_OPEN, word_of_int mode, ?n] u)\<lparr>umem := memcpy (umem u) SHARE_BUF_BASE path ?n\<rparr>"
  have "sos_sys_open call path mode u =
      map_option (\<lambda>u2. (if umrs u2 0 \<noteq> 0 then - 1 else word_to_int32 (umrs u2 1), u2)) (call 3 ?u)"
    using strlen_string [OF cs(1,2), of 0] by (simp add: sos_sys_open_def user_copyin_eq len map_option_case split: option.split)
  moreover have "GetMR 0 s = 3" "word_to_int32 (GetMR 1 s) = mode" "user_path curproc (GetMR 2 s) s = Some cs"
    if v: "get_proc s curproc = Some v" and r: "arrived (p_pid v) ?u s" for s curproc v
  proof -
    have mr: "GetMR 0 s = 3" "GetMR 1 s = word_of_int mode" "GetMR 2 s = ?n"
      using r by (simp_all add: arrived_def GetMR_def)
    have "copyout_bytes (p_pid v) ?n s = string_bytes cs"
      using arrived_bytes [OF r, of "umem u" path ?n] cs(1,3) n len by simp
    then show "GetMR 0 s = 3" "word_to_int32 (GetMR 1 s) = mode" "user_path curproc (GetMR 2 s) s = Some cs"
      using mr v mode c_string_string_bytes [OF cs(2), of "[]"] by (simp_all add: user_path_def word_to_int32_of_int)
  qed
  ultimately show ?thesis by blast
qed

text \<open>
  C39. An error answer to a read overruns the program's buffer. \<open>sos_sys_read\<close> copies as many bytes
  as the answer says, up to the whole mebibyte of the shared buffer, and not what the program asked
  for: the answer -1, with which SOS passes on a failed read, overwrites a mebibyte of the program
  from \<open>buf\<close> on, whatever \<open>nbyte\<close> is, before -1 is returned. Nothing else is written.
\<close>

theorem sos_sys_read_error_overruns:
  assumes c: "call 3 (set_mrs [2, word_of_int file, nbyte] u) = Some u1" "umrs u1 0 = - 1"
  shows "\<exists>u2. sos_sys_read call file buf nbyte u = Some (- 1, u2) \<and>
    load_list (umem u2) buf 1048576 = load_list (umem u1) SHARE_BUF_BASE 1048576 \<and>
    (\<forall>a. unat (a - buf) \<ge> 1048576 \<longrightarrow> umem u2 a = umem u1 a)"
proof -
  have "unat (- 1 :: word64) = 2 ^ 64 - 1" by (simp add: unsigned_minus_1_eq_mask mask_eq_exp_minus_1)
  then have len: "share_buf_check_len (- 1) = 1048576" by (simp add: share_buf_check_len_def word_less_nat_alt)
  let ?m = "memcpy (umem u1) buf SHARE_BUF_BASE 1048576"
  have "sos_sys_read call file buf nbyte u = Some (- 1, u1\<lparr>umem := ?m\<rparr>)"
    using c word_to_int32_of_int [of "- 1"] by (simp add: sos_sys_read_def user_copyout_eq len)
  moreover have "load_list ?m buf 1048576 = load_list (umem u1) SHARE_BUF_BASE 1048576"
    using load_list_memcpy_word [of "umem u1" buf SHARE_BUF_BASE 1048576] by simp
  moreover have "?m a = umem u1 a" if "unat (a - buf) \<ge> 1048576" for a
    using that by (simp add: memcpy_def word_less_nat_alt)
  ultimately show ?thesis by auto
qed

section \<open>Witnesses\<close>

definition user_example :: user where
  "user_example = \<lparr>umem = store_list (\<lambda>_. 0) 0x1000 (string_bytes ''sh''), umrs = (\<lambda>_. 0)\<rparr>"

text \<open>A kernel that answers every call with descriptor 5, and one that fails every call.\<close>

definition call_opens :: kernel_call where
  "call_opens n u = Some (u\<lparr>umrs := (\<lambda>_. 0)(1 := 5)\<rparr>)"

definition call_fails :: kernel_call where
  "call_fails n u = Some (u\<lparr>umrs := (\<lambda>_. - 1)\<rparr>)"

lemma arrived_exists:
  assumes "get_proc s p = Some v"
  shows "\<exists>s'. get_proc s' p = Some v \<and> arrived (p_pid v) u s'"
proof
  let ?s = "s\<lparr>mrs := umrs u, mem := (\<lambda>x. umem u (SHARE_BUF_BASE + (x - get_buf_from_pid (p_pid v) s)))\<rparr>"
  show "get_proc ?s p = Some v \<and> arrived (p_pid v) u ?s"
    using assms by (simp add: arrived_def load_list_shift get_buf_from_pid_def get_proc_def split: if_splits)
qed

theorem sos_sys_open_arrives_witness:
  "\<exists>s. user_path 0x1000 (GetMR 2 s) s = Some ''sh'' \<and> word_to_int32 (GetMR 1 s) = 2 \<and>
     map_option fst (sos_sys_open call_opens 0x1000 2 user_example) = Some 5"
proof -
  have cs: "load_list (umem user_example) 0x1000 (length ''sh'' + 1) = string_bytes ''sh''"
    using load_store_list [of "string_bytes ''sh''" "\<lambda>_. 0" "0x1000"] by (simp add: user_example_def string_bytes_def)
  obtain v where v: "get_proc files_example 0x1000 = Some v"
    by (simp add: files_example_def get_proc_def)
  obtain u1 where u1: "sos_sys_open call_opens 0x1000 2 user_example =
      map_option (\<lambda>u2. (if umrs u2 0 \<noteq> 0 then - 1 else word_to_int32 (umrs u2 1), u2)) (call_opens 3 u1)"
    "\<And>s curproc v. get_proc s curproc = Some v \<Longrightarrow> arrived (p_pid v) u1 s \<Longrightarrow>
       word_to_int32 (GetMR 1 s) = 2 \<and> user_path curproc (GetMR 2 s) s = Some ''sh''"
    using sos_sys_open_arrives [OF cs, of 2 call_opens] by auto
  obtain s where "get_proc s 0x1000 = Some v" "arrived (p_pid v) u1 s" using arrived_exists [OF v] by blast
  then have "word_to_int32 (GetMR 1 s) = 2" "user_path 0x1000 (GetMR 2 s) s = Some ''sh''" using u1(2) by simp_all
  moreover have "map_option fst (sos_sys_open call_opens 0x1000 2 user_example) = Some 5"
    unfolding u1(1) by (simp add: call_opens_def word_to_int32_def)
  ultimately show ?thesis by blast
qed

theorem sos_sys_read_error_overruns_witness:
  "\<exists>u2. sos_sys_read call_fails 3 0x1000 1 user_example = Some (- 1, u2) \<and> umem user_example 0x1001 = 0x68 \<and> umem u2 0x1001 = 0"
proof -
  let ?u1 = "(set_mrs [2, word_of_int 3, 1] user_example)\<lparr>umrs := (\<lambda>_. - 1)\<rparr>"
  obtain u2 where u2: "sos_sys_read call_fails 3 0x1000 1 user_example = Some (- 1, u2)"
    "load_list (umem u2) 0x1000 1048576 = load_list (umem ?u1) SHARE_BUF_BASE 1048576"
    using sos_sys_read_error_overruns [of call_fails 3 1 user_example ?u1 "0x1000"] by (auto simp: call_fails_def)
  have "umem u2 (0x1000 + word_of_nat 1) = umem user_example (SHARE_BUF_BASE + word_of_nat 1)"
    using arg_cong [OF u2(2), of "\<lambda>xs. xs ! 1"] by (simp add: load_list_nth del: of_nat_1)
  then have "umem u2 0x1001 = 0" by (simp add: user_example_def store_list_def string_bytes_def)
  moreover have "umem user_example 0x1001 = 0x68" by (simp add: user_example_def store_list_def string_bytes_def)
  ultimately show ?thesis using u2(1) by blast
qed

end
