(* ===== verification/Spec2Isabelle.thy ===== *)
theory Spec2Isabelle
  imports PQueue Dma Clock Bitfield Cspace Cspace_Slots Ut Mapping Ut_Alloc Addrspace Pte State Sharedbuf Console Vfs Pool Pagewalk Pager
    Still Observed Frametable Pagetable Pagemap Filetable Cpio Elf_File Elf_Load Proc Syscalls Bootstrap Muslc Main_Loop Proc_Table Ringbuffer Picoro Sosapi
begin

text \<open>
  Verification of SOS, the operating system of the spaghettiOS repository: a root task that gives
  processes, files, virtual memory and time to user programs on the seL4 microkernel. Paths below
  are relative to \<open>src/projects/aos\<close>, except those that start with \<open>projects\<close>.

  \<^bold>\<open>The program and its parts.\<close>
  seL4 starts SOS with all memory as untyped objects. \<open>bootstrap.c\<close> builds a capability space and
  the table of untypeds from them; \<open>main.c\<close> starts the drivers and the first process and enters
  the event loop, which takes one message at a time: an interrupt, a page fault or a system call.
  Faults and system calls run in coroutines (\<open>picoro.c\<close>), so that they can wait for the NFS
  server, the console, a timer or the end of a process. System calls reach the name space
  (\<open>vfs.c\<close>), which is either the console or the NFS server, the processes (\<open>proc.c\<close>) and the address
  spaces. Page faults reach the page tables, these the frame table, and that the pager when memory
  is short; the pager writes to a file on the NFS server. The frame table, the page tables and
  the processes get kernel objects from the untyped table and slots from the capability space.
  User programs call SOS through \<open>libsosapi\<close>.

  \<^bold>\<open>Conventions.\<close>
  Unsigned C integers are words of their width and wrap. A function that can go wrong returns an
  option: \<open>None\<close> is a run that does not return normally, because of a failed assertion, an abort, an
  access out of bounds or through a null or freed pointer, or a loop that never ends. Error codes
  are ordinary values. Loops whose end depends on data are \<open>partial_function (option)\<close>; loops that
  count run by recursion over the number of rounds that are left. The one loop with a number of
  rounds that is not in the code is that of \<open>elf_loadFile\<close>, which counts up to a 16-bit number it
  reads again in every round: it has 65536 rounds, and \<open>load_loop_enough\<close> shows that more change
  nothing. The other bounds are those of the code: 32 processes, 16 files per process, 8192 bytes
  of console line, 256 pages of shared buffer, 512 entries per table.
  State is passed explicitly, in records that extend each other: \<open>machine\<close> (memory and kernel),
  the untyped table, the clock driver, and \<open>sos\<close> (all the rest).

  \<^bold>\<open>The environment.\<close>
  Code that is not in the repository's own sources is a parameter. The answers of seL4, of the C
  library's allocator, of picoTCP and of device registers are a function \<open>kresp\<close> of the calls made
  so far, which are logged in \<open>klog\<close>. The record \<open>world\<close> says what the NFS library refuses, which
  messages arrive, and in what state and with what answer a coroutine that waits is resumed:
  whatever else runs in between is part of that step. Properties that must survive it say what
  they ask of it, a rely and guarantee argument:

  \<^item> \<open>procs_stable\<close>: the invariant of the process table is kept, and what the waiting coroutine
    holds stays its own. The operations of SOS are shown to guarantee the same. Two auxiliary
    variables, \<open>held_procs\<close> and \<open>parked_procs\<close>, record the process structures that creations hold
    before they are in the table, so that a creation that is resumed may finish.
  \<^item> \<open>frames_stable\<close>: the frame table keeps its invariant.
  \<^item> \<open>files_stable\<close>: the file table of the calling process is left alone while its call waits. The
    operations on files change that table themselves, between the waits; the process makes one
    call at a time, and must not be killed while it waits.
  \<^item> \<open>quiet\<close>: the count of running operations of the one process in question is unchanged when its
    operation is resumed.

  \<^bold>\<open>The theories.\<close>

  \<^item> \<open>Prelude\<close>: types, macros of \<open>projects/libutils\<close>, the machine, option-valued control (\<open>rd\<close>,
    \<open>wr\<close>, \<open>c_assert\<close>, \<open>for_each\<close>), byte memory with its laws, and the rules \<open>ends\<close>/\<open>paths\<close> that
    follow the structure of a definition.
  \<^item> \<open>PQueue\<close> (\<open>libclock/src/pqueue.c\<close>) and \<open>Clock\<close> (\<open>clock.c\<close>, \<open>timestamp.h\<close>, device layer):
    pushing inserts in order of time and what it loses; removing is a filter; the interrupt runs
    exactly the jobs that are due; and a period below one tick never returns. Both are stated for
    callbacks that return and leave the queue alone, as \<open>usleep_handler\<close> does. The locale
    \<open>timer_queue\<close> is the contract between the two.
  \<^item> \<open>Bitfield\<close>, \<open>Cspace\<close> and \<open>Cspace_Slots\<close> (\<open>libsel4cspace\<close>): the first free bit, creation,
    destruction, the two-level allocator with its watermark. No slot is handed out twice, for
    every behaviour of the allocation callbacks; freeing gives back exactly one slot. Locales
    \<open>bit_set\<close> and \<open>slot_allocator\<close>, the latter interpreted for one and for two levels.
  \<^item> \<open>Ut\<close>, \<open>Ut_Alloc\<close> (\<open>sos/src/ut/ut.c\<close>) and \<open>Mapping\<close> (\<open>sos/src/mapping.c\<close>): the linked lists in
    the table refine lists; adding a range, allocating and freeing.
  \<^item> \<open>Bootstrap\<close> (\<open>bootstrap.c\<close>) and \<open>Dma\<close> (\<open>dma.c\<close>): the memory that is taken before the table
    exists is never taken twice; DMA blocks are disjoint and translate both ways, unless a size
    wraps round.
  \<^item> \<open>State\<close> (the record \<open>sos\<close>), \<open>Sharedbuf\<close> (\<open>shared_buf.c\<close>, \<open>uio.c\<close>), \<open>Console\<close> (\<open>console.c\<close>,
    \<open>libserial\<close>): copies in and out of the buffers agree and buffers are disjoint; how long a line
    may get before it leaves the buffer.
  \<^item> \<open>Vfs\<close> (\<open>vfs.c\<close>, \<open>vnode.c\<close>, \<open>device_vops.c\<close>, \<open>libnfs_vops.c\<close>) and \<open>Observed\<close>: lookups in the
    name space; every operation gives back, on each of its paths, what it added to the count of
    running operations of its process. The locale
    \<open>observed\<close> proves once, for every relation that the steps respect, that every file operation
    respects it. It is interpreted for the counts, the file tables, the frame table and the
    process table.
  \<^item> \<open>Pagewalk\<close>, \<open>Pte\<close>, \<open>Pool\<close>, \<open>Pager\<close> (\<open>pager.c\<close>), \<open>Frametable\<close> (\<open>frametable.c\<close>), \<open>Pagetable\<close>
    (\<open>pagetable.c\<close>), \<open>Pagemap\<close>: the page file never hands out a block twice and a page written
    out is read back; the frame table keeps its free list and its count, the search for a victim
    always ends and does not spare important frames; a page table is a map of which an insertion changes one entry. The
    locale \<open>pool\<close>, of requests that may be refused, is shared by blocks and file descriptors, \<open>observed_paging\<close> extends \<open>observed\<close> by
    page-outs.
  \<^item> \<open>Still\<close>: what the memory management leaves alone, one rule per operation; the locale
    \<open>still_alloc\<close> covers both sets of allocation callbacks.
  \<^item> \<open>Addrspace\<close> (\<open>address_space.c\<close>): regions never overlap, and what destroying one does.
  \<^item> \<open>Filetable\<close> (\<open>filetable.c\<close>, \<open>file_syscalls.c\<close>): descriptors are distinct, opening takes the
    lowest, reading and writing advance the offset.
  \<^item> \<open>Cpio\<close> (\<open>projects/libcpio\<close>), \<open>Elf_File\<close> (\<open>projects/libelf\<close>), \<open>Elf_Load\<close> (\<open>sos/src/elf.c\<close>): the archive
    parser finds what the format stores; the bounds of an image; a loaded page stays in its frame.
    Beyond that, what \<open>elf_loadFile\<close> and \<open>elf_load\<close> put where is modelled but not stated.
  \<^item> \<open>Proc\<close> (\<open>proc.c\<close>), \<open>Syscalls\<close> (\<open>proc_syscalls.c\<close>, \<open>time_syscalls.c\<close>, \<open>vm_syscalls.c\<close>): process
    ids, the first stack, and that waiting for any child is registered the wrong way round. \<open>Main_Loop\<close> (\<open>main.c\<close>): a system call is run for the process
    that made it and answered. \<open>Proc_Table\<close>: the process table is well formed in every state of the
    event loop.
  \<^item> \<open>Muslc\<close> (\<open>sos/src/sys\<close>, \<open>drivers/uart.c\<close>): the C library's calls inside SOS; the break stays in
    its area, \<open>mmap\<close> finds new regions, writing to the standard output sends the bytes.
  \<^item> \<open>Picoro\<close> (\<open>picoro.c\<close>): a step relation over the coroutine calls; in every reachable state the
    running and the idle list are disjoint and \<open>resumable\<close> is exact.
  \<^item> \<open>Ringbuffer\<close> (\<open>ringbuffer.h\<close>): first in first out until the buffer is full, and then a write
    behind the array. Its sizes are below the largest \<open>int\<close> and \<open>calloc\<close> succeeds.
  \<^item> \<open>Sosapi\<close> (\<open>libsosapi/src/sos.c\<close>): what a program puts in a call is what the handler reads.

  \<^bold>\<open>Simplifications.\<close>
  Heap nodes that only one list points to are list elements, so freeing them has no effect.
  Messages that are printed are left out. Frames are read and written through the one mapping that SOS has of them, where the loader uses a second
  temporary one. \<open>memcpy\<close> reads its whole source before it writes. \<open>page_table_insert_correct\<close>
  is about runs that need not page out.

  \<^bold>\<open>Not modelled.\<close>
  \<open>network.c\<close> connects picoTCP, libnfs and the Ethernet driver by callbacks and has no state
  of its own that the rest reads; its entry points are functions of the environment. The Ethernet
  driver, from U-Boot, is defined by the registers of its device. \<open>backtrace.c\<close>, \<open>libaos\<close> and the
  debug output only print. The wrappers of \<open>libsosapi\<close> around \<open>sos.c\<close>, the shell, the terminal
  test and the tests are user programs or tests. The kernel, musl, picoTCP, libnfs, \<open>libsel4sync\<close> and
  the rest of \<open>libutils\<close> are third-party code; most lines of the repository are theirs.
\<close>

end
